(* ===== verification/Prelude.thy ===== *)
theory Prelude
  imports Main "HOL-Library.Char_ord" "HOL-Library.List_Lexorder" "HOL-Library.Sublist"
begin

text \<open>
  What the components share: the effects of the C++ code as state passing (a call of host code, of
  a tool or of the network takes the world and returns an outcome and the new world), the pieces
  of the C++ standard library the sources use (substring search, number printing and reading,
  the ordered \<^verbatim>\<open>std::map\<close>), and the lemma collections of the development.
\<close>

section \<open>Outcomes and effects\<close>

text \<open>
  A C++ call returns, throws, does not return, or runs into undefined behaviour. Exceptions
  derived from \<^verbatim>\<open>std::exception\<close> carry their \<^verbatim>\<open>what()\<close> text; a host callback may
  throw anything else.
\<close>

datatype exn = Std_exception string | Foreign_exception

datatype 'a outcome = Ret 'a | Throw exn | Hang | Undef

type_synonym ('w, 'a) act = "'w \<Rightarrow> 'a outcome \<times> 'w"

definition ret :: "'a \<Rightarrow> ('w, 'a) act" where
  "ret a = (\<lambda>w. (Ret a, w))"

definition lift_out :: "'a outcome \<Rightarrow> ('w, 'a) act" where
  "lift_out r = (\<lambda>w. (r, w))"

definition bindA :: "('w, 'a) act \<Rightarrow> ('a \<Rightarrow> ('w, 'b) act) \<Rightarrow> ('w, 'b) act" where
  "bindA m k = (\<lambda>w. case m w of
       (Ret a, w1) \<Rightarrow> k a w1
     | (Throw e, w1) \<Rightarrow> (Throw e, w1)
     | (Hang, w1) \<Rightarrow> (Hang, w1)
     | (Undef, w1) \<Rightarrow> (Undef, w1))"

text \<open>\<^verbatim>\<open>catch (...)\<close> and \<^verbatim>\<open>catch (const std::exception&)\<close>.\<close>

definition try_any :: "('w, 'a) act \<Rightarrow> ('w, 'a) act \<Rightarrow> ('w, 'a) act" where
  "try_any m h = (\<lambda>w. case m w of (Throw e, w1) \<Rightarrow> h w1 | r \<Rightarrow> r)"

definition try_std :: "('w, 'a) act \<Rightarrow> (string \<Rightarrow> ('w, 'a) act) \<Rightarrow> ('w, 'a) act" where
  "try_std m h = (\<lambda>w. case m w of (Throw (Std_exception s), w1) \<Rightarrow> h s w1 | r \<Rightarrow> r)"

definition modifyA :: "('w \<Rightarrow> 'w) \<Rightarrow> ('w, unit) act" where
  "modifyA f = (\<lambda>w. (Ret (), f w))"

definition readA :: "('w \<Rightarrow> 'a) \<Rightarrow> ('w, 'a) act" where
  "readA f = (\<lambda>w. (Ret (f w), w))"

text \<open>A destructor that runs on every way out of a block.\<close>

definition finallyA :: "('w, 'a) act \<Rightarrow> ('w \<Rightarrow> 'w) \<Rightarrow> ('w, 'a) act" where
  "finallyA m f = (\<lambda>w. case m w of (r, w1) \<Rightarrow> (r, f w1))"

text \<open>A range-based \<^verbatim>\<open>for\<close> over a list, with no early exit but an exception.\<close>

fun forA :: "'a list \<Rightarrow> ('a \<Rightarrow> ('w, unit) act) \<Rightarrow> ('w, unit) act" where
  "forA [] f = ret ()"
| "forA (x # xs) f = bindA (f x) (\<lambda>_. forA xs f)"

text \<open>The effects of a component that owns a part of the state and calls code that does not.\<close>

definition on_snd :: "('w, 'a) act \<Rightarrow> ('s \<times> 'w, 'a) act" where
  "on_snd m = (\<lambda>(s, w). case m w of (r, w1) \<Rightarrow> (r, (s, w1)))"

text \<open>A \<^verbatim>\<open>std::function\<close> that may be empty; the code tests it before the call.\<close>

definition call_opt :: "('a \<Rightarrow> ('w, unit) act) option \<Rightarrow> 'a \<Rightarrow> ('w, unit) act" where
  "call_opt f a = (case f of None \<Rightarrow> ret () | Some g \<Rightarrow> g a)"

text \<open>
  \<^verbatim>\<open>const std::atomic_bool*\<close>: no pointer, or a flag other threads may set at any time, so that
  a load is an interaction with the world that returns the value read.
\<close>

type_synonym 'w flag_ptr = "('w \<Rightarrow> bool \<times> 'w) option"

definition load_flag :: "'w flag_ptr \<Rightarrow> ('w, bool) act" where
  "load_flag c = (\<lambda>w. case c of None \<Rightarrow> (Ret False, w) | Some l \<Rightarrow> (case l w of (b, w1) \<Rightarrow> (Ret b, w1)))"

lemmas act_defs = ret_def lift_out_def bindA_def try_any_def try_std_def modifyA_def readA_def
  finallyA_def on_snd_def call_opt_def load_flag_def

lemma ret_apply [simp]: "ret a w = (Ret a, w)"
  and lift_out_apply [simp]: "lift_out r w = (r, w)"
  and modifyA_apply [simp]: "modifyA f w = (Ret (), f w)"
  and readA_apply [simp]: "readA rd w = (Ret (rd w), w)"
  and call_opt_None [simp]: "call_opt None a = ret ()"
  and call_opt_Some [simp]: "call_opt (Some g) a = g a"
  and load_flag_None [simp]: "load_flag None = ret False"
  by (simp_all add: act_defs)

lemma bindA_apply: "bindA m k w = (case m w of
       (Ret a, w1) \<Rightarrow> k a w1
     | (Throw e, w1) \<Rightarrow> (Throw e, w1)
     | (Hang, w1) \<Rightarrow> (Hang, w1)
     | (Undef, w1) \<Rightarrow> (Undef, w1))"
  by (simp add: bindA_def)

lemma bindA_eqs [simp]:
  "m w = (Ret a, w1) \<Longrightarrow> bindA m k w = k a w1"
  "m w = (Throw e, w1) \<Longrightarrow> bindA m k w = (Throw e, w1)"
  "m w = (Hang, w1) \<Longrightarrow> bindA m k w = (Hang, w1)"
  "m w = (Undef, w1) \<Longrightarrow> bindA m k w = (Undef, w1)"
  by (simp_all add: bindA_def)

lemma bindA_ret [simp]: "bindA (ret a) k = k a"
  by (simp add: bindA_def ret_def)

lemma bindA_lift_Ret [simp]: "bindA (lift_out (Ret a)) k = k a"
  by (simp add: bindA_def lift_out_def)

lemma bindA_readA [simp]: "bindA (readA f) k w = k (f w) w"
  by (simp add: bindA_def readA_def)

lemma bindA_modifyA [simp]: "bindA (modifyA f) k w = k () (f w)"
  by (simp add: bindA_def modifyA_def)

lemma bindA_assoc: "bindA (bindA m f) g = bindA m (\<lambda>x. bindA (f x) g)"
  by (simp add: bindA_def fun_eq_iff split: prod.splits outcome.splits)

lemma bindA_RetE:
  assumes "bindA m k w = (Ret b, w2)"
  obtains a w1 where "m w = (Ret a, w1)" "k a w1 = (Ret b, w2)"
  using assms by (auto simp: bindA_def split: prod.splits outcome.splits)

lemma load_flag_returns: "\<exists>b w1. load_flag c w = (Ret b, w1)"
  by (cases c) (auto simp: load_flag_def split: prod.splits)

lemma load_flag_cases:
  obtains b w1 where "load_flag c w = (Ret b, w1)"
  using load_flag_returns [of c w] by blast

lemma bindA_cong_at:
  assumes "m s = m' s" and "\<And>a s1. m' s = (Ret a, s1) \<Longrightarrow> k a s1 = k' a s1"
  shows "bindA m k s = bindA m' k' s"
  using assms by (auto simp: bindA_def split: prod.splits outcome.splits)

lemma on_snd_apply [simp]: "on_snd m (v, w) = (fst (m w), (v, snd (m w)))"
  by (simp add: on_snd_def split: prod.splits)

text \<open>A flag nobody sets, and a flag that other threads write: what they do before a load, to the flag and to
  the rest of the world, is \<open>env\<close>.\<close>

definition never_set :: "'w flag_ptr \<Rightarrow> bool" where
  "never_set cancel \<longleftrightarrow> (\<forall>w. load_flag cancel w = (Ret False, w))"

lemma never_set_None [simp]: "never_set None"
  by (simp add: never_set_def)

lemma bindA_load: "never_set cancel \<Longrightarrow> bindA (load_flag cancel) k = k False"
  by (auto simp: never_set_def bindA_def fun_eq_iff)

lemma bindA_on_snd_load:
  "never_set cancel \<Longrightarrow> bindA (on_snd (load_flag cancel)) k = k False"
  by (auto simp: never_set_def bindA_def on_snd_def fun_eq_iff)

definition thread_flag :: "('w \<Rightarrow> 'w) \<Rightarrow> ('w \<Rightarrow> bool) \<Rightarrow> 'w flag_ptr" where
  "thread_flag env b = Some (\<lambda>w. (b (env w), env w))"

lemma load_thread_flag [simp]: "load_flag (thread_flag env b) w = (Ret (b (env w)), env w)"
  by (simp add: thread_flag_def load_flag_def)

lemma bindA_thread_flag [simp]: "bindA (load_flag (thread_flag env b)) k w = k (b (env w)) (env w)"
  by (simp add: bindA_def)

lemma finallyA_on_snd [simp]: "finallyA (on_snd m) (\<lambda>(s, w). (f s, w)) (s, w) = (fst (m w), (f s, snd (m w)))"
  by (simp add: finallyA_def)

section \<open>Calls that complete\<close>

text \<open>The call returns or throws: it neither hangs nor runs into undefined behaviour.\<close>

definition completes :: "('w, 'a) act \<Rightarrow> bool" where
  "completes m \<longleftrightarrow> (\<forall>w. fst (m w) \<noteq> Hang \<and> fst (m w) \<noteq> Undef)"

lemma completes_ret [intro, simp]: "completes (ret a)"
  and completes_readA [intro, simp]: "completes (readA f)"
  and completes_modifyA [intro, simp]: "completes (modifyA g)"
  by (simp_all add: completes_def)

lemma completes_bindA:
  assumes "completes m" and "\<And>x. completes (k x)"
  shows "completes (bindA m k)"
  unfolding completes_def
proof
  fix w
  obtain r w1 where m: "m w = (r, w1)" by (cases "m w")
  have "r \<noteq> Hang" "r \<noteq> Undef" using assms(1) m unfolding completes_def by (metis fst_conv)+
  with m assms(2) show "fst (bindA m k w) \<noteq> Hang \<and> fst (bindA m k w) \<noteq> Undef"
    by (cases r) (auto simp: completes_def)
qed

lemma completes_Pair [simp]: "completes (Pair (Ret a))"
  by (simp add: completes_def)

lemma completes_pairI:
  "(\<And>v w. fst (m (v, w)) \<noteq> Hang \<and> fst (m (v, w)) \<noteq> Undef) \<Longrightarrow> completes m"
  by (simp add: completes_def)

lemma completes_bind_at:
  assumes "m w = (Ret a, w1)" and "fst (k a w1) \<noteq> Hang \<and> fst (k a w1) \<noteq> Undef"
  shows "fst (bindA m k w) \<noteq> Hang \<and> fst (bindA m k w) \<noteq> Undef"
  using assms by simp

lemma completes_load_flag [intro, simp]: "completes (load_flag c)"
  unfolding completes_def by (metis fst_conv load_flag_returns outcome.distinct(3,5))

lemma completes_on_snd [intro]: "completes m \<Longrightarrow> completes (on_snd m)"
  by (auto simp: completes_def)

lemma completes_call_opt: "(\<And>g. c = Some g \<Longrightarrow> completes (g a)) \<Longrightarrow> completes (call_opt c a)"
  by (cases c) simp_all

section \<open>Calls that are bounded\<close>

text \<open>
  \<open>raises f n m\<close>: whatever its outcome, the call \<open>m\<close> raises the counter \<open>f\<close> of the world by at
  most \<open>n\<close>. With \<open>n = 0\<close> the call does not advance the counter.
\<close>

definition raises :: "('w \<Rightarrow> nat) \<Rightarrow> nat \<Rightarrow> ('w, 'a) act \<Rightarrow> bool" where
  "raises f n m \<longleftrightarrow> (\<forall>w. f (snd (m w)) \<le> f w + n)"

lemma raisesD: "raises f n m \<Longrightarrow> m w = (r, w1) \<Longrightarrow> f w1 \<le> f w + n"
  unfolding raises_def by (metis snd_conv)

lemma raises_mono: "raises f n m \<Longrightarrow> n \<le> n' \<Longrightarrow> raises f n' m"
  unfolding raises_def by (meson add_left_mono le_trans)

lemma raises_ret [intro, simp]: "raises f n (ret a)"
  by (simp add: raises_def)

lemma raises_bindA:
  assumes "raises f a m" and k: "\<And>x. raises f b (k x)" and le: "a + b \<le> n"
  shows "raises f n (bindA m k)"
  unfolding raises_def
proof
  fix w
  obtain r w1 where m: "m w = (r, w1)" by (cases "m w")
  have 1: "f w1 \<le> f w + a" using assms(1) m by (rule raisesD)
  show "f (snd (bindA m k w)) \<le> f w + n"
  proof (cases r)
    case (Ret x)
    have "f (snd (k x w1)) \<le> f w1 + b" using k [of x] by (simp add: raises_def)
    with 1 le have "f (snd (k x w1)) \<le> f w + n" by linarith
    with Ret m show ?thesis by simp
  qed (use 1 le m in auto)
qed

lemma raises_lift_out [intro, simp]: "raises f n (lift_out r)"
  by (simp add: raises_def)

lemma raises_if: "raises f n m \<Longrightarrow> raises f n k \<Longrightarrow> raises f n (if b then m else k)"
  by simp

lemma raises_bind_quiet: "raises f 0 m \<Longrightarrow> (\<And>x. raises f n (k x)) \<Longrightarrow> raises f n (bindA m k)"
  by (rule raises_bindA [where a = 0 and b = n]) simp_all

lemma raises_bind_then_quiet: "raises f n m \<Longrightarrow> (\<And>x. raises f 0 (k x)) \<Longrightarrow> raises f n (bindA m k)"
  by (rule raises_bindA [where a = n and b = 0]) simp_all

lemma raises_try_any: "raises f n m \<Longrightarrow> raises f 0 h \<Longrightarrow> raises f n (try_any m h)"
  unfolding raises_def try_any_def
  by (auto split: prod.splits outcome.splits) (metis add.right_neutral le_trans snd_conv)+

lemma raises_finallyA:
  assumes "raises f n m" and "\<And>w. f (g w) = f w"
  shows "raises f n (finallyA m g)"
  using assms by (auto simp: raises_def finallyA_def split_def)

lemma raises_call_opt: "(\<And>g. c = Some g \<Longrightarrow> raises f n (g a)) \<Longrightarrow> raises f n (call_opt c a)"
  by (cases c) simp_all

lemma raises_Pair [simp]: "raises f n (Pair r)"
  by (simp add: raises_def)

lemma raises_readA [intro, simp]: "raises f n (readA g)"
  by (simp add: raises_def)

lemma raises_on_snd_fst [intro, simp]: "raises (\<lambda>(v, w). f v) n (on_snd m)"
  by (auto simp: raises_def on_snd_def split: prod.splits)

section \<open>Calls within a relation\<close>

text \<open>
  A contract on what a call may do to the world, as a relation between the world before and after it.
  Every sequence of such calls keeps the contract when the relation is a preorder.
\<close>

definition within :: "('w \<Rightarrow> 'w \<Rightarrow> bool) \<Rightarrow> ('w, 'a) act \<Rightarrow> bool" where
  "within R m \<longleftrightarrow> (\<forall>w. R w (snd (m w)))"

lemma withinD: "within R m \<Longrightarrow> m w = (r, w1) \<Longrightarrow> R w w1"
  unfolding within_def by (metis snd_conv)

locale step_relation =
  fixes R :: "'w \<Rightarrow> 'w \<Rightarrow> bool"
  assumes step_refl: "R w w"
    and step_trans: "R w1 w2 \<Longrightarrow> R w2 w3 \<Longrightarrow> R w1 w3"
begin

lemma within_ret [intro, simp]: "within R (ret a)"
  and within_Pair [intro, simp]: "within R (Pair r)"
  and within_readA [intro, simp]: "within R (readA f)"
  and within_lift_out [intro, simp]: "within R (lift_out r)"
  by (simp_all add: within_def step_refl)

lemma within_bindA:
  assumes "within R m" and "\<And>a. within R (k a)"
  shows "within R (bindA m k)"
  unfolding within_def
proof
  fix w
  obtain r w1 where m: "m w = (r, w1)" by (cases "m w")
  with assms(1) have "R w w1" by (rule withinD)
  with m assms(2) show "R w (snd (bindA m k w))"
    by (cases r) (auto simp: within_def intro: step_trans)
qed

lemma within_call_opt: "(\<And>g. c = Some g \<Longrightarrow> within R (g a)) \<Longrightarrow> within R (call_opt c a)"
  by (cases c) simp_all

lemma within_forA: "(\<And>x. within R (f x)) \<Longrightarrow> within R (forA xs f)"
  by (induction xs) (simp_all add: within_bindA)

lemma within_if: "within R m \<Longrightarrow> within R k \<Longrightarrow> within R (if b then m else k)"
  by simp

lemma within_try_std: "within R m \<Longrightarrow> (\<And>s. within R (h s)) \<Longrightarrow> within R (try_std m h)"
  unfolding within_def try_std_def
  by (auto split: prod.splits outcome.splits exn.splits) (metis snd_conv step_trans)+

lemma within_try_any: "within R m \<Longrightarrow> within R h \<Longrightarrow> within R (try_any m h)"
  unfolding within_def try_any_def
  by (auto split: prod.splits outcome.splits) (metis snd_conv step_trans)+

end

text \<open>Calls that leave a part of the world as it is.\<close>

definition same :: "('w \<Rightarrow> 'a) \<Rightarrow> 'w \<Rightarrow> 'w \<Rightarrow> bool" where
  "same f w w' \<longleftrightarrow> f w' = f w"

interpretation same: step_relation "same f" for f
  by unfold_locales (simp_all add: same_def)

abbreviation keeps :: "('w \<Rightarrow> 'a) \<Rightarrow> ('w, 'b) act \<Rightarrow> bool" where
  "keeps f \<equiv> within (same f)"

lemma keepsD: "keeps f m \<Longrightarrow> m w = (r, w1) \<Longrightarrow> f w1 = f w"
  by (drule (1) withinD) (simp add: same_def)

text \<open>Calls that do not raise a counter.\<close>

definition no_more :: "('w \<Rightarrow> nat) \<Rightarrow> 'w \<Rightarrow> 'w \<Rightarrow> bool" where
  "no_more f w w' \<longleftrightarrow> f w' \<le> f w"

interpretation no_more: step_relation "no_more f" for f
  by unfold_locales (auto simp: no_more_def)

lemma raises_0: "raises f 0 m \<longleftrightarrow> within (no_more f) m"
  by (simp add: raises_def within_def no_more_def)

lemma same_no_more: "keeps f m \<Longrightarrow> within (no_more f) m"
  by (simp add: within_def same_def no_more_def)

end
