(* ===== verification/Cpp_Lib.thy ===== *)
theory Cpp_Lib
  imports Prelude
begin

text \<open>
  The parts of the C++ standard library the sources use: \<^verbatim>\<open>std::string\<close> searching and
  testing, \<^verbatim>\<open>std::tolower\<close>, \<^verbatim>\<open>std::to_string\<close>, \<^verbatim>\<open>std::stoi\<close>, and the
  ordered \<^verbatim>\<open>std::map\<close> as a list of entries sorted by key. A string is its bytes.
\<close>

section \<open>Strings\<close>

text \<open>\<^verbatim>\<open>s.find(pat)\<close>: the first position of an occurrence, \<open>None\<close> for \<^verbatim>\<open>npos\<close>.\<close>

fun find_sub :: "'a list \<Rightarrow> 'a list \<Rightarrow> nat option" where
  "find_sub pat [] = (if pat = [] then Some 0 else None)"
| "find_sub pat (c # s) = (if prefix pat (c # s) then Some 0 else map_option Suc (find_sub pat s))"

definition contains_sub :: "'a list \<Rightarrow> 'a list \<Rightarrow> bool" where
  "contains_sub pat s \<longleftrightarrow> find_sub pat s \<noteq> None"

text \<open>\<^verbatim>\<open>s.find_first_not_of(" \t\r\n") == npos\<close>: nothing but blanks.\<close>

definition blank_char :: "char \<Rightarrow> bool" where
  "blank_char c \<longleftrightarrow> c = CHR '' '' \<or> c = CHR 0x09 \<or> c = CHR 0x0D \<or> c = CHR 0x0A"

definition only_blanks :: "string \<Rightarrow> bool" where
  "only_blanks s \<longleftrightarrow> list_all blank_char s"

text \<open>\<^verbatim>\<open>std::tolower\<close> in the \<^verbatim>\<open>"C"\<close> locale.\<close>

definition to_lower_char :: "char \<Rightarrow> char" where
  "to_lower_char c = (let n = (of_char c :: nat) in
     if 65 \<le> n \<and> n \<le> 90 then char_of (n + 32) else c)"

definition to_lower :: "string \<Rightarrow> string" where
  "to_lower s = map to_lower_char s"

text \<open>\<^verbatim>\<open>std::to_string\<close>.\<close>

definition digit_char :: "nat \<Rightarrow> char" where
  "digit_char d = char_of (48 + d)"

fun dec :: "nat \<Rightarrow> string" where
  "dec n = (if n < 10 then [digit_char n] else dec (n div 10) @ [digit_char (n mod 10)])"

declare dec.simps [simp del]

definition dec_int :: "int \<Rightarrow> string" where
  "dec_int i = (if i < 0 then CHR ''-'' # dec (nat (- i)) else dec (nat i))"

text \<open>
  \<^verbatim>\<open>std::stoi\<close>: blanks, an optional sign and at least one digit; what follows the digits is
  ignored. Without a digit it throws \<^verbatim>\<open>std::invalid_argument\<close>, and a value outside the range of
  \<^verbatim>\<open>int\<close> throws \<^verbatim>\<open>std::out_of_range\<close>; both are \<^verbatim>\<open>std::exception\<close>s.
\<close>

definition is_digit_char :: "char \<Rightarrow> bool" where
  "is_digit_char c \<longleftrightarrow> (48::nat) \<le> of_char c \<and> of_char c \<le> (57::nat)"

definition space_char :: "char \<Rightarrow> bool" where
  "space_char c \<longleftrightarrow> c = CHR '' '' \<or> (9::nat) \<le> of_char c \<and> of_char c \<le> (13::nat)"

fun digits_value :: "nat \<Rightarrow> string \<Rightarrow> nat" where
  "digits_value acc [] = acc"
| "digits_value acc (c # s) = digits_value (10 * acc + (of_char c - 48)) s"

definition stoi :: "string \<Rightarrow> exn + int" where
  "stoi s =
     (let t = dropWhile space_char s;
          neg = (t \<noteq> [] \<and> hd t = CHR ''-'');
          u = (if t \<noteq> [] \<and> (hd t = CHR ''-'' \<or> hd t = CHR ''+'') then tl t else t);
          ds = takeWhile is_digit_char u;
          v = (if neg then - int (digits_value 0 ds) else int (digits_value 0 ds))
      in if ds = [] then Inl (Std_exception ''stoi'')
         else if v < - 2147483648 \<or> 2147483647 < v then Inl (Std_exception ''stoi'')
         else Inr v)"

lemma find_sub_Some:
  "find_sub pat s = Some i \<Longrightarrow> \<exists>r. s = take i s @ pat @ r \<and> i + length pat \<le> length s"
proof (induction s arbitrary: i)
  case Nil
  then show ?case by (auto split: if_splits)
next
  case (Cons c s)
  show ?case
  proof (cases "prefix pat (c # s)")
    case True
    with Cons.prems show ?thesis by (auto simp: prefix_def dest: arg_cong [where f = length])
  next
    case False
    with Cons.prems obtain j where "find_sub pat s = Some j" "i = Suc j" by auto
    with Cons.IH [of j] show ?thesis by auto
  qed
qed

lemma find_sub_append: "find_sub pat (a @ pat @ b) \<noteq> None"
proof (induction a)
  case Nil
  show ?case
  proof (cases "pat @ b")
    case (Cons c s)
    then have "prefix pat (c # s)" by (metis prefixI)
    with Cons show ?thesis by simp
  qed auto
next
  case (Cons x a)
  then show ?case by auto
qed

lemma contains_sub_iff: "contains_sub pat s \<longleftrightarrow> (\<exists>a b. s = a @ pat @ b)"
  unfolding contains_sub_def using find_sub_Some find_sub_append by fastforce

text \<open>The first occurrence stays the first one when bytes are appended.\<close>

lemma find_sub_append_Some: "find_sub pat s = Some i \<Longrightarrow> find_sub pat (s @ t) = Some i"
proof (induction s arbitrary: i)
  case Nil
  then show ?case by (cases t) (auto split: if_splits)
next
  case (Cons c s)
  show ?case
  proof (cases "prefix pat (c # s)")
    case True
    then have "prefix pat (c # s @ t)" by (metis append_Cons prefix_prefix)
    with True Cons.prems show ?thesis by simp
  next
    case False
    with Cons.prems obtain j where j: "find_sub pat s = Some j" "i = Suc j" by auto
    have "\<not> prefix pat (c # s @ t)"
    proof
      assume "prefix pat (c # s @ t)"
      moreover have "prefix (c # s) (c # s @ t)" by simp
      ultimately have "prefix pat (c # s) \<or> prefix (c # s) pat" by (rule prefix_same_cases)
      with False have "prefix (c # s) pat" by blast
      then have "length (c # s) \<le> length pat" by (rule prefix_length_le)
      moreover have "j + length pat \<le> length s" using find_sub_Some [OF j(1)] by blast
      ultimately show False by simp
    qed
    with Cons.IH [OF j(1)] j(2) show ?thesis by simp
  qed
qed

lemma find_sub_None_take:
  "find_sub pat s = Some i \<Longrightarrow> pat \<noteq> [] \<Longrightarrow> k < i + length pat \<Longrightarrow> find_sub pat (take k s) = None"
proof (rule ccontr)
  assume i: "find_sub pat s = Some i" "pat \<noteq> []" "k < i + length pat"
    and "find_sub pat (take k s) \<noteq> None"
  then obtain j where j: "find_sub pat (take k s) = Some j" by auto
  then have "find_sub pat (take k s @ drop k s) = Some j" by (rule find_sub_append_Some)
  with i(1) have "j = i" by simp
  with find_sub_Some [OF j] i(3) show False by simp
qed

lemma only_blanks_Nil [simp]: "only_blanks []"
  by (simp add: only_blanks_def)

lemma dec_nonempty [simp]: "dec n \<noteq> []"
  by (subst dec.simps) simp

lemma stoi_range: "stoi s = Inr v \<Longrightarrow> - 2147483648 \<le> v \<and> v \<le> 2147483647"
  by (auto simp: stoi_def Let_def split: if_splits)

lemma stoi_throws_std: "stoi s = Inl e \<Longrightarrow> \<exists>m. e = Std_exception m"
  by (auto simp: stoi_def Let_def split: if_splits)

section \<open>Printing numbers is injective\<close>

definition undec :: "string \<Rightarrow> nat" where
  "undec s = digits_value 0 s"

lemma digits_value_append: "digits_value a (s @ t) = digits_value (digits_value a s) t"
  by (induction s arbitrary: a) auto

lemma of_digit_char: "d < 10 \<Longrightarrow> (of_char (digit_char d) :: nat) = 48 + d"
  by (simp add: digit_char_def)

lemma undec_dec [simp]: "undec (dec n) = n"
  unfolding undec_def
proof (induction n rule: dec.induct)
  case (1 n)
  show ?case
  proof (cases "n < 10")
    case True
    then show ?thesis by (subst dec.simps) (simp add: of_digit_char)
  next
    case False
    with 1 have "digits_value 0 (dec (n div 10)) = n div 10" by simp
    with False show ?thesis
      by (subst dec.simps) (simp add: digits_value_append of_digit_char)
  qed
qed

lemma dec_inject [simp]: "dec a = dec b \<longleftrightarrow> a = b"
  by (metis undec_dec)

section \<open>Ordered maps\<close>

text \<open>
  \<^verbatim>\<open>std::map\<close>: entries in strictly increasing order of their keys. \<open>map_emplace\<close> keeps an
  entry that is there, \<open>map_assign\<close> replaces it (\<^verbatim>\<open>m[k] = v\<close>).
\<close>

fun map_emplace :: "'k::linorder \<Rightarrow> 'v \<Rightarrow> ('k \<times> 'v) list \<Rightarrow> ('k \<times> 'v) list" where
  "map_emplace k v [] = [(k, v)]"
| "map_emplace k v ((a, b) # m) =
     (if k < a then (k, v) # (a, b) # m else if k = a then (a, b) # m else (a, b) # map_emplace k v m)"

fun map_assign :: "'k::linorder \<Rightarrow> 'v \<Rightarrow> ('k \<times> 'v) list \<Rightarrow> ('k \<times> 'v) list" where
  "map_assign k v [] = [(k, v)]"
| "map_assign k v ((a, b) # m) =
     (if k < a then (k, v) # (a, b) # m else if k = a then (k, v) # m else (a, b) # map_assign k v m)"

fun map_erase :: "'k \<Rightarrow> ('k \<times> 'v) list \<Rightarrow> ('k \<times> 'v) list" where
  "map_erase k [] = []"
| "map_erase k ((a, b) # m) = (if k = a then m else (a, b) # map_erase k m)"

definition key_sorted :: "('k::linorder \<times> 'v) list \<Rightarrow> bool" where
  "key_sorted m \<longleftrightarrow> sorted_wrt (<) (map fst m)"

text \<open>The keys of a map, kept folded in the proofs.\<close>

definition map_keys :: "('k \<times> 'v) list \<Rightarrow> 'k set" where
  "map_keys m = fst ` set m"

lemma map_keys_Nil [simp]: "map_keys [] = {}"
  and map_keys_Cons [simp]: "map_keys ((k, v) # m) = insert k (map_keys m)"
  by (simp_all add: map_keys_def)

lemma key_sorted_Nil [simp]: "key_sorted []"
  by (simp add: key_sorted_def)

lemma key_sorted_Cons [simp]:
  "key_sorted ((k, v) # m) \<longleftrightarrow> (\<forall>a \<in> map_keys m. k < a) \<and> key_sorted m"
  by (simp add: key_sorted_def map_keys_def)

lemma keys_map_emplace [simp]: "map_keys (map_emplace k v m) = insert k (map_keys m)"
  by (induction m) (auto split: if_splits)

lemma keys_map_assign [simp]: "map_keys (map_assign k v m) = insert k (map_keys m)"
  by (induction m) (auto split: if_splits)

lemma map_keys_None: "map_of m k = None \<longleftrightarrow> k \<notin> map_keys m"
  by (simp add: map_of_eq_None_iff map_keys_def)

lemma keys_map_erase: "key_sorted m \<Longrightarrow> map_keys (map_erase k m) = map_keys m - {k}"
  by (induction m) (auto split: if_splits)

lemma key_sorted_emplace [simp]: "key_sorted m \<Longrightarrow> key_sorted (map_emplace k v m)"
proof (induction m)
  case (Cons p m)
  obtain a b where p: "p = (a, b)" by (cases p)
  show ?case
  proof (cases k a rule: linorder_cases)
    case less
    with Cons.prems p show ?thesis by (auto dest: order_less_trans)
  next
    case greater
    with Cons p show ?thesis by auto
  qed (use Cons.prems p in auto)
qed simp

lemma key_sorted_assign [simp]: "key_sorted m \<Longrightarrow> key_sorted (map_assign k v m)"
proof (induction m)
  case (Cons p m)
  obtain a b where p: "p = (a, b)" by (cases p)
  show ?case
  proof (cases k a rule: linorder_cases)
    case less
    with Cons.prems p show ?thesis by (auto dest: order_less_trans)
  next
    case greater
    with Cons p show ?thesis by auto
  qed (use Cons.prems p in auto)
qed simp

lemma key_sorted_erase [simp]: "key_sorted m \<Longrightarrow> key_sorted (map_erase k m)"
  by (induction m) (auto simp: keys_map_erase)

lemma key_sorted_less_None: "key_sorted ((a, b) # m) \<Longrightarrow> k \<le> a \<Longrightarrow> map_of m k = None"
  by (auto simp: map_keys_None)

lemma map_of_emplace:
  "key_sorted m \<Longrightarrow>
    map_of (map_emplace k v m) = (if map_of m k = None then (map_of m)(k \<mapsto> v) else map_of m)"
proof (induction m)
  case (Cons p m)
  obtain a b where p: "p = (a, b)" by (cases p)
  show ?case
  proof (cases "k < a")
    case True
    then have "map_of m k = None" using key_sorted_less_None [of a b m k] Cons.prems p by simp
    with True p show ?thesis by (auto simp: fun_eq_iff)
  next
    case False
    with Cons p show ?thesis by (auto simp: fun_eq_iff)
  qed
qed simp

lemma map_of_assign: "key_sorted m \<Longrightarrow> map_of (map_assign k v m) = (map_of m)(k \<mapsto> v)"
  by (induction m) (auto simp: fun_eq_iff)

lemma map_of_erase: "key_sorted m \<Longrightarrow> map_of (map_erase k m) = (map_of m)(k := None)"
  by (induction m) (auto simp: fun_eq_iff map_keys_None keys_map_erase)

lemma key_sorted_distinct: "key_sorted m \<Longrightarrow> distinct (map fst m)"
  unfolding key_sorted_def using strict_sorted_iff by blast

lemma key_sorted_sorted: "key_sorted m \<Longrightarrow> sorted (map fst m)"
  unfolding key_sorted_def using strict_sorted_iff by blast

lemma map_emplace_present: "key_sorted m \<Longrightarrow> map_of m k \<noteq> None \<Longrightarrow> map_emplace k v m = m"
proof (induction m)
  case (Cons p m)
  obtain a b where p: "p = (a, b)" by (cases p)
  have "k \<le> a \<Longrightarrow> map_of m k = None" using key_sorted_less_None [of a b m k] Cons.prems p by simp
  with Cons.prems p have "\<not> k < a" by (force split: if_splits)
  with Cons p show ?case by (auto split: if_splits)
qed simp

lemma map_erase_absent: "map_of m k = None \<Longrightarrow> map_erase k m = m"
  by (induction m) (auto split: if_splits)

lemma length_map_emplace:
  "map_of m k = None \<Longrightarrow> length (map_emplace k v m) = Suc (length m)"
  by (induction m) (auto split: if_splits)

lemma length_map_erase:
  "map_of m k \<noteq> None \<Longrightarrow> Suc (length (map_erase k m)) = length m"
  by (induction m) (auto split: if_splits)

lemma set_map_erase_subset: "set (map_erase k m) \<subseteq> set m"
  by (induction m) (auto split: if_splits)

lemma set_map_emplace_subset: "set (map_emplace k v m) \<subseteq> insert (k, v) (set m)"
  by (induction m) (auto split: if_splits)

end
