(* ===== verification/Gate.thy ===== *)
theory Gate
  imports Cpp_Lib "HOL-Library.Word"
begin

text \<open>
  The gate through which another thread answers a confirmation,
  \<^verbatim>\<open>confirmation/confirmation_gate.hpp\<close>. Every method runs under the mutex of the gate, so a
  method, and each of the two halves of \<^verbatim>\<open>wait\<close> (up to the point where the condition variable
  releases the mutex, and from the point where it holds it again), is one step. The threads that are
  blocked in \<^verbatim>\<open>wait\<close> are part of the system state, with the token each of them emitted. A run of
  the system is any interleaving of these steps.
\<close>

section \<open>The gate\<close>

record gate =
  g_nonce :: string
  g_sequence :: "64 word"
  g_pending :: string
  g_answered :: bool
  g_approved :: bool
  g_cancelled :: bool

definition new_gate :: "string \<Rightarrow> gate" where
  "new_gate nonce = \<lparr>g_nonce = nonce, g_sequence = 0, g_pending = [], g_answered = False,
     g_approved = False, g_cancelled = False\<rparr>"

definition gate_reset :: "gate \<Rightarrow> gate" where
  "gate_reset g = g\<lparr>g_cancelled := False\<rparr>"

definition gate_cancel :: "gate \<Rightarrow> gate" where
  "gate_cancel g = g\<lparr>g_cancelled := True\<rparr>"

definition gate_answer :: "string \<Rightarrow> bool \<Rightarrow> gate \<Rightarrow> bool \<times> gate" where
  "gate_answer tok approved g =
     (if tok = [] \<or> tok \<noteq> g_pending g \<or> g_answered g \<or> g_cancelled g then (False, g)
      else (True, g\<lparr>g_answered := True, g_approved := approved\<rparr>))"

definition gate_token :: "string \<Rightarrow> 64 word \<Rightarrow> string" where
  "gate_token nonce seq = ''change-'' @ nonce @ ''-'' @ dec (unat seq)"

text \<open>
  \<^verbatim>\<open>wait\<close> up to the call of \<^verbatim>\<open>emit\<close>: \<open>None\<close> when the gate is cancelled, else the token it emits.
  The sequence number is 64 bits wide and wraps around.
\<close>

definition wait_enter :: "gate \<Rightarrow> (string \<times> gate) option" where
  "wait_enter g =
     (if g_cancelled g then None
      else
        (let sequence = g_sequence g + 1; token = gate_token (g_nonce g) sequence
         in Some (token, g\<lparr>g_sequence := sequence, g_pending := token, g_answered := False,
              g_approved := False\<rparr>)))"

text \<open>The predicate of \<^verbatim>\<open>wait_for\<close>, and what follows it.\<close>

definition wait_ready :: "gate \<Rightarrow> bool" where
  "wait_ready g \<longleftrightarrow> g_answered g \<or> g_cancelled g"

definition wait_leave :: "gate \<Rightarrow> bool \<times> gate" where
  "wait_leave g = (g_answered g \<and> g_approved g \<and> \<not> g_cancelled g, g\<lparr>g_pending := []\<rparr>)"

section \<open>Threads\<close>

text \<open>
  What a thread can do: enter \<^verbatim>\<open>wait\<close> and block (the token it emitted), enter it with an \<^verbatim>\<open>emit\<close>
  that throws (the exception leaves \<^verbatim>\<open>wait\<close>, the pending token stays), be refused by a cancelled
  gate, leave \<^verbatim>\<open>wait\<close> because the predicate holds, leave it because the time is up, answer
  (with the result of the call), cancel and reset.
\<close>

datatype gate_event =
    Entered nat string
  | Emit_threw nat string
  | Refused nat
  | Woken nat bool
  | Timed_out nat bool
  | Answered string bool bool
  | Cancelled
  | Was_reset

record gate_sys =
  gs_gate :: gate
  gs_waiting :: "nat \<Rightarrow> string option"

inductive gate_step :: "gate_sys \<Rightarrow> gate_event \<Rightarrow> gate_sys \<Rightarrow> bool" where
  enter: "gs_waiting s t = None \<Longrightarrow> wait_enter (gs_gate s) = Some (tok, g) \<Longrightarrow>
    gate_step s (Entered t tok) \<lparr>gs_gate = g, gs_waiting = (gs_waiting s)(t \<mapsto> tok)\<rparr>"
| emit_throws: "gs_waiting s t = None \<Longrightarrow> wait_enter (gs_gate s) = Some (tok, g) \<Longrightarrow>
    gate_step s (Emit_threw t tok) (s\<lparr>gs_gate := g\<rparr>)"
| refuse: "gs_waiting s t = None \<Longrightarrow> wait_enter (gs_gate s) = None \<Longrightarrow>
    gate_step s (Refused t) s"
| wake: "gs_waiting s t \<noteq> None \<Longrightarrow> wait_ready (gs_gate s) \<Longrightarrow> wait_leave (gs_gate s) = (r, g) \<Longrightarrow>
    gate_step s (Woken t r) \<lparr>gs_gate = g, gs_waiting = (gs_waiting s)(t := None)\<rparr>"
| time_out: "gs_waiting s t \<noteq> None \<Longrightarrow> wait_leave (gs_gate s) = (r, g) \<Longrightarrow>
    gate_step s (Timed_out t r) \<lparr>gs_gate = g, gs_waiting = (gs_waiting s)(t := None)\<rparr>"
| answer: "gate_answer tok approved (gs_gate s) = (r, g) \<Longrightarrow>
    gate_step s (Answered tok approved r) (s\<lparr>gs_gate := g\<rparr>)"
| cancel: "gate_step s Cancelled (s\<lparr>gs_gate := gate_cancel (gs_gate s)\<rparr>)"
| reset: "gate_step s Was_reset (s\<lparr>gs_gate := gate_reset (gs_gate s)\<rparr>)"

inductive_cases gate_stepE [elim!]:
  "gate_step s (Entered t tok) s'"
  "gate_step s (Emit_threw t tok) s'"
  "gate_step s (Refused t) s'"
  "gate_step s (Woken t r) s'"
  "gate_step s (Timed_out t r) s'"
  "gate_step s (Answered tok approved r) s'"
  "gate_step s Cancelled s'"
  "gate_step s Was_reset s'"

inductive_simps gate_step_simps:
  "gate_step s (Entered t tok) s'"
  "gate_step s (Emit_threw t tok) s'"
  "gate_step s (Woken t r) s'"
  "gate_step s (Timed_out t r) s'"
  "gate_step s (Answered tok approved r) s'"
  "gate_step s Cancelled s'"
  "gate_step s Was_reset s'"

inductive gate_run :: "gate_sys \<Rightarrow> gate_event list \<Rightarrow> gate_sys \<Rightarrow> bool" where
  none: "gate_run s [] s"
| snoc: "gate_run s es s1 \<Longrightarrow> gate_step s1 e s2 \<Longrightarrow> gate_run s (es @ [e]) s2"

inductive_cases gate_run_snocE: "gate_run s (es @ [e]) s'"

definition idle_gate :: "string \<Rightarrow> gate_sys" where
  "idle_gate nonce = \<lparr>gs_gate = new_gate nonce, gs_waiting = (\<lambda>_. None)\<rparr>"

lemmas gate_defs = wait_enter_def wait_ready_def wait_leave_def gate_answer_def gate_cancel_def
  gate_reset_def Let_def

text \<open>The token a step issues, the answer it accepts, and the approval it lets through.\<close>

fun issued :: "gate_event \<Rightarrow> string option" where
  "issued (Entered t tok) = Some tok"
| "issued (Emit_threw t tok) = Some tok"
| "issued _ = None"

fun accepted :: "gate_event \<Rightarrow> string option" where
  "accepted (Answered tok approved True) = Some tok"
| "accepted _ = None"

fun leaves :: "gate_event \<Rightarrow> (nat \<times> bool) option" where
  "leaves (Woken t r) = Some (t, r)"
| "leaves (Timed_out t r) = Some (t, r)"
| "leaves _ = None"

definition tokens :: "gate_event list \<Rightarrow> string list" where
  "tokens es = List.map_filter issued es"

definition accepted_ids :: "gate_event list \<Rightarrow> string list" where
  "accepted_ids es = List.map_filter accepted es"

lemma tokens_simps [simp]: "tokens [] = []" "tokens (xs @ ys) = tokens xs @ tokens ys"
    "tokens [e] = (case issued e of None \<Rightarrow> [] | Some t \<Rightarrow> [t])"
  by (auto simp: tokens_def List.map_filter_def split: option.splits)

lemma tokens_Cons [simp]: "tokens (e # es) = (case issued e of None \<Rightarrow> [] | Some t \<Rightarrow> [t]) @ tokens es"
  using tokens_simps(2) [of "[e]" es] by (simp del: tokens_simps(2))

lemma accepted_simps [simp]: "accepted_ids [] = []"
    "accepted_ids (xs @ ys) = accepted_ids xs @ accepted_ids ys"
    "accepted_ids [e] = (case accepted e of None \<Rightarrow> [] | Some t \<Rightarrow> [t])"
  by (auto simp: accepted_ids_def List.map_filter_def split: option.splits)

section \<open>Tokens\<close>

lemma gate_token_nonempty [simp]: "gate_token nonce seq \<noteq> []" "[] \<noteq> gate_token nonce seq"
  by (simp_all add: gate_token_def)

lemma gate_token_inject [simp]: "gate_token nonce a = gate_token nonce b \<longleftrightarrow> a = b"
  by (simp add: gate_token_def word_unat_eq_iff)

text \<open>The n-th issued token carries the sequence number n.\<close>

lemma run_tokens:
  assumes "gate_run (idle_gate nonce) es s"
  shows "\<exists>n. tokens es = map (\<lambda>i. gate_token nonce (of_nat (Suc i))) [0..<n] \<and>
    g_nonce (gs_gate s) = nonce \<and> g_sequence (gs_gate s) = of_nat n"
  using assms
proof (induction "idle_gate nonce" es s)
  case none
  then show ?case by (simp add: idle_gate_def new_gate_def)
next
  case (snoc es s1 e s2)
  then obtain n where n: "tokens es = map (\<lambda>i. gate_token nonce (of_nat (Suc i))) [0..<n]"
    "g_nonce (gs_gate s1) = nonce" "g_sequence (gs_gate s1) = of_nat n" by blast
  show ?case
  proof (cases "issued e")
    case None
    with snoc(3) n show ?thesis
      by (intro exI [of _ n]) (cases e; auto simp: gate_defs split: if_splits)
  next
    case (Some tok)
    with snoc(3) n show ?thesis
      by (intro exI [of _ "Suc n"]) (cases e; auto simp: gate_defs add.commute split: if_splits)
  qed
qed

lemma run_tokens_distinct:
  assumes "gate_run (idle_gate nonce) es s" and "length (tokens es) < 2 ^ 64"
  shows "distinct (tokens es)"
proof -
  obtain n where n: "tokens es = map (\<lambda>i. gate_token nonce (of_nat (Suc i))) [0..<n]"
    using run_tokens [OF assms(1)] by blast
  have "inj_on (\<lambda>i. gate_token nonce (of_nat (Suc i))) {0..<n}"
  proof (rule inj_onI)
    fix i j
    assume "i \<in> {0..<n}" "j \<in> {0..<n}"
    then have b: "Suc i < 2 ^ 64" "Suc j < 2 ^ 64" using assms(2) n by auto
    assume "gate_token nonce (of_nat (Suc i)) = gate_token nonce (of_nat (Suc j))"
    then have "unat (of_nat (Suc i) :: 64 word) = unat (of_nat (Suc j) :: 64 word)" by simp
    with b show "i = j" by (simp add: unat_of_nat del: of_nat_Suc)
  qed
  with n show ?thesis by (simp add: distinct_map)
qed

section \<open>Runs\<close>

lemma gate_run_Nil [simp]: "gate_run s [] s' \<longleftrightarrow> s' = s"
  by (auto elim: gate_run.cases intro: gate_run.none)

lemma gate_run_snoc: "gate_run s (es @ [e]) s' \<longleftrightarrow> (\<exists>m. gate_run s es m \<and> gate_step m e s')"
  by (auto elim: gate_run_snocE intro: gate_run.snoc)

lemma gate_run_append: "gate_run s (es @ es') s' \<longleftrightarrow> (\<exists>m. gate_run s es m \<and> gate_run m es' s')"
proof (induction es' arbitrary: s' rule: rev_induct)
  case (snoc e es')
  then show ?case by (auto simp: gate_run_snoc simp flip: append_assoc)
qed simp

lemma gate_run_Cons: "gate_run s (e # es) s' \<longleftrightarrow> (\<exists>m. gate_step s e m \<and> gate_run m es s')"
  using gate_run_append [of s "[e]" es s'] gate_run_snoc [of s "[]" e] by auto

text \<open>The events since the last token was issued.\<close>

definition since :: "gate_event list \<Rightarrow> gate_event list" where
  "since es = rev (takeWhile (\<lambda>e. issued e = None) (rev es))"

lemma tokens_since [simp]: "tokens (since es) = []"
proof -
  have "\<forall>e \<in> set (since es). issued e = None" by (auto simp: since_def dest: set_takeWhileD)
  then show ?thesis by (simp add: tokens_def List.map_filter_def)
qed

lemma since_snoc: "since (es @ [e]) = (if issued e = None then since es @ [e] else [])"
  by (simp add: since_def)

text \<open>The pending token is the last one issued, and an answer stored in the gate was given to it.\<close>

lemma run_answer:
  assumes "gate_run (idle_gate nonce) es s"
  shows "(g_pending (gs_gate s) \<noteq> [] \<longrightarrow> tokens es \<noteq> [] \<and> g_pending (gs_gate s) = last (tokens es)) \<and>
    (g_answered (gs_gate s) \<longrightarrow>
       tokens es \<noteq> [] \<and> Answered (last (tokens es)) (g_approved (gs_gate s)) True \<in> set (since es))"
  using assms
proof (induction "idle_gate nonce" es s)
  case none
  then show ?case by (simp add: idle_gate_def new_gate_def)
next
  case (snoc es s1 e s2)
  then show ?case
    by (cases e) (auto simp: gate_defs since_snoc split: if_splits)
qed

text \<open>
  The discipline under which at most one thread is in \<^verbatim>\<open>wait\<close> at a time: the state is whether one
  is, or \<open>None\<close> once the discipline was broken.
\<close>

fun solo_step :: "bool option \<Rightarrow> gate_event \<Rightarrow> bool option" where
  "solo_step (Some False) (Entered t tok) = Some True"
| "solo_step (Some False) (Emit_threw t tok) = Some False"
| "solo_step (Some True) (Entered t tok) = None"
| "solo_step (Some True) (Emit_threw t tok) = None"
| "solo_step (Some b) (Woken t r) = Some False"
| "solo_step (Some b) (Timed_out t r) = Some False"
| "solo_step b e = b"

definition one_at_a_time :: "gate_event list \<Rightarrow> bool" where
  "one_at_a_time es \<longleftrightarrow> foldl solo_step (Some False) es \<noteq> None"

lemma run_solo:
  assumes "gate_run (idle_gate nonce) es s" and "foldl solo_step (Some False) es = Some b"
  shows "(if b then \<exists>t tok es1. gs_waiting s = [t \<mapsto> tok] \<and> es = es1 @ Entered t tok # since es
    else gs_waiting s = (\<lambda>_. None))"
  using assms
proof (induction "idle_gate nonce" es s arbitrary: b)
  case none
  then show ?case by (simp add: idle_gate_def)
next
  case (snoc es s1 e s2)
  obtain b1 where b1: "foldl solo_step (Some False) es = Some b1"
    using snoc(4) by (cases "foldl solo_step (Some False) es") auto
  note IH = snoc(2) [OF b1]
  show ?case
  proof (cases b1)
    case True
    with IH obtain t tok es1 where w: "gs_waiting s1 = [t \<mapsto> tok]" "es = es1 @ Entered t tok # since es"
      by auto
    show ?thesis
      using snoc(3,4) b1 True w
      by (cases e) (auto simp: since_snoc intro!: exI [of _ t] exI [of _ tok] split: if_splits)
  next
    case False
    with IH snoc(3,4) b1 show ?thesis
      by (cases e) (auto simp: since_snoc fun_eq_iff split: if_splits)
  qed
qed

text \<open>An accepted answer was given to an issued token, and no token gets two.\<close>

lemma run_accepted:
  assumes "gate_run (idle_gate nonce) es s" and "distinct (tokens es)"
  shows "set (accepted_ids es) \<subseteq> set (tokens es) \<and> distinct (accepted_ids es) \<and>
    (g_pending (gs_gate s) \<in> set (accepted_ids es) \<longrightarrow> g_answered (gs_gate s))"
  using assms
proof (induction "idle_gate nonce" es s)
  case none
  then show ?case by simp
next
  case (snoc es s1 e s2)
  have IH: "set (accepted_ids es) \<subseteq> set (tokens es)" "distinct (accepted_ids es)"
    "g_pending (gs_gate s1) \<in> set (accepted_ids es) \<longrightarrow> g_answered (gs_gate s1)"
    using snoc(2,4) by (auto split: option.splits)
  have ne: "[] \<notin> set (accepted_ids es)"
  proof -
    have "[] \<notin> set (tokens es)" using run_tokens [OF snoc(1)] by (auto simp del: of_nat_Suc)
    with IH(1) show ?thesis by blast
  qed
  have last: "g_pending (gs_gate s1) \<noteq> [] \<longrightarrow> g_pending (gs_gate s1) \<in> set (tokens es)"
    using run_answer [OF snoc(1)] by auto
  show ?case
  proof (cases "accepted e")
    case None
    then show ?thesis
      using snoc(3,4) IH ne by (cases e) (auto simp: gate_defs split: if_splits)
  next
    case (Some tok)
    then show ?thesis
      using snoc(3) IH last by (cases e; cases "the (accepted e) = tok")
        (auto simp: gate_defs split: if_splits bool.splits elim!: accepted.elims)
  qed
qed

text \<open>A cancelled gate issues no token, accepts no answer and approves nothing.\<close>

lemma run_cancelled:
  assumes "gate_run s es s'" and "g_cancelled (gs_gate s)" and "Was_reset \<notin> set es"
  shows "g_cancelled (gs_gate s') \<and> tokens es = [] \<and> accepted_ids es = [] \<and>
    (\<forall>e \<in> set es. \<forall>t r. leaves e = Some (t, r) \<longrightarrow> \<not> r)"
  using assms
proof (induction s es s')
  case (snoc s es s1 e s2)
  then have "g_cancelled (gs_gate s1)" "e \<noteq> Was_reset" by auto
  with snoc(2,3) have "g_cancelled (gs_gate s2) \<and> issued e = None \<and> accepted e = None \<and>
      (\<forall>t r. leaves e = Some (t, r) \<longrightarrow> \<not> r)"
    by (cases e) (auto simp: gate_defs split: if_splits)
  with snoc show ?case by auto
qed simp

section \<open>Properties\<close>

text \<open>C14: approval. While at most one thread waits at a time, \<^verbatim>\<open>wait\<close> returns true only when the
  very token it emitted was answered with an approval after it was emitted, by an answer the gate
  accepted; however the threads interleave answers, time-outs, cancellations and resets.\<close>

theorem approval_needs_own_answer:
  assumes "gate_run (idle_gate nonce) (es @ [e]) s" and "leaves e = Some (t, True)"
    and "one_at_a_time es"
  shows "\<exists>tok es1 es2. es = es1 @ Entered t tok # es2 \<and> tokens es2 = [] \<and>
    Answered tok True True \<in> set es2"
proof -
  obtain m where run: "gate_run (idle_gate nonce) es m" and step: "gate_step m e s"
    using assms(1) by (auto simp: gate_run_snoc)
  obtain b where b: "foldl solo_step (Some False) es = Some b"
    using assms(3) by (auto simp: one_at_a_time_def)
  have out: "gs_waiting m t \<noteq> None" "g_answered (gs_gate m)" "g_approved (gs_gate m)"
    using step assms(2) by (cases e; auto simp: gate_defs)+
  with run_solo [OF run b] obtain t' tok es1
    where w: "gs_waiting m = [t' \<mapsto> tok]" and es: "es = es1 @ Entered t' tok # since es" by (auto split: if_splits)
  have "t' = t" using w out(1) by (auto split: if_splits)
  have "last (tokens es) = tok" by (subst es) simp
  with run_answer [OF run] out have "Answered tok True True \<in> set (since es)" by auto
  with es tokens_since \<open>t' = t\<close> show ?thesis by blast
qed

text \<open>Approval with any number of threads. Whenever some \<^verbatim>\<open>wait\<close> returns true, the token
  issued last was answered with an approval after it was issued: no answer outlives the token it
  was given to.\<close>

theorem approval_needs_fresh_answer:
  assumes "gate_run (idle_gate nonce) (es @ [e]) s" and "leaves e = Some (t, True)"
  shows "tokens es \<noteq> [] \<and> Answered (last (tokens es)) True True \<in> set (since es)"
proof -
  obtain m where run: "gate_run (idle_gate nonce) es m" and step: "gate_step m e s"
    using assms(1) by (auto simp: gate_run_snoc)
  have "g_answered (gs_gate m)" "g_approved (gs_gate m)"
    using step assms(2) by (cases e; auto simp: gate_defs)+
  with run_answer [OF run] show ?thesis by simp
qed

text \<open>C40: tokens. Up to the wrap-around of the 64-bit sequence number all issued tokens differ, every
  accepted answer names an issued token, and no token is answered twice.\<close>

theorem tokens_answered_once:
  assumes "gate_run (idle_gate nonce) es s" and "length (tokens es) < 2 ^ 64"
  shows "distinct (tokens es) \<and> set (accepted_ids es) \<subseteq> set (tokens es) \<and> distinct (accepted_ids es)"
  using run_tokens_distinct [OF assms] run_accepted [OF assms(1)] by blast

text \<open>Cancellation. After \<^verbatim>\<open>cancel\<close>, and until \<^verbatim>\<open>reset\<close>, no token is issued, no answer is
  accepted, and every thread that leaves \<^verbatim>\<open>wait\<close> gets false, whatever was answered before.\<close>

theorem cancel_blocks_approval:
  assumes "gate_run s (es1 @ Cancelled # es2) s'" and "Was_reset \<notin> set es2"
  shows "tokens es2 = [] \<and> accepted_ids es2 = [] \<and> (\<forall>t. Woken t True \<notin> set es2 \<and> Timed_out t True \<notin> set es2)"
proof -
  obtain m where "gate_run m es2 s'" "g_cancelled (gs_gate m)"
    using assms(1) by (auto simp: gate_run_append gate_run_Cons gate_defs)
  with run_cancelled [OF _ _ assms(2)] show ?thesis by fastforce
qed

definition tok_of :: "nat \<Rightarrow> string" where
  "tok_of n = gate_token ''7-9'' (of_nat n)"

lemmas gate_run_simps = gate_run_Cons gate_step_simps gate_defs idle_gate_def new_gate_def tok_of_def

theorem approval_needs_own_answer_witness:
  "\<exists>tok es1 es2. [Entered 4 (tok_of 1), Answered (tok_of 1) True True] = es1 @ Entered 4 tok # es2 \<and>
    tokens es2 = [] \<and> Answered tok True True \<in> set es2"
proof -
  have "\<exists>s. gate_run (idle_gate ''7-9'')
      ([Entered 4 (tok_of 1), Answered (tok_of 1) True True] @ [Woken 4 True]) s"
    by (simp add: gate_run_simps)
  then show ?thesis
    by (elim exE) (erule approval_needs_own_answer, simp_all add: one_at_a_time_def)
qed

theorem approval_needs_fresh_answer_witness:
  "Answered (last (tokens [Entered 4 (tok_of 1), Answered (tok_of 1) True True])) True True
     \<in> set (since [Entered 4 (tok_of 1), Answered (tok_of 1) True True])"
proof -
  have "\<exists>s. gate_run (idle_gate ''7-9'')
      ([Entered 4 (tok_of 1), Answered (tok_of 1) True True] @ [Timed_out 4 True]) s"
    by (simp add: gate_run_simps)
  then show ?thesis
    by (elim exE) (drule approval_needs_fresh_answer, simp_all)
qed

theorem tokens_answered_once_witness:
  "tok_of 1 \<noteq> tok_of 2"
proof -
  let ?es = "[Entered 4 (tok_of 1), Timed_out 4 False, Answered (tok_of 1) True False, Entered 4 (tok_of 2)]"
  have "\<exists>s. gate_run (idle_gate ''7-9'') ?es s" by (simp add: gate_run_simps)
  then have "distinct (tokens ?es)"
    by (elim exE) (drule tokens_answered_once, simp_all add: tokens_def List.map_filter_def)
  then show ?thesis by (simp add: tokens_def List.map_filter_def)
qed

theorem cancel_blocks_approval_witness:
  "\<exists>s. gate_run (idle_gate ''7-9'')
      ([Entered 4 (tok_of 1)] @ Cancelled # [Answered (tok_of 1) True False, Woken 4 False]) s \<and>
    accepted_ids [Answered (tok_of 1) True False, Woken 4 False] = []"
proof -
  have "\<exists>s. gate_run (idle_gate ''7-9'') ([Entered 4 (tok_of 1)] @ Cancelled #
      [Answered (tok_of 1) True False, Woken 4 False]) s"
    by (simp add: gate_run_simps)
  then obtain s where s: "gate_run (idle_gate ''7-9'') ([Entered 4 (tok_of 1)] @ Cancelled #
      [Answered (tok_of 1) True False, Woken 4 False]) s" ..
  with cancel_blocks_approval [OF s] show ?thesis by (intro exI [of _ s]) simp
qed

text \<open>Two threads in \<^verbatim>\<open>wait\<close>. The gate has one pending token and one answer for all its waiters:
  a run exists in which the only answer is an approval of the second thread's token and the first
  thread, whose token nobody answered, leaves \<^verbatim>\<open>wait\<close> with true; and one in which the first
  thread's time-out makes the gate reject the answer to the second thread's token.\<close>

theorem concurrent_waits_share_answer:
  "\<exists>a b s s'. a \<noteq> b \<and>
    gate_run (idle_gate nonce) [Entered 1 a, Entered 2 b, Answered b True True, Woken 1 True] s \<and>
    gate_run (idle_gate nonce) [Entered 1 a, Entered 2 b, Timed_out 1 False, Answered b True False] s'"
  by (rule exI [of _ "gate_token nonce 1"], rule exI [of _ "gate_token nonce 2"])
    (simp add: gate_run_simps)

text \<open>A cancellation can be lost. When \<^verbatim>\<open>reset\<close> runs before the waiting thread holds the mutex
  again, the thread stays in \<^verbatim>\<open>wait\<close> although it was notified, and a later approval is let through.\<close>

theorem cancel_then_reset_is_lost:
  "\<exists>a s. gate_run (idle_gate nonce) [Entered 1 a, Cancelled, Was_reset, Answered a True True, Woken 1 True] s"
  by (rule exI [of _ "gate_token nonce 1"]) (simp add: gate_run_simps)

end
