(* ===== verification/Json.thy ===== *)
theory Json
  imports Cpp_Lib
begin

text \<open>
  JSON values and the interface of \<^verbatim>\<open>nlohmann::json\<close>, the third-party library every wire
  format of the repository goes through. The values are data. What the library computes on them
  (parsing, printing, access, conversion) is not code of this repository: it is a record of
  operations that the components take as an argument, and \<open>json_laws\<close> states the documented
  behaviour the components rely on. The texts of the exceptions stay unknown.
\<close>

section \<open>Values\<close>

text \<open>
  An object is a list of its members; the code writes members in the order of its initialiser
  lists. A floating-point number is kept as its spelling.
\<close>

datatype json =
    JNull
  | is_JBool: JBool bool
  | is_JInt: JInt int
  | is_JFloat: JFloat string
  | is_JStr: JStr string
  | is_JArr: JArr (elements: "json list")
  | is_JObj: JObj (members: "(string \<times> json) list")

text \<open>The value an object has for a key.\<close>

fun field :: "json \<Rightarrow> string \<Rightarrow> json option" where
  "field (JObj kvs) k = map_of kvs k"
| "field _ k = None"

fun set_member :: "string \<Rightarrow> json \<Rightarrow> (string \<times> json) list \<Rightarrow> (string \<times> json) list" where
  "set_member k v [] = [(k, v)]"
| "set_member k v ((a, b) # kvs) = (if a = k then (k, v) # kvs else (a, b) # set_member k v kvs)"

lemma map_of_set_member [simp]: "map_of (set_member k v kvs) = (map_of kvs)(k \<mapsto> v)"
  by (induction kvs) auto

lemma field_simps_other [simp]:
  "\<not> is_JObj j \<Longrightarrow> field j k = None"
  by (cases j) auto

lemma field_set_member [simp]:
  "field (JObj (set_member k v kvs)) k' = (if k' = k then Some v else field (JObj kvs) k')"
  by simp

section \<open>The interface of the library\<close>

text \<open>
  \<^item> \<open>j_parse\<close>, \<open>j_dump\<close>: \<^verbatim>\<open>json::parse\<close> and \<^verbatim>\<open>dump()\<close> (which throws on text that is not UTF-8);
  \<^item> \<open>j_find\<close>, \<open>j_contains\<close>, \<open>j_at\<close>, \<open>j_index\<close>: \<^verbatim>\<open>find\<close>, \<^verbatim>\<open>contains\<close>, \<^verbatim>\<open>at(key)\<close>, \<^verbatim>\<open>[i]\<close>;
  \<^item> \<open>j_get_string\<close>: \<^verbatim>\<open>get<std::string>()\<close>;
  \<^item> \<open>j_value_string\<close>, \<open>j_value_uint\<close>, \<open>j_value_json\<close>, \<open>j_value_strings\<close>: \<^verbatim>\<open>value(key, default)\<close> at
    the types the code uses it at (\<^verbatim>\<open>std::string\<close>, \<^verbatim>\<open>unsigned\<close>, \<^verbatim>\<open>json\<close>, \<^verbatim>\<open>std::vector<std::string>\<close>);
  \<^item> \<open>j_iter\<close>: the elements a range-based \<^verbatim>\<open>for\<close> visits;
  \<^item> \<open>j_assign\<close>, \<open>j_erase\<close>: \<^verbatim>\<open>j[key] = v\<close> and \<^verbatim>\<open>j.erase(key)\<close>, as the changed value.
\<close>

record json_lib =
  j_parse :: "string \<Rightarrow> json outcome"
  j_dump :: "json \<Rightarrow> string outcome"
  j_find :: "json \<Rightarrow> string \<Rightarrow> json option"
  j_contains :: "json \<Rightarrow> string \<Rightarrow> bool"
  j_at :: "json \<Rightarrow> string \<Rightarrow> json outcome"
  j_index :: "json \<Rightarrow> nat \<Rightarrow> json outcome"
  j_get_string :: "json \<Rightarrow> string outcome"
  j_value_string :: "json \<Rightarrow> string \<Rightarrow> string \<Rightarrow> string outcome"
  j_value_uint :: "json \<Rightarrow> string \<Rightarrow> nat \<Rightarrow> nat outcome"
  j_value_json :: "json \<Rightarrow> string \<Rightarrow> json \<Rightarrow> json outcome"
  j_value_strings :: "json \<Rightarrow> string \<Rightarrow> string list \<Rightarrow> string list outcome"
  j_iter :: "json \<Rightarrow> json list"
  j_assign :: "json \<Rightarrow> string \<Rightarrow> json \<Rightarrow> json outcome"
  j_erase :: "json \<Rightarrow> string \<Rightarrow> json outcome"

definition std_throw :: "'a outcome \<Rightarrow> bool" where
  "std_throw r \<longleftrightarrow> (\<exists>m. r = Throw (Std_exception m))"

lemma std_throw_simps [simp]:
  "\<not> std_throw (Ret a)" "std_throw (Throw (Std_exception m))"
  "\<not> std_throw (Throw Foreign_exception)" "\<not> std_throw Hang" "\<not> std_throw Undef"
  by (simp_all add: std_throw_def)

text \<open>Returns, or throws a \<^verbatim>\<open>std::exception\<close>: what every operation of the library does.\<close>

definition ret_or_std :: "'a outcome \<Rightarrow> bool" where
  "ret_or_std r \<longleftrightarrow> (\<exists>a. r = Ret a) \<or> std_throw r"

lemma ret_or_std_simps [simp]:
  "ret_or_std (Ret a)" "ret_or_std (Throw (Std_exception m))"
  "\<not> ret_or_std (Throw Foreign_exception)" "\<not> ret_or_std Hang" "\<not> ret_or_std Undef"
  by (simp_all add: ret_or_std_def)

lemma ret_or_stdE:
  assumes "ret_or_std r"
  obtains a where "r = Ret a" | m where "r = Throw (Std_exception m)"
  using assms by (auto simp: ret_or_std_def std_throw_def)

text \<open>The result of a lookup with a default: an absent key gives the default, a present one its conversion.\<close>

definition value_result :: "json \<Rightarrow> string \<Rightarrow> (json \<Rightarrow> 'a option) \<Rightarrow> 'a \<Rightarrow> 'a outcome \<Rightarrow> bool" where
  "value_result j k conv d r \<longleftrightarrow>
     (if is_JObj j then
        (case field j k of None \<Rightarrow> r = Ret d
         | Some v \<Rightarrow> (case conv v of Some x \<Rightarrow> r = Ret x | None \<Rightarrow> std_throw r))
      else std_throw r)"

fun as_string :: "json \<Rightarrow> string option" where
  "as_string (JStr s) = Some s"
| "as_string _ = None"

fun as_strings :: "json list \<Rightarrow> string list option" where
  "as_strings [] = Some []"
| "as_strings (j # js) = (case as_string j of None \<Rightarrow> None | Some s \<Rightarrow> map_option ((#) s) (as_strings js))"

definition as_string_list :: "json \<Rightarrow> string list option" where
  "as_string_list j = (if is_JArr j then as_strings (elements j) else None)"

locale json_laws =
  fixes J :: json_lib
  assumes parse_std: "ret_or_std (j_parse J s)"
    and dump_std: "ret_or_std (j_dump J j)"
    and find_field: "j_find J j k = field j k"
    and contains_field: "j_contains J j k \<longleftrightarrow> field j k \<noteq> None"
    and at_found: "field j k = Some v \<Longrightarrow> j_at J j k = Ret v"
    and at_missing: "field j k = None \<Longrightarrow> std_throw (j_at J j k)"
    and index_array: "i < length xs \<Longrightarrow> j_index J (JArr xs) i = Ret (xs ! i)"
    and get_string_str: "j_get_string J (JStr s) = Ret s"
    and get_string_other: "as_string j = None \<Longrightarrow> std_throw (j_get_string J j)"
    and value_string: "value_result j k as_string d (j_value_string J j k d)"
    and value_uint_std: "ret_or_std (j_value_uint J j k n)"
    and value_uint_missing: "is_JObj j \<Longrightarrow> field j k = None \<Longrightarrow> j_value_uint J j k n = Ret n"
    and value_uint_small: "field j k = Some (JInt (int i)) \<Longrightarrow> i < 2 ^ 32 \<Longrightarrow> j_value_uint J j k n = Ret i"
    and value_uint_range: "n < 2 ^ 32 \<Longrightarrow> j_value_uint J j k n = Ret i \<Longrightarrow> i < 2 ^ 32"
    and value_json: "value_result j k Some d0 (j_value_json J j k d0)"
    and value_strings: "value_result j k as_string_list ds (j_value_strings J j k ds)"
    and iter_array: "j_iter J (JArr xs) = xs"
    and iter_object: "set (j_iter J (JObj kvs)) \<subseteq> snd ` set kvs"
    and iter_null: "j_iter J JNull = []"
    and assign_object: "j_assign J (JObj kvs) k v = Ret (JObj (set_member k v kvs))"
    and assign_std: "ret_or_std (j_assign J j k v)"
    and erase_object: "j_erase J (JObj kvs) k = Ret (JObj (filter (\<lambda>p. fst p \<noteq> k) kvs))"
begin

lemmas json_simps = find_field contains_field index_array get_string_str iter_array iter_null
  assign_object erase_object

lemma at_std: "ret_or_std (j_at J j k)"
  using at_found [of j k] at_missing [of j k] by (cases "field j k") (auto simp: ret_or_std_def)

lemma at_Ret_iff: "j_at J j k = Ret v \<longleftrightarrow> field j k = Some v"
  using at_found [of j k] at_missing [of j k] by (cases "field j k") auto

lemma get_string_std: "ret_or_std (j_get_string J j)"
  using get_string_other [of j] by (cases j) (auto simp: get_string_str ret_or_std_def)

lemma get_string_Ret_iff: "j_get_string J j = Ret s \<longleftrightarrow> j = JStr s"
  using get_string_other [of j] by (cases j) (auto simp: get_string_str)

lemma value_json_std: "ret_or_std (j_value_json J j k d)"
  using value_json [of j k d]
  by (auto simp: value_result_def ret_or_std_def split: if_splits option.splits)

lemma value_string_std: "ret_or_std (j_value_string J j k d)"
  using value_string [of j k d]
  by (auto simp: value_result_def ret_or_std_def split: if_splits option.splits)

lemma value_strings_std: "ret_or_std (j_value_strings J j k d)"
  using value_strings [of j k d]
  by (auto simp: value_result_def ret_or_std_def split: if_splits option.splits)

lemma value_json_obj:
  "is_JObj j \<Longrightarrow> j_value_json J j k d = Ret (case field j k of None \<Rightarrow> d | Some v \<Rightarrow> v)"
  using value_json [of j k d] by (auto simp: value_result_def split: option.splits)

lemma value_string_missing: "is_JObj j \<Longrightarrow> field j k = None \<Longrightarrow> j_value_string J j k d = Ret d"
  using value_string [of j k d] by (auto simp: value_result_def)

lemma value_string_str: "field j k = Some (JStr s) \<Longrightarrow> j_value_string J j k d = Ret s"
  using value_string [of j k d] by (cases j) (auto simp: value_result_def)

lemma value_string_Ret:
  "j_value_string J j k d = Ret s \<Longrightarrow> field j k = Some (JStr s) \<or> field j k = None \<and> s = d"
  using value_string [of j k d]
  by (cases "field j k"; cases "the (field j k)") (auto simp: value_result_def split: if_splits)

end

section \<open>An instance\<close>

text \<open>
  The accessors as the documentation gives them, over a table of the texts that parse and a
  printing function. Properties that take the library as a parameter are applied to it.
\<close>

definition ref_throw :: "'a outcome" where
  "ref_throw = Throw (Std_exception ''json'')"

fun ref_value :: "json \<Rightarrow> string \<Rightarrow> (json \<Rightarrow> 'a option) \<Rightarrow> 'a \<Rightarrow> 'a outcome" where
  "ref_value (JObj kvs) k conv d =
     (case map_of kvs k of None \<Rightarrow> Ret d
      | Some v \<Rightarrow> (case conv v of Some x \<Rightarrow> Ret x | None \<Rightarrow> ref_throw))"
| "ref_value _ k conv d = ref_throw"

fun as_uint :: "json \<Rightarrow> nat option" where
  "as_uint (JInt i) = Some (nat (i mod 2 ^ 32))"
| "as_uint _ = None"

fun ref_iter :: "json \<Rightarrow> json list" where
  "ref_iter (JArr xs) = xs"
| "ref_iter (JObj kvs) = map snd kvs"
| "ref_iter JNull = []"
| "ref_iter j = [j]"

fun ref_index :: "json \<Rightarrow> nat \<Rightarrow> json outcome" where
  "ref_index (JArr xs) i = (if i < length xs then Ret (xs ! i) else Undef)"
| "ref_index _ i = ref_throw"

fun ref_assign :: "json \<Rightarrow> string \<Rightarrow> json \<Rightarrow> json outcome" where
  "ref_assign (JObj kvs) k v = Ret (JObj (set_member k v kvs))"
| "ref_assign JNull k v = Ret (JObj [(k, v)])"
| "ref_assign _ k v = ref_throw"

fun ref_erase :: "json \<Rightarrow> string \<Rightarrow> json outcome" where
  "ref_erase (JObj kvs) k = Ret (JObj (filter (\<lambda>p. fst p \<noteq> k) kvs))"
| "ref_erase _ k = ref_throw"

definition json_ref :: "(string \<times> json) list \<Rightarrow> (json \<Rightarrow> string) \<Rightarrow> json_lib" where
  "json_ref tab pr = \<lparr>
     j_parse = (\<lambda>s. case map_of tab s of Some j \<Rightarrow> Ret j | None \<Rightarrow> ref_throw),
     j_dump = (\<lambda>j. Ret (pr j)),
     j_find = field,
     j_contains = (\<lambda>j k. field j k \<noteq> None),
     j_at = (\<lambda>j k. case field j k of Some v \<Rightarrow> Ret v | None \<Rightarrow> ref_throw),
     j_index = ref_index,
     j_get_string = (\<lambda>j. case as_string j of Some s \<Rightarrow> Ret s | None \<Rightarrow> ref_throw),
     j_value_string = (\<lambda>j k d. ref_value j k as_string d),
     j_value_uint = (\<lambda>j k d. ref_value j k as_uint d),
     j_value_json = (\<lambda>j k d. ref_value j k Some d),
     j_value_strings = (\<lambda>j k d. ref_value j k as_string_list d),
     j_iter = ref_iter,
     j_assign = ref_assign,
     j_erase = ref_erase\<rparr>"

lemma ref_throw_std [simp]: "std_throw ref_throw" "ret_or_std ref_throw" "ref_throw \<noteq> Ret a"
  by (simp_all add: ref_throw_def)

lemma ref_value_result: "value_result j k conv d (ref_value j k conv d)"
  by (cases j) (auto simp: value_result_def split: option.splits)

lemma ref_uint_std: "ret_or_std (ref_value j k conv d)"
  by (cases j) (auto split: option.splits)

lemma ref_value_missing: "is_JObj j \<Longrightarrow> field j k = None \<Longrightarrow> ref_value j k conv d = Ret d"
  by (cases j) auto

lemma ref_uint_small:
  "field j k = Some (JInt (int i)) \<Longrightarrow> i < 2 ^ 32 \<Longrightarrow> ref_value j k as_uint n = Ret i"
  by (cases j) auto

lemma ref_assign_std: "ret_or_std (ref_assign j k v)"
  by (cases j) auto

lemma ref_uint_range: "n < 2 ^ 32 \<Longrightarrow> ref_value j k as_uint n = Ret i \<Longrightarrow> i < 2 ^ 32"
proof (cases j)
  case (JObj kvs)
  assume "n < 2 ^ 32" and "ref_value j k as_uint n = Ret i"
  with JObj show ?thesis
    by (cases "map_of kvs k"; cases "the (map_of kvs k)") (auto simp: nat_less_iff)
qed auto

interpretation json_ref: json_laws "json_ref tab pr" for tab pr
  by unfold_locales
    (auto simp: json_ref_def ref_value_result ref_uint_std ref_throw_def ref_value_missing
      ref_assign_std ref_uint_small [simplified] ref_uint_range [simplified] split: option.splits)

end
