(* ===== verification/Tools.thy ===== *)
theory Tools
  imports Json
begin

text \<open>
  The tool layer: confirmation requests (\<^verbatim>\<open>confirmation/confirmation_request.hpp\<close>), the tool
  interface (\<^verbatim>\<open>tool/tool.hpp\<close>) and the registry that stores and dispatches tools
  (\<^verbatim>\<open>tool/tool_registry.cpp\<close>). A tool is a value whose \<^verbatim>\<open>execute\<close> acts on the world; the
  registry is the ordered map of the source. The contract \<open>catalog\<close> is shared with the registry of
  agent profiles: the first registration of a key wins.
\<close>

section \<open>Confirmation requests\<close>

record confirmation_request =
  cr_name :: string
  cr_arguments :: json
  cr_summary :: string
  cr_changes_state :: bool
  cr_changes_files :: bool
  cr_preview :: json

definition make_confirmation_request ::
    "string \<Rightarrow> json \<Rightarrow> string \<Rightarrow> bool \<Rightarrow> bool \<Rightarrow> json \<Rightarrow> confirmation_request" where
  "make_confirmation_request name_in args_in summary_in changes_state_in changes_files_in preview_in =
     \<lparr>cr_name = name_in, cr_arguments = args_in, cr_summary = summary_in,
      cr_changes_state = changes_state_in,
      cr_changes_files = (changes_files_in \<or> changes_state_in),
      cr_preview = preview_in\<rparr>"

text \<open>\<^verbatim>\<open>ConfirmationFn\<close>: empty, or a call of the host that approves or denies.\<close>

type_synonym 'w confirmation_fn = "(confirmation_request \<Rightarrow> ('w, bool) act) option"

text \<open>\<^verbatim>\<open>IConfirmationHandler\<close>: an object with one call; \<^verbatim>\<open>make_confirmation_fn\<close> forwards to it.\<close>

record 'w confirmation_handler =
  ih_confirm :: "confirmation_request \<Rightarrow> ('w, bool) act"

definition make_confirmation_fn :: "'w confirmation_handler \<Rightarrow> 'w confirmation_fn" where
  "make_confirmation_fn handler = Some (\<lambda>request. ih_confirm handler request)"

section \<open>Tools\<close>

record tool_definition =
  td_name :: string
  td_description :: string
  td_parameter_schema :: json

record 'w tool_context =
  tc_cancel_requested :: "'w flag_ptr"
  tc_confirm :: "'w confirmation_fn"

record tool_result =
  tr_ok :: bool
  tr_result :: json
  tr_error_message :: string

definition tool_success :: "json \<Rightarrow> tool_result" where
  "tool_success output = \<lparr>tr_ok = True, tr_result = output, tr_error_message = []\<rparr>"

definition tool_failure :: "string \<Rightarrow> tool_result" where
  "tool_failure message =
     \<lparr>tr_ok = False, tr_result = JObj [(''error'', JStr message)], tr_error_message = message\<rparr>"

text \<open>\<^verbatim>\<open>ITool\<close>: its definition, whether it asks for confirmation, and its execution.\<close>

record 'w tool =
  t_definition :: tool_definition
  t_requires_confirmation :: "'w \<Rightarrow> bool"
  t_execute :: "json \<Rightarrow> 'w tool_context \<Rightarrow> ('w, tool_result) act"

abbreviation tool_name :: "'w tool \<Rightarrow> string" where
  "tool_name t \<equiv> td_name (t_definition t)"

section \<open>The registry\<close>

type_synonym 'w tool_registry = "(string \<times> 'w tool) list"

definition register_tool :: "'w tool option \<Rightarrow> 'w tool_registry \<Rightarrow> bool \<times> 'w tool_registry" where
  "register_tool tool tools =
     (case tool of
        None \<Rightarrow> (False, tools)
      | Some t \<Rightarrow>
          (let name = tool_name t in
           if name = [] \<or> map_of tools name \<noteq> None then (False, tools)
           else (True, map_emplace name t tools)))"

definition unregister_tool :: "string \<Rightarrow> 'w tool_registry \<Rightarrow> bool \<times> 'w tool_registry" where
  "unregister_tool name tools =
     (if map_of tools name = None then (False, tools) else (True, map_erase name tools))"

definition find_tool :: "'w tool_registry \<Rightarrow> string \<Rightarrow> 'w tool option" where
  "find_tool tools name = map_of tools name"

definition has_tool :: "'w tool_registry \<Rightarrow> string \<Rightarrow> bool" where
  "has_tool tools name \<longleftrightarrow> map_of tools name \<noteq> None"

definition definitions :: "'w tool_registry \<Rightarrow> tool_definition list" where
  "definitions tools = map (\<lambda>(name, tool). t_definition tool) tools"

definition definition_json :: "tool_definition \<Rightarrow> json" where
  "definition_json def = JObj [
     (''name'', JStr (td_name def)),
     (''description'', JStr (td_description def)),
     (''parameters'', td_parameter_schema def)]"

definition definitions_json :: "'w tool_registry \<Rightarrow> json list" where
  "definitions_json tools = map (\<lambda>(name, tool). definition_json (t_definition tool)) tools"

definition execute_tool ::
    "'w tool_registry \<Rightarrow> string \<Rightarrow> json \<Rightarrow> 'w tool_context \<Rightarrow> ('w, tool_result) act" where
  "execute_tool tools name arguments ctxt =
     (case find_tool tools name of
        None \<Rightarrow> ret (tool_failure (''Unknown tool requested: '' @ name))
      | Some tool \<Rightarrow> t_execute tool arguments ctxt)"

definition registry_size :: "'w tool_registry \<Rightarrow> nat" where
  "registry_size tools = length tools"

definition registry_empty :: "'w tool_registry \<Rightarrow> bool" where
  "registry_empty tools \<longleftrightarrow> tools = []"

definition registry_clear :: "'w tool_registry \<Rightarrow> 'w tool_registry" where
  "registry_clear tools = []"

text \<open>
  The invariant of the registry: keys in order, none empty, each the name in the definition of
  the tool stored under it.
\<close>

definition registry_inv :: "'w tool_registry \<Rightarrow> bool" where
  "registry_inv tools \<longleftrightarrow>
     key_sorted tools \<and> (\<forall>(name, tool) \<in> set tools. name \<noteq> [] \<and> tool_name tool = name)"

lemma registry_inv_empty [simp]: "registry_inv []"
  by (simp add: registry_inv_def)

lemma registry_inv_sorted: "registry_inv tools \<Longrightarrow> key_sorted tools"
  by (simp add: registry_inv_def)

lemma registry_inv_find: "registry_inv tools \<Longrightarrow> find_tool tools name = Some t \<Longrightarrow> tool_name t = name \<and> name \<noteq> []"
  unfolding registry_inv_def find_tool_def by (blast dest: map_of_SomeD)

lemma registry_inv_register: "registry_inv tools \<Longrightarrow> registry_inv (snd (register_tool t tools))"
  using set_map_emplace_subset
  by (fastforce simp: registry_inv_def register_tool_def Let_def split: option.splits)

lemma registry_inv_unregister: "registry_inv tools \<Longrightarrow> registry_inv (snd (unregister_tool name tools))"
  using set_map_erase_subset [of name tools]
  by (auto simp: registry_inv_def unregister_tool_def)

lemma list_all_register_tool:
  "list_all P tools \<Longrightarrow> P (tool_name t, t) \<Longrightarrow> list_all P (snd (register_tool (Some t) tools))"
  using set_map_emplace_subset [of "tool_name t" t tools]
  by (auto simp: list_all_iff register_tool_def Let_def)

lemma registry_inv_clear: "registry_inv (registry_clear tools)"
  by (simp add: registry_clear_def)

section \<open>The contract of a catalog\<close>

text \<open>
  A catalog files values under the key they carry. A registration succeeds exactly when the key is
  not empty and free; a rejected one changes nothing.
\<close>

fun register_all :: "('v \<Rightarrow> 'm \<Rightarrow> bool \<times> 'm) \<Rightarrow> 'v list \<Rightarrow> 'm \<Rightarrow> 'm" where
  "register_all reg [] m = m"
| "register_all reg (v # vs) m = register_all reg vs (snd (reg v m))"

locale catalog =
  fixes inv :: "'m \<Rightarrow> bool"
    and lookup :: "'m \<Rightarrow> string \<Rightarrow> 'v option"
    and register :: "'v \<Rightarrow> 'm \<Rightarrow> bool \<times> 'm"
    and key :: "'v \<Rightarrow> string"
  assumes register_accepts: "inv m \<Longrightarrow> fst (register v m) \<longleftrightarrow> key v \<noteq> [] \<and> lookup m (key v) = None"
    and register_stores: "inv m \<Longrightarrow> fst (register v m) \<Longrightarrow> lookup (snd (register v m)) = (lookup m)(key v \<mapsto> v)"
    and register_rejects: "inv m \<Longrightarrow> \<not> fst (register v m) \<Longrightarrow> snd (register v m) = m"
    and register_keeps: "inv m \<Longrightarrow> inv (snd (register v m))"
begin

lemma register_all_keeps: "inv m \<Longrightarrow> inv (register_all register vs m)"
  by (induction vs arbitrary: m) (auto intro: register_keeps)

lemma register_lookup:
  assumes "inv m"
  shows "lookup (snd (register v m)) k =
    (if key v = k \<and> k \<noteq> [] \<and> lookup m k = None then Some v else lookup m k)"
  using register_accepts [OF assms, of v] register_stores [OF assms, of v] register_rejects [OF assms, of v]
  by (cases "fst (register v m)") auto

text \<open>After a list of registrations a free key holds the first value that carries it.\<close>

lemma register_all_lookup:
  assumes "inv m"
  shows "lookup (register_all register vs m) k =
    (case lookup m k of Some v \<Rightarrow> Some v
     | None \<Rightarrow> if k = [] then None else find (\<lambda>v. key v = k) vs)"
  using assms
proof (induction vs arbitrary: m)
  case Nil
  then show ?case by (simp split: option.splits)
next
  case (Cons v vs)
  have inv: "inv (snd (register v m))" using Cons.prems by (rule register_keeps)
  show ?case
    using Cons.IH [OF inv] register_lookup [OF Cons.prems, of v k]
    by (auto split: option.splits)
qed

lemma first_registration_wins:
  assumes "inv m" and "lookup m (key v) = Some u"
  shows "register v m = (False, m)"
proof -
  from assms have "\<not> fst (register v m)" using register_accepts [of m v] by simp
  with register_rejects [OF assms(1) this] show ?thesis by (cases "register v m") auto
qed

end

interpretation tool_catalog: catalog registry_inv find_tool "\<lambda>t. register_tool (Some t)" tool_name
proof
  fix m :: "'a tool_registry" and v :: "'a tool"
  assume inv: "registry_inv m"
  note defs = register_tool_def find_tool_def Let_def
  show "fst (register_tool (Some v) m) \<longleftrightarrow> tool_name v \<noteq> [] \<and> find_tool m (tool_name v) = None"
    by (simp add: defs)
  show "snd (register_tool (Some v) m) = m" if "\<not> fst (register_tool (Some v) m)"
    using that by (auto simp: defs split: if_splits)
  show "find_tool (snd (register_tool (Some v) m)) = (find_tool m)(tool_name v \<mapsto> v)"
    if "fst (register_tool (Some v) m)"
    using that inv by (auto simp: defs fun_eq_iff map_of_emplace registry_inv_sorted)
  show "registry_inv (snd (register_tool (Some v) m))"
    using inv by (rule registry_inv_register)
qed

section \<open>Properties\<close>

text \<open>The names a registry gives to the model are those of its keys, in their order.\<close>

lemma definitions_names: "registry_inv tools \<Longrightarrow> map td_name (definitions tools) = map fst tools"
  by (auto simp: registry_inv_def definitions_def)

lemma find_after_unregister:
  "registry_inv tools \<Longrightarrow>
    find_tool (snd (unregister_tool name tools)) = (find_tool tools)(name := None)"
  by (auto simp: unregister_tool_def find_tool_def fun_eq_iff map_of_erase registry_inv_sorted)

text \<open>Every mutation of a registry, as a value, and the effect of a sequence of them.\<close>

datatype 'w registry_op = Register "'w tool option" | Unregister string | Clear

fun registry_step :: "'w registry_op \<Rightarrow> 'w tool_registry \<Rightarrow> 'w tool_registry" where
  "registry_step (Register t) tools = snd (register_tool t tools)"
| "registry_step (Unregister name) tools = snd (unregister_tool name tools)"
| "registry_step Clear tools = registry_clear tools"

lemma registry_step_inv: "registry_inv tools \<Longrightarrow> registry_inv (registry_step a tools)"
  by (cases a) (simp_all add: registry_inv_register registry_inv_unregister registry_inv_clear)

lemma registry_run_inv: "registry_inv tools \<Longrightarrow> registry_inv (fold registry_step ops tools)"
  by (induction ops arbitrary: tools) (simp_all add: registry_step_inv)

text \<open>Dispatch. In a registry built by registering tools one after the other, a call by name
  runs the first registered tool of that name with the given arguments and context; a name nobody
  registered runs nothing, leaves the world as it is and returns the error for an unknown tool.\<close>

theorem execute_first_registered:
  "execute_tool (register_all (\<lambda>t. register_tool (Some t)) ts []) name arguments ctxt =
     (case (if name = [] then None else find (\<lambda>t. tool_name t = name) ts) of
        Some t \<Rightarrow> t_execute t arguments ctxt
      | None \<Rightarrow> ret (tool_failure (''Unknown tool requested: '' @ name)))"
  unfolding execute_tool_def tool_catalog.register_all_lookup [OF registry_inv_empty]
  by (simp add: find_tool_def)

text \<open>Well-formedness. After any sequence of registrations, removals and clears the registry
  holds at most one tool per name, files every tool under its own non-empty name, and lists the
  definitions for the model in strictly increasing order of their names.\<close>

theorem registry_ops_well_formed:
  "registry_inv (fold registry_step ops []) \<and>
   sorted_wrt (<) (map td_name (definitions (fold registry_step ops [])))"
proof -
  have inv: "registry_inv (fold registry_step ops [])" by (simp add: registry_run_inv)
  then show ?thesis
    using registry_inv_sorted [OF inv] by (simp add: definitions_names key_sorted_def)
qed

text \<open>Removal. Unregistering a name makes exactly that name unknown: it reports whether the
  name was there, later calls of it get the error for an unknown tool, every other name still
  finds its tool, and the name is free for a new registration.\<close>

theorem unregister_removes_exactly:
  assumes "registry_inv tools" and "unregister_tool name tools = (b, tools')"
  shows "b = has_tool tools name \<and>
    find_tool tools' = (find_tool tools)(name := None) \<and>
    registry_size tools = registry_size tools' + (if b then 1 else 0) \<and>
    (\<forall>t. tool_name t = name \<and> name \<noteq> [] \<longrightarrow> fst (register_tool (Some t) tools'))"
proof (intro conjI allI impI)
  show "b = has_tool tools name"
    using assms(2) by (auto simp: unregister_tool_def has_tool_def split: if_splits)
  show find: "find_tool tools' = (find_tool tools)(name := None)"
    using find_after_unregister [OF assms(1), of name] assms(2) by simp
  show "registry_size tools = registry_size tools' + (if b then 1 else 0)"
    using assms(2) length_map_erase [of tools name]
    by (auto simp: unregister_tool_def registry_size_def split: if_splits)
  have "registry_inv tools'" using registry_inv_unregister [OF assms(1), of name] assms(2) by simp
  then show "fst (register_tool (Some t) tools')" if "tool_name t = name \<and> name \<noteq> []" for t
    using tool_catalog.register_accepts [of tools' t] find that by simp
qed

text \<open>
  No operation of the registry reads \<^verbatim>\<open>requires_confirmation\<close>: what it lists and what a call by name
  does are the same for any answer of it. Only the adapter of \<^verbatim>\<open>AgentRuntime\<close> asks.
\<close>

definition confirming :: "('w \<Rightarrow> bool) \<Rightarrow> 'w tool_registry \<Rightarrow> 'w tool_registry" where
  "confirming q = map (\<lambda>(name, tool). (name, tool\<lparr>t_requires_confirmation := q\<rparr>))"

lemma map_of_confirming: "map_of (confirming q reg) name = map_option (t_requires_confirmation_update (\<lambda>_. q)) (map_of reg name)"
  by (induction reg) (auto simp: confirming_def)

lemma confirmation_flag_unread:
  "execute_tool (confirming q reg) = execute_tool reg" "definitions (confirming q reg) = definitions reg"
  "definitions_json (confirming q reg) = definitions_json reg"
proof -
  show "execute_tool (confirming q reg) = execute_tool reg"
    by (auto simp: execute_tool_def find_tool_def map_of_confirming fun_eq_iff split: option.splits)
qed (auto simp: definitions_def definitions_json_def confirming_def)

definition probe_tool :: "string \<Rightarrow> nat tool" where
  "probe_tool name = \<lparr>
     t_definition = \<lparr>td_name = name, td_description = [], td_parameter_schema = JObj []\<rparr>,
     t_requires_confirmation = (\<lambda>_. False),
     t_execute = (\<lambda>_ _ w. (Ret (tool_success (JInt (int w))), Suc w))\<rparr>"

theorem unregister_removes_exactly_witness:
  "find_tool (snd (unregister_tool ''b'' [(''a'', probe_tool ''a''), (''b'', probe_tool ''b'')])) =
     (find_tool [(''a'', probe_tool ''a''), (''b'', probe_tool ''b'')])(''b'' := None)"
proof -
  let ?m = "[(''a'', probe_tool ''a''), (''b'', probe_tool ''b'')]"
  have "registry_inv ?m" by (simp add: registry_inv_def probe_tool_def)
  then show ?thesis
    using unregister_removes_exactly [of ?m "''b''"] by (cases "unregister_tool ''b'' ?m") simp
qed

end
