(* ===== verification/Provider.thy ===== *)
theory Provider
  imports Tools
begin

text \<open>
  The interface between a session and a language model, \<^verbatim>\<open>provider/model_provider.hpp\<close>: the
  values that cross it and the virtual class \<^verbatim>\<open>IModelProvider\<close> as a record of calls that act on
  the world. The state of a provider object (its history, its connection) is part of the world.
\<close>

datatype provider_type = No_provider | Deepseek | Gemini | Openrouter | Custom

fun provider_type_name :: "provider_type \<Rightarrow> string" where
  "provider_type_name Deepseek = ''DeepSeek''"
| "provider_type_name Gemini = ''Gemini''"
| "provider_type_name Openrouter = ''OpenRouter''"
| "provider_type_name Custom = ''Custom''"
| "provider_type_name No_provider = ''none''"

definition provider_type_from_name :: "string \<Rightarrow> provider_type" where
  "provider_type_from_name name =
     (if name = ''gemini'' then Gemini
      else if name = ''deepseek'' then Deepseek
      else if name = ''openrouter'' \<or> name = ''open-router'' \<or> name = ''open_router'' then Openrouter
      else if name = ''custom'' then Custom
      else No_provider)"

record api_result =
  res_ok :: bool
  res_message :: string
  res_models :: "string list"
  res_cancelled :: bool

definition api_success :: "string \<Rightarrow> api_result" where
  "api_success m = \<lparr>res_ok = True, res_message = m, res_models = [], res_cancelled = False\<rparr>"

definition api_failure :: "string \<Rightarrow> api_result" where
  "api_failure m = \<lparr>res_ok = False, res_message = m, res_models = [], res_cancelled = False\<rparr>"

definition api_cancelled :: api_result where
  "api_cancelled = \<lparr>res_ok = False, res_message = ''Request cancelled.'', res_models = [], res_cancelled = True\<rparr>"

record 'w stream_callbacks =
  cb_on_text :: "(string \<Rightarrow> ('w, unit) act) option"
  cb_on_progress :: "(string \<Rightarrow> ('w, unit) act) option"

record tool_call =
  cl_id :: string
  cl_name :: string
  cl_arguments :: json

record tool_response =
  rp_call_id :: string
  rp_name :: string
  rp_result :: json

record model_turn =
  mt_ok :: bool
  mt_text :: string
  mt_tool_calls :: "tool_call list"
  mt_error_message :: string
  mt_cancelled :: bool

definition failed_turn :: "string \<Rightarrow> bool \<Rightarrow> model_turn" where
  "failed_turn m c = \<lparr>mt_ok = False, mt_text = [], mt_tool_calls = [], mt_error_message = m, mt_cancelled = c\<rparr>"

record model_capabilities =
  mc_supports_tools :: bool
  mc_supports_streaming :: bool
  mc_supports_system_instruction :: bool

definition default_capabilities :: model_capabilities where
  "default_capabilities = \<lparr>mc_supports_tools = True, mc_supports_streaming = True,
     mc_supports_system_instruction = True\<rparr>"

text \<open>\<^verbatim>\<open>IModelProvider\<close>: the arguments of a turn are in the order of the source.\<close>

record 'w provider =
  p_type :: provider_type
  p_name :: string
  p_preferred_model :: "string list \<Rightarrow> ('w, string) act"
  p_model_capabilities :: "string \<Rightarrow> ('w, model_capabilities) act"
  p_list_models :: "string \<Rightarrow> 'w flag_ptr \<Rightarrow> ('w, api_result) act"
  p_start_turn :: "string \<Rightarrow> string \<Rightarrow> string \<Rightarrow> string \<Rightarrow> 'w tool_registry \<Rightarrow> 'w stream_callbacks \<Rightarrow>
    'w flag_ptr \<Rightarrow> ('w, model_turn) act"
  p_continue_turn :: "string \<Rightarrow> string \<Rightarrow> string \<Rightarrow> tool_response list \<Rightarrow> 'w tool_registry \<Rightarrow>
    'w stream_callbacks \<Rightarrow> 'w flag_ptr \<Rightarrow> ('w, model_turn) act"
  p_trim_history :: "nat \<Rightarrow> ('w, unit) act"
  p_cancel_active_request :: "('w, unit) act"
  p_reset_session :: "('w, unit) act"
  p_session_entries :: "('w, nat) act"

end
