(* ===== verification/Session.thy ===== *)
theory Session
  imports Provider
begin

text \<open>
  The conversation engine, \<^verbatim>\<open>agent/agent_session.cpp\<close>. The state of a session is the record
  \<open>session\<close> (\<^verbatim>\<open>AgentSession::Impl\<close>); its methods act on the session and on the world, in which
  the provider, the tools and the callbacks live. Methods are serialised by the mutex of the session,
  so each of them is one action; the pointer \<^verbatim>\<open>active_provider_\<close>, which another thread reads
  without the mutex, is a field of the state.
\<close>

section \<open>State\<close>

record agent_config =
  cf_system_instruction :: string
  cf_max_tool_rounds :: int
  cf_max_history_entries :: nat

definition default_config :: agent_config where
  "default_config = \<lparr>cf_system_instruction = [], cf_max_tool_rounds = 12, cf_max_history_entries = 40\<rparr>"

record 'w session =
  se_config :: agent_config
  se_tools :: "'w tool_registry option"
  se_confirm :: "'w confirmation_fn"
  se_provider :: "'w provider option"
  se_api_key :: string
  se_active_model :: string
  se_available_models :: "string list"
  se_active_provider :: "'w provider option"

definition new_session :: "agent_config \<Rightarrow> 'w session" where
  "new_session config = \<lparr>se_config = config, se_tools = None, se_confirm = None, se_provider = None,
     se_api_key = [], se_active_model = [], se_available_models = [], se_active_provider = None\<rparr>"

text \<open>Reading and writing the session.\<close>

definition get_session :: "('w session \<times> 'w, 'w session) act" where
  "get_session = readA fst"

definition update_session :: "('w session \<Rightarrow> 'w session) \<Rightarrow> ('w session \<times> 'w, unit) act" where
  "update_session f = modifyA (\<lambda>(s, w). (f s, w))"

lemma get_session_apply [simp]: "get_session (s, w) = (Ret s, (s, w))"
  and update_session_apply [simp]: "update_session f (s, w) = (Ret (), (f s, w))"
  by (simp_all add: get_session_def update_session_def)

section \<open>The tool loop\<close>

definition int_max :: int where "int_max = 2147483647"

definition call_context :: "'w confirmation_fn \<Rightarrow> 'w flag_ptr \<Rightarrow> 'w tool_context" where
  "call_context confirm cancel = \<lparr>tc_cancel_requested = cancel, tc_confirm = confirm\<rparr>"

definition call_response :: "tool_call \<Rightarrow> tool_result \<Rightarrow> tool_response" where
  "call_response call execution =
     \<lparr>rp_call_id = cl_id call, rp_name = cl_name call, rp_result = tr_result execution\<rparr>"

text \<open>The loop over the calls of a turn: the responses, or \<open>None\<close> when the flag was set before a call.\<close>

fun run_calls ::
    "'w tool_registry \<Rightarrow> 'w confirmation_fn \<Rightarrow> 'w stream_callbacks \<Rightarrow> 'w flag_ptr \<Rightarrow> tool_call list \<Rightarrow>
     tool_response list \<Rightarrow> ('w, tool_response list option) act" where
  "run_calls registry confirm callbacks cancel [] responses = ret (Some responses)"
| "run_calls registry confirm callbacks cancel (call # calls) responses =
     bindA (load_flag cancel) (\<lambda>c.
       if c then ret None
       else
         bindA (call_opt (cb_on_progress callbacks) (''Running project tool: '' @ cl_name call)) (\<lambda>_.
         bindA (execute_tool registry (cl_name call) (cl_arguments call) (call_context confirm cancel)) (\<lambda>execution.
         run_calls registry confirm callbacks cancel calls (responses @ [call_response call execution]))))"

text \<open>What follows each turn of the model: cancellation, then failure, then \<open>k\<close>.\<close>

definition check_turn :: "'w flag_ptr \<Rightarrow> model_turn \<Rightarrow> ('w, api_result) act \<Rightarrow> ('w, api_result) act" where
  "check_turn cancel turn k =
     bindA (load_flag cancel) (\<lambda>c.
       if c then ret api_cancelled
       else if \<not> mt_ok turn then
         ret \<lparr>res_ok = False, res_message = mt_error_message turn, res_models = [], res_cancelled = mt_cancelled turn\<rparr>
       else k)"

text \<open>
  The \<^verbatim>\<open>while\<close> loop over the turns, from \<open>round\<close> completed rounds; \<open>continue_turn\<close> is the call of
  the provider with its fixed arguments. The counter is an \<^verbatim>\<open>int\<close>.
\<close>

function tool_loop ::
    "(tool_response list \<Rightarrow> ('w, model_turn) act) \<Rightarrow> 'w tool_registry \<Rightarrow> 'w confirmation_fn \<Rightarrow>
     'w stream_callbacks \<Rightarrow> 'w flag_ptr \<Rightarrow> int \<Rightarrow> int \<Rightarrow> model_turn \<Rightarrow> ('w, api_result) act" where
  "tool_loop continue_turn registry confirm callbacks cancel max_rounds round turn =
     (if mt_tool_calls turn = [] then ret (api_success (mt_text turn))
      else if round = int_max then lift_out Undef
      else if round + 1 > max_rounds then ret (api_failure ''Stopped after too many tool calls.'')
      else
        bindA (run_calls registry confirm callbacks cancel (mt_tool_calls turn) []) (\<lambda>rs.
          case rs of
            None \<Rightarrow> ret api_cancelled
          | Some responses \<Rightarrow>
              bindA (load_flag cancel) (\<lambda>c.
                if c then ret api_cancelled
                else
                  bindA (continue_turn responses) (\<lambda>turn'.
                    check_turn cancel turn'
                      (tool_loop continue_turn registry confirm callbacks cancel max_rounds (round + 1) turn')))))"
  by pat_completeness auto
termination
  by (relation "measure (\<lambda>(k, registry, confirm, callbacks, cancel, max_rounds, round, turn). nat (max_rounds - round))") auto

declare tool_loop.simps [simp del]

section \<open>Methods\<close>

text \<open>
  \<^verbatim>\<open>prompt\<close>. From the store of \<^verbatim>\<open>active_provider_\<close> on, the destructor of the guard clears the
  pointer on every way out.
\<close>

definition session_registry :: "'w session \<Rightarrow> 'w tool_registry" where
  "session_registry s = (case se_tools s of Some tools \<Rightarrow> tools | None \<Rightarrow> [])"

definition run_prompt ::
    "'w session \<Rightarrow> 'w provider \<Rightarrow> string \<Rightarrow> 'w stream_callbacks \<Rightarrow> 'w flag_ptr \<Rightarrow> ('w, api_result) act" where
  "run_prompt s prov txt callbacks cancel =
     (let registry = session_registry s;
          instruction = cf_system_instruction (se_config s)
      in bindA (p_start_turn prov (se_api_key s) (se_active_model s) instruction txt registry callbacks cancel)
           (\<lambda>turn. check_turn cancel turn
             (tool_loop
               (\<lambda>responses. p_continue_turn prov (se_api_key s) (se_active_model s) instruction responses
                  registry callbacks cancel)
               registry (se_confirm s) callbacks cancel (cf_max_tool_rounds (se_config s)) 0 turn)))"

definition prompt ::
    "string \<Rightarrow> 'w stream_callbacks \<Rightarrow> 'w flag_ptr \<Rightarrow> ('w session \<times> 'w, api_result) act" where
  "prompt txt callbacks cancel =
     bindA get_session (\<lambda>s.
       case se_provider s of
         None \<Rightarrow> ret (api_failure ''Select a provider first.'')
       | Some prov \<Rightarrow>
           if se_api_key s = [] then ret (api_failure ''No API key is set.'')
           else if se_active_model s = [] then ret (api_failure ''No model is selected.'')
           else
             bindA (on_snd (load_flag cancel)) (\<lambda>c.
               if c then ret api_cancelled
               else
                 bindA (on_snd (p_trim_history prov (cf_max_history_entries (se_config s)))) (\<lambda>_.
                 bindA (update_session (\<lambda>s. s\<lparr>se_active_provider := Some prov\<rparr>)) (\<lambda>_.
                 finallyA (on_snd (run_prompt s prov txt callbacks cancel))
                   (\<lambda>(s, w). (s\<lparr>se_active_provider := None\<rparr>, w))))))"

text \<open>
  \<^verbatim>\<open>configure_provider\<close>: the old models are forgotten before the new provider is asked.
\<close>

definition configure_provider ::
    "'w provider option \<Rightarrow> string \<Rightarrow> 'w flag_ptr \<Rightarrow> ('w session \<times> 'w, api_result) act" where
  "configure_provider prov key cancel =
     bindA (update_session (\<lambda>s. s\<lparr>se_provider := prov, se_api_key := key, se_active_model := [],
              se_available_models := []\<rparr>)) (\<lambda>_.
     case prov of
       None \<Rightarrow> ret (api_failure ''Provider cannot be null.'')
     | Some p \<Rightarrow>
         bindA (on_snd (p_list_models p key cancel)) (\<lambda>result.
           if res_ok result then
             bindA (update_session (\<lambda>s. s\<lparr>se_available_models := res_models result\<rparr>)) (\<lambda>_.
             bindA (on_snd (p_preferred_model p (res_models result))) (\<lambda>model.
             bindA (update_session (\<lambda>s. s\<lparr>se_active_model := model\<rparr>)) (\<lambda>_.
             ret result)))
           else ret result))"

text \<open>The overload that takes a provider type; the factory is an argument.\<close>

definition configure_provider_type ::
    "(provider_type \<Rightarrow> ('w, 'w provider option) act) \<Rightarrow> provider_type \<Rightarrow> string \<Rightarrow> 'w flag_ptr \<Rightarrow>
     ('w session \<times> 'w, api_result) act" where
  "configure_provider_type create ty key cancel =
     bindA (on_snd (create ty)) (\<lambda>prov.
       case prov of
         None \<Rightarrow> ret (api_failure ''Select a provider first.'')
       | Some p \<Rightarrow> configure_provider (Some p) key cancel)"

definition set_provider :: "'w provider option \<Rightarrow> string \<Rightarrow> ('w session \<times> 'w, unit) act" where
  "set_provider prov key = update_session (\<lambda>s. s\<lparr>se_provider := prov, se_api_key := key\<rparr>)"

definition set_system_instruction :: "string \<Rightarrow> ('w session \<times> 'w, unit) act" where
  "set_system_instruction instruction =
     update_session (\<lambda>s. s\<lparr>se_config := (se_config s)\<lparr>cf_system_instruction := instruction\<rparr>\<rparr>)"

definition set_tools :: "'w tool_registry option \<Rightarrow> ('w session \<times> 'w, unit) act" where
  "set_tools tools = update_session (\<lambda>s. s\<lparr>se_tools := tools\<rparr>)"

definition set_confirmation_handler :: "'w confirmation_fn \<Rightarrow> ('w session \<times> 'w, unit) act" where
  "set_confirmation_handler confirm = update_session (\<lambda>s. s\<lparr>se_confirm := confirm\<rparr>)"

definition select_model :: "string \<Rightarrow> ('w session \<times> 'w, unit) act" where
  "select_model model = update_session (\<lambda>s. s\<lparr>se_active_model := model\<rparr>)"

text \<open>Calls on the current provider, with what is returned when there is none.\<close>

definition with_provider :: "('w provider \<Rightarrow> ('w, 'a) act) \<Rightarrow> 'a \<Rightarrow> ('w session \<times> 'w, 'a) act" where
  "with_provider f d = bindA get_session (\<lambda>s. case se_provider s of Some p \<Rightarrow> on_snd (f p) | None \<Rightarrow> ret d)"

definition preferred_model :: "('w session \<times> 'w, string) act" where
  "preferred_model = bindA get_session (\<lambda>s. with_provider (\<lambda>p. p_preferred_model p (se_available_models s)) [])"

definition session_capabilities :: "('w session \<times> 'w, model_capabilities) act" where
  "session_capabilities =
     bindA get_session (\<lambda>s. with_provider (\<lambda>p. p_model_capabilities p (se_active_model s)) default_capabilities)"

definition reset_session :: "('w session \<times> 'w, unit) act" where
  "reset_session = with_provider p_reset_session ()"

definition session_entries :: "('w session \<times> 'w, nat) act" where
  "session_entries = with_provider p_session_entries 0"

definition active_provider_type :: "'w session \<Rightarrow> provider_type" where
  "active_provider_type s = (case se_provider s of Some p \<Rightarrow> p_type p | None \<Rightarrow> No_provider)"

text \<open>The provider whose request another thread aborts: the active one, else the current one.\<close>

definition cancel_session_request :: "('w session \<times> 'w, unit) act" where
  "cancel_session_request =
     bindA get_session (\<lambda>s.
       case se_active_provider s of
         Some p \<Rightarrow> on_snd (p_cancel_active_request p)
       | None \<Rightarrow> with_provider p_cancel_active_request ())"

text \<open>A session that is a local variable of the code that uses it.\<close>

definition local_session :: "agent_config \<Rightarrow> ('w session \<times> 'w, 'a) act \<Rightarrow> ('w, 'a) act" where
  "local_session config m = (\<lambda>w. case m (new_session config, w) of (r, _, w1) \<Rightarrow> (r, w1))"

text \<open>\<^verbatim>\<open>IModelProvider::submit_prompt\<close>: one prompt in a session of its own.\<close>

definition submit_prompt ::
    "'w provider \<Rightarrow> string \<Rightarrow> string \<Rightarrow> string \<Rightarrow> string \<Rightarrow> 'w tool_registry \<Rightarrow> 'w confirmation_fn \<Rightarrow>
     'w stream_callbacks \<Rightarrow> 'w flag_ptr \<Rightarrow> ('w, api_result) act" where
  "submit_prompt prov key model instruction txt tools confirm callbacks cancel =
     local_session (default_config\<lparr>cf_system_instruction := instruction\<rparr>)
       (bindA (set_provider (Some prov) key) (\<lambda>_.
        bindA (select_model model) (\<lambda>_.
        bindA (set_tools (Some tools)) (\<lambda>_.
        bindA (set_confirmation_handler confirm) (\<lambda>_.
        prompt txt callbacks cancel)))))"

section \<open>A prompt as an action on the world\<close>

text \<open>The session is ready for a prompt: it has a provider, a key and a model, and no prompt runs.\<close>

definition prompt_ready :: "'w session \<Rightarrow> 'w provider \<Rightarrow> bool" where
  "prompt_ready s prov \<longleftrightarrow> se_provider s = Some prov \<and> se_api_key s \<noteq> [] \<and> se_active_model s \<noteq> [] \<and>
     se_active_provider s = None"

definition world_prompt ::
    "'w session \<Rightarrow> 'w provider \<Rightarrow> string \<Rightarrow> 'w stream_callbacks \<Rightarrow> 'w flag_ptr \<Rightarrow> ('w, api_result) act" where
  "world_prompt s prov txt callbacks cancel =
     bindA (load_flag cancel) (\<lambda>c.
       if c then ret api_cancelled
       else bindA (p_trim_history prov (cf_max_history_entries (se_config s))) (\<lambda>_.
         run_prompt s prov txt callbacks cancel))"

lemma prompt_on_world:
  assumes "prompt_ready s prov"
  shows "prompt txt callbacks cancel (s, w) = on_snd (world_prompt s prov txt callbacks cancel) (s, w)"
proof -
  have s: "s\<lparr>se_active_provider := None\<rparr> = s" using assms by (simp add: prompt_ready_def)
  show ?thesis
    using assms s
    by (auto simp: prompt_def world_prompt_def bindA_def prompt_ready_def get_session_def update_session_def
        finallyA_def split: prod.splits outcome.splits)
qed

subsection \<open>Local sessions\<close>

text \<open>
  \<open>lifts s M m\<close>: from the session state \<open>s\<close> the action \<open>M\<close> does what \<open>m\<close> does on the world and
  leaves the session as it is; \<open>yields s M m\<close> leaves the final session open.
\<close>

definition lifts :: "'w session \<Rightarrow> ('w session \<times> 'w, 'a) act \<Rightarrow> ('w, 'a) act \<Rightarrow> bool" where
  "lifts s M m \<longleftrightarrow> (\<forall>w. M (s, w) = on_snd m (s, w))"

definition yields :: "'w session \<Rightarrow> ('w session \<times> 'w, 'a) act \<Rightarrow> ('w, 'a) act \<Rightarrow> bool" where
  "yields s M m \<longleftrightarrow> (\<forall>w. fst (M (s, w)) = fst (m w) \<and> snd (snd (M (s, w))) = snd (m w))"

lemma lifts_on_snd [intro]: "lifts s (on_snd m) m"
  and lifts_ret [intro]: "lifts s (ret a) (ret a)"
  and lifts_yields: "lifts s M m \<Longrightarrow> yields s M m"
  by (simp_all add: lifts_def yields_def)

lemma lifts_bindA: "lifts s M m \<Longrightarrow> (\<And>a. lifts s (K a) (k a)) \<Longrightarrow> lifts s (bindA M K) (bindA m k)"
  unfolding lifts_def by (auto simp: bindA_def split: prod.splits outcome.splits)

lemma yields_bindA: "lifts s M m \<Longrightarrow> (\<And>a. yields s (K a) (k a)) \<Longrightarrow> yields s (bindA M K) (bindA m k)"
  unfolding lifts_def yields_def by (auto simp: bindA_def split: prod.splits outcome.splits)

lemma yields_if: "yields s M m \<Longrightarrow> yields s N n \<Longrightarrow> yields s (if b then M else N) (if b then m else n)"
  and lifts_if: "lifts s M m \<Longrightarrow> lifts s N n \<Longrightarrow> lifts s (if b then M else N) (if b then m else n)"
  by simp_all

lemma yields_update: "yields (f s) (K ()) k \<Longrightarrow> yields s (bindA (update_session f) K) k"
  unfolding yields_def by (simp add: bindA_def update_session_def)

lemma lifts_with_provider: "se_provider s = Some p \<Longrightarrow> lifts s (with_provider f d) (f p)"
  unfolding lifts_def with_provider_def by (simp add: bindA_def get_session_def)

lemma lifts_prompt:
  "prompt_ready s prov \<Longrightarrow> lifts s (prompt txt callbacks cancel) (world_prompt s prov txt callbacks cancel)"
  by (simp add: lifts_def prompt_on_world)

lemma local_session_yields: "yields (new_session config) M m \<Longrightarrow> local_session config M = m"
  unfolding yields_def local_session_def by (auto simp: fun_eq_iff prod_eq_iff split: prod.splits)

text \<open>Induction on the rounds that are left.\<close>

lemma round_induct:
  assumes "\<And>round. (\<And>r. round < r \<Longrightarrow> r \<le> m \<Longrightarrow> P r) \<Longrightarrow> P round"
  shows "P (round :: int)"
proof (induction "nat (m - round)" arbitrary: round rule: less_induct)
  case less
  show ?case
  proof (rule assms)
    fix r
    assume "round < r" "r \<le> m"
    then have "nat (m - r) < nat (m - round)" by simp
    then show "P r" by (rule less)
  qed
qed

subsection \<open>Contracts\<close>

text \<open>A contract that everything a prompt calls keeps is kept by the prompt.\<close>

definition tools_within ::
    "('w \<Rightarrow> 'w \<Rightarrow> bool) \<Rightarrow> 'w tool_registry \<Rightarrow> 'w confirmation_fn \<Rightarrow> 'w stream_callbacks \<Rightarrow> 'w flag_ptr \<Rightarrow> bool" where
  "tools_within R registry confirm callbacks cancel \<longleftrightarrow>
     within R (load_flag cancel) \<and>
     (\<forall>g m. cb_on_progress callbacks = Some g \<longrightarrow> within R (g m)) \<and>
     (\<forall>name args. within R (execute_tool registry name args (call_context confirm cancel)))"

context step_relation
begin

lemma within_run_calls:
  assumes "tools_within R registry confirm callbacks cancel"
  shows "within R (run_calls registry confirm callbacks cancel calls rs)"
proof (induction calls arbitrary: rs)
  case (Cons call calls)
  have "within R (call_opt (cb_on_progress callbacks) m)" for m
    using assms by (intro within_call_opt) (auto simp: tools_within_def)
  with Cons assms show ?case by (auto simp: tools_within_def intro!: within_bindA)
qed simp

lemma within_check_turn: "within R (load_flag cancel) \<Longrightarrow> within R k \<Longrightarrow> within R (check_turn cancel turn k)"
  unfolding check_turn_def by (auto intro!: within_bindA)

lemma within_tool_loop:
  assumes "tools_within R registry confirm callbacks cancel" and "\<And>rs. within R (continue_turn rs)"
  shows "within R (tool_loop continue_turn registry confirm callbacks cancel m round turn)"
proof (induction round arbitrary: turn rule: round_induct [where m = m])
  case (1 round)
  have load: "within R (load_flag cancel)" using assms(1) by (simp add: tools_within_def)
  have "within R (bindA (continue_turn rs) (\<lambda>t. check_turn cancel t
      (tool_loop continue_turn registry confirm callbacks cancel m (round + 1) t)))" if "round + 1 \<le> m" for rs
    using 1 that load by (intro within_bindA [OF assms(2)] within_check_turn) auto
  with within_run_calls [OF assms(1)] load show ?case
    by (subst tool_loop.simps) (auto intro!: within_bindA split: option.splits)
qed

lemma within_world_prompt:
  assumes tools: "tools_within R (session_registry s) (se_confirm s) callbacks cancel"
    and "\<And>n. within R (p_trim_history prov n)"
    and "\<And>k m i. within R (p_start_turn prov k m i txt (session_registry s) callbacks cancel)"
    and "\<And>k m i rs. within R (p_continue_turn prov k m i rs (session_registry s) callbacks cancel)"
  shows "within R (world_prompt s prov txt callbacks cancel)"
proof -
  have load: "within R (load_flag cancel)" using tools by (simp add: tools_within_def)
  have "within R (run_prompt s prov txt callbacks cancel)"
    unfolding run_prompt_def Let_def
    by (intro within_bindA assms(3) within_check_turn load within_tool_loop [OF tools assms(4)])
  then show ?thesis
    unfolding world_prompt_def by (auto intro!: within_bindA load assms(2))
qed

end

subsection \<open>What a prompt reads of the registry\<close>

text \<open>
  A prompt runs tools by name and hands the registry to the provider: two registries that run alike and
  look alike to the provider give the same prompt.
\<close>

lemma run_calls_cong:
  assumes "\<And>name args. execute_tool reg name args (call_context confirm cancel) =
      execute_tool reg' name args (call_context confirm cancel)"
  shows "run_calls reg confirm callbacks cancel calls rs = run_calls reg' confirm callbacks cancel calls rs"
  by (induction calls arbitrary: rs) (simp_all add: assms cong: if_cong)

lemma tool_loop_cong:
  assumes "\<And>name args. execute_tool reg name args (call_context confirm cancel) =
      execute_tool reg' name args (call_context confirm cancel)"
  shows "tool_loop k reg confirm callbacks cancel m round turn = tool_loop k reg' confirm callbacks cancel m round turn"
proof (induction round arbitrary: turn rule: round_induct [where m = m])
  case (1 round)
  have "round + 1 \<le> m \<Longrightarrow> tool_loop k reg confirm callbacks cancel m (round + 1) t =
      tool_loop k reg' confirm callbacks cancel m (round + 1) t" for t
    using 1 by simp
  then show ?case
    unfolding tool_loop.simps [of k reg confirm callbacks cancel m round turn]
      tool_loop.simps [of k reg' confirm callbacks cancel m round turn] run_calls_cong [OF assms]
    by (simp cong: if_cong option.case_cong)
qed

lemma world_prompt_cong:
  assumes "\<And>name args. execute_tool (session_registry s) name args (call_context (se_confirm s) cancel) =
      execute_tool (session_registry s') name args (call_context (se_confirm s) cancel)"
    and "\<And>k m i. p_start_turn prov k m i txt (session_registry s) callbacks cancel =
      p_start_turn prov k m i txt (session_registry s') callbacks cancel"
    and "\<And>k m i rs. p_continue_turn prov k m i rs (session_registry s) callbacks cancel =
      p_continue_turn prov k m i rs (session_registry s') callbacks cancel"
    and "se_config s' = se_config s" "se_api_key s' = se_api_key s" "se_active_model s' = se_active_model s"
      "se_confirm s' = se_confirm s"
  shows "world_prompt s prov txt callbacks cancel = world_prompt s' prov txt callbacks cancel"
  unfolding world_prompt_def run_prompt_def Let_def assms(2-7) tool_loop_cong [OF assms(1)] by (rule refl)

subsection \<open>Bounds\<close>

text \<open>
  A counter that the turns of the model raise by at most \<open>n\<close> each, and nothing else the prompt calls raises.
\<close>

lemma raises_check_turn:
  assumes "tools_within (no_more f) registry confirm callbacks cancel" and "raises f n k"
  shows "raises f n (check_turn cancel turn k)"
  unfolding check_turn_def
  by (rule raises_bindA [where a = 0 and b = n]) (use assms in \<open>auto simp: tools_within_def raises_0\<close>)

lemma raises_tool_loop:
  assumes quiet: "tools_within (no_more f) registry confirm callbacks cancel"
    and turn: "\<And>rs. raises f n (continue_turn rs)"
  shows "raises f (n * nat (m - round)) (tool_loop continue_turn registry confirm callbacks cancel m round turn)"
proof (induction round arbitrary: turn rule: round_induct [where m = m])
  case (1 round)
  have calls: "raises f 0 (run_calls registry confirm callbacks cancel (mt_tool_calls turn) [])"
    using no_more.within_run_calls [OF quiet] by (simp add: raises_0)
  have load: "raises f 0 (load_flag cancel)" using quiet by (simp add: tools_within_def raises_0)
  show ?case
  proof (cases "round + 1 > m")
    case True
    then show ?thesis by (subst tool_loop.simps) (simp add: lift_out_def)
  next
    case False
    then have "nat (m - round) = Suc (nat (m - (round + 1)))" by simp
    then have le: "n + n * nat (m - (round + 1)) \<le> n * nat (m - round)" by simp
    have step: "raises f (n * nat (m - (round + 1))) (check_turn cancel t
        (tool_loop continue_turn registry confirm callbacks cancel m (round + 1) t))" for t
      using quiet 1 [of "round + 1" t] False by (intro raises_check_turn) auto
    have "raises f (n * nat (m - round)) (bindA (continue_turn rs) (\<lambda>t. check_turn cancel t
        (tool_loop continue_turn registry confirm callbacks cancel m (round + 1) t)))" for rs
      using turn step le by (rule raises_bindA)
    with calls load show ?thesis
      by (subst tool_loop.simps)
        (auto simp: lift_out_def intro!: raises_bindA [where a = 0 and b = "n * nat (m - round)"] split: option.splits)
  qed
qed

lemma raises_world_prompt:
  assumes "tools_within (no_more f) (session_registry s) (se_confirm s) callbacks cancel"
    and "\<And>n. raises f 0 (p_trim_history prov n)"
    and "\<And>k m i. raises f n (p_start_turn prov k m i txt (session_registry s) callbacks cancel)"
    and "\<And>k m i rs. raises f n (p_continue_turn prov k m i rs (session_registry s) callbacks cancel)"
  shows "raises f (n * (1 + nat (cf_max_tool_rounds (se_config s)))) (world_prompt s prov txt callbacks cancel)"
proof -
  let ?n = "nat (cf_max_tool_rounds (se_config s))"
  have loop: "raises f (n * ?n) (check_turn cancel turn (tool_loop
      (\<lambda>rs. p_continue_turn prov k m i rs (session_registry s) callbacks cancel)
      (session_registry s) (se_confirm s) callbacks cancel (cf_max_tool_rounds (se_config s)) 0 turn))" for turn k m i
    by (rule raises_check_turn [OF assms(1)])
      (use raises_tool_loop [OF assms(1,4), of _ 0] in simp)
  have run: "raises f (n * (1 + ?n)) (run_prompt s prov txt callbacks cancel)"
    unfolding run_prompt_def Let_def by (rule raises_bindA [OF assms(3) loop]) simp
  have load: "raises f 0 (load_flag cancel)" using assms(1) by (simp add: tools_within_def raises_0)
  show ?thesis
    unfolding world_prompt_def
    by (intro raises_bind_quiet [OF load] raises_bind_quiet [OF assms(2)] raises_if raises_ret run)
qed

subsection \<open>Completion\<close>

definition completing_tools ::
    "'w tool_registry \<Rightarrow> 'w confirmation_fn \<Rightarrow> 'w stream_callbacks \<Rightarrow> 'w flag_ptr \<Rightarrow> bool" where
  "completing_tools registry confirm callbacks cancel \<longleftrightarrow>
     (\<forall>g m. cb_on_progress callbacks = Some g \<longrightarrow> completes (g m)) \<and>
     (\<forall>name args. completes (execute_tool registry name args (call_context confirm cancel)))"

lemma completes_run_calls:
  assumes "completing_tools registry confirm callbacks cancel"
  shows "completes (run_calls registry confirm callbacks cancel calls rs)"
proof (induction calls arbitrary: rs)
  case (Cons call calls)
  have "completes (call_opt (cb_on_progress callbacks) m)" for m
    using assms by (intro completes_call_opt) (auto simp: completing_tools_def)
  with Cons assms show ?case by (auto simp: completing_tools_def intro!: completes_bindA)
qed simp

lemma completes_check_turn: "completes k \<Longrightarrow> completes (check_turn cancel turn k)"
  unfolding check_turn_def by (auto intro!: completes_bindA)

lemma completes_tool_loop:
  assumes "completing_tools registry confirm callbacks cancel" and "\<And>rs. completes (continue_turn rs)"
    and "m < int_max" and "round < int_max"
  shows "completes (tool_loop continue_turn registry confirm callbacks cancel m round turn)"
  using assms(4)
proof (induction round arbitrary: turn rule: round_induct [where m = m])
  case (1 round)
  have step: "completes (check_turn cancel t
      (tool_loop continue_turn registry confirm callbacks cancel m (round + 1) t))" if "round + 1 \<le> m" for t
    using 1 that assms(3) by (intro completes_check_turn) auto
  have "completes (bindA (continue_turn rs) (\<lambda>t. check_turn cancel t
      (tool_loop continue_turn registry confirm callbacks cancel m (round + 1) t)))" if "round + 1 \<le> m" for rs
    using assms(2) step [OF that] by (rule completes_bindA)
  with completes_run_calls [OF assms(1)] 1(2) show ?case
    by (subst tool_loop.simps) (auto intro!: completes_bindA split: option.splits)
qed

subsection \<open>The loop without cancellation\<close>

text \<open>
  The conversation as it is meant: run the calls of the turn in order, send all their results, take
  the next turn; \<open>n\<close> rounds are left.
\<close>

definition answer_call ::
    "'w tool_registry \<Rightarrow> 'w tool_context \<Rightarrow> tool_call \<Rightarrow> ('w, tool_response) act" where
  "answer_call registry ctxt call =
     bindA (execute_tool registry (cl_name call) (cl_arguments call) ctxt) (\<lambda>e. ret (call_response call e))"

fun mapA :: "('a \<Rightarrow> ('w, 'b) act) \<Rightarrow> 'a list \<Rightarrow> ('w, 'b list) act" where
  "mapA f [] = ret []"
| "mapA f (x # xs) = bindA (f x) (\<lambda>y. bindA (mapA f xs) (\<lambda>ys. ret (y # ys)))"

fun converse ::
    "(tool_response list \<Rightarrow> ('w, model_turn) act) \<Rightarrow> (tool_call \<Rightarrow> ('w, tool_response) act) \<Rightarrow> nat \<Rightarrow>
     model_turn \<Rightarrow> ('w, api_result) act" where
  "converse continue_turn answer n turn =
     (if \<not> mt_ok turn then
        ret \<lparr>res_ok = False, res_message = mt_error_message turn, res_models = [], res_cancelled = mt_cancelled turn\<rparr>
      else if mt_tool_calls turn = [] then ret (api_success (mt_text turn))
      else case n of
        0 \<Rightarrow> ret (api_failure ''Stopped after too many tool calls.'')
      | Suc n' \<Rightarrow> bindA (mapA answer (mt_tool_calls turn)) (\<lambda>rs.
          bindA (continue_turn rs) (converse continue_turn answer n')))"

declare converse.simps [simp del]

lemma run_calls_mapA:
  assumes "never_set cancel" and "cb_on_progress callbacks = None"
  shows "run_calls registry confirm callbacks cancel calls rs =
    bindA (mapA (answer_call registry (call_context confirm cancel)) calls) (\<lambda>rs'. ret (Some (rs @ rs')))"
proof (induction calls arbitrary: rs)
  case (Cons call calls)
  show ?case
    by (simp add: bindA_load [OF assms(1)] assms(2) Cons answer_call_def bindA_assoc)
qed (simp add: fun_eq_iff)

lemma check_turn_never_set:
  "never_set cancel \<Longrightarrow> check_turn cancel turn k = (if \<not> mt_ok turn then
     ret \<lparr>res_ok = False, res_message = mt_error_message turn, res_models = [], res_cancelled = mt_cancelled turn\<rparr>
     else k)"
  by (simp add: check_turn_def bindA_load)

lemma tool_loop_converse:
  assumes "never_set cancel" and "cb_on_progress callbacks = None" and "m < int_max" and "round < int_max"
  shows "check_turn cancel turn (tool_loop continue_turn registry confirm callbacks cancel m round turn) =
    converse continue_turn (answer_call registry (call_context confirm cancel)) (nat (m - round)) turn"
  using assms(4)
proof (induction round arbitrary: turn rule: round_induct [where m = m])
  case (1 round)
  show ?case
  proof (cases "round + 1 > m")
    case True
    with 1(2) show ?thesis
      by (subst tool_loop.simps, subst converse.simps) (simp add: check_turn_never_set [OF assms(1)])
  next
    case False
    then have n: "nat (m - round) = Suc (nat (m - (round + 1)))" by simp
    have next_turn: "(\<lambda>t. check_turn cancel t
        (tool_loop continue_turn registry confirm callbacks cancel m (round + 1) t)) =
      converse continue_turn (answer_call registry (call_context confirm cancel)) (nat (m - (round + 1)))"
      using 1 False assms(3) by (intro ext) auto
    have "round \<noteq> int_max" using 1(2) by simp
    then show ?thesis
      using False unfolding n
      by (subst tool_loop.simps, subst converse.simps)
        (simp add: check_turn_never_set [OF assms(1)] next_turn [unfolded check_turn_never_set [OF assms(1)]]
          run_calls_mapA [OF assms(1,2)] bindA_assoc bindA_load [OF assms(1)])
  qed
qed

subsection \<open>Answers and requests\<close>

text \<open>
  A provider whose next turn is undefined when a condition on the world and on the responses fails: a
  prompt that runs the same with it and without it meets the condition at every turn.
\<close>

definition guard_continue ::
    "(tool_response list \<Rightarrow> 'w \<Rightarrow> bool) \<Rightarrow> 'w provider \<Rightarrow> 'w provider" where
  "guard_continue ok prov = prov\<lparr>p_continue_turn := (\<lambda>key model instruction rs registry callbacks cancel w.
     if ok rs w then p_continue_turn prov key model instruction rs registry callbacks cancel w else (Undef, w))\<rparr>"

definition call_sig :: "tool_call \<Rightarrow> string \<times> string" where
  "call_sig c = (cl_id c, cl_name c)"

definition response_sig :: "tool_response \<Rightarrow> string \<times> string" where
  "response_sig r = (rp_call_id r, rp_name r)"

lemma sig_call_response [simp]: "response_sig (call_response c e) = call_sig c"
  by (simp add: response_sig_def call_sig_def call_response_def)

text \<open>\<open>pend\<close> is what the model is waiting for: set by each turn, untouched by everything else.\<close>

definition tracks_calls :: "('w \<Rightarrow> (string \<times> string) list) \<Rightarrow> 'w provider \<Rightarrow> bool" where
  "tracks_calls pend prov \<longleftrightarrow>
     (\<forall>key model instruction txt registry callbacks cancel w turn w1.
        p_start_turn prov key model instruction txt registry callbacks cancel w = (Ret turn, w1) \<longrightarrow>
        pend w1 = map call_sig (mt_tool_calls turn)) \<and>
     (\<forall>key model instruction rs registry callbacks cancel w turn w1.
        p_continue_turn prov key model instruction rs registry callbacks cancel w = (Ret turn, w1) \<longrightarrow>
        pend w1 = map call_sig (mt_tool_calls turn))"

lemma run_calls_answers:
  assumes "run_calls registry confirm callbacks cancel calls rs w = (Ret (Some rs'), w1)"
  shows "map response_sig rs' = map response_sig rs @ map call_sig calls"
  using assms
proof (induction calls arbitrary: rs w)
  case (Cons call calls)
  from Cons.prems obtain e w2 where
    "run_calls registry confirm callbacks cancel calls (rs @ [call_response call e]) w2 = (Ret (Some rs'), w1)"
    by (auto split: if_splits elim!: bindA_RetE)
  from Cons.IH [OF this] show ?case by simp
qed simp

text \<open>What holds whenever the loop asks for the next turn may be assumed there.\<close>

lemma tool_loop_guarded:
  assumes step: "\<And>calls w rs w1 w2. I calls w \<Longrightarrow>
      run_calls registry confirm callbacks cancel calls [] w = (Ret (Some rs), w1) \<Longrightarrow>
      load_flag cancel w1 = (Ret False, w2) \<Longrightarrow> ok rs w2"
    and turns: "\<And>rs w turn w1 w2. continue_turn rs w = (Ret turn, w1) \<Longrightarrow>
      load_flag cancel w1 = (Ret False, w2) \<Longrightarrow> I (mt_tool_calls turn) w2"
    and start: "I (mt_tool_calls turn) w"
  shows "tool_loop (\<lambda>rs w. if ok rs w then continue_turn rs w else (Undef, w)) registry confirm callbacks cancel
      m round turn w =
    tool_loop continue_turn registry confirm callbacks cancel m round turn w"
  using start
proof (induction round arbitrary: turn w rule: round_induct [where m = m])
  case (1 round)
  show ?case
  proof (cases "mt_tool_calls turn = [] \<or> round = int_max \<or> round + 1 > m")
    case True
    then show ?thesis by (subst (1 2) tool_loop.simps) auto
  next
    case False
    note IH = 1(1) [of "round + 1"]
    let ?g = "\<lambda>rs w. if ok rs w then continue_turn rs w else (Undef, w)"
    have turn_eq: "check_turn cancel t (tool_loop ?g registry confirm callbacks cancel m (round + 1) t) w2 =
        check_turn cancel t (tool_loop continue_turn registry confirm callbacks cancel m (round + 1) t) w2"
      if "continue_turn rs w1 = (Ret t, w2)" for rs w1 t w2
      unfolding check_turn_def
      by (rule bindA_cong_at) (use that turns IH False in auto)
    have cont_eq: "bindA (?g rs) (\<lambda>t. check_turn cancel t
          (tool_loop ?g registry confirm callbacks cancel m (round + 1) t)) w2 =
        bindA (continue_turn rs) (\<lambda>t. check_turn cancel t
          (tool_loop continue_turn registry confirm callbacks cancel m (round + 1) t)) w2"
      if "ok rs w2" for rs w2
      by (rule bindA_cong_at) (use that turn_eq in auto)
    have load_eq: "bindA (load_flag cancel) (\<lambda>c. if c then ret api_cancelled
          else bindA (?g rs) (\<lambda>t. check_turn cancel t
            (tool_loop ?g registry confirm callbacks cancel m (round + 1) t))) w1 =
        bindA (load_flag cancel) (\<lambda>c. if c then ret api_cancelled
          else bindA (continue_turn rs) (\<lambda>t. check_turn cancel t
            (tool_loop continue_turn registry confirm callbacks cancel m (round + 1) t))) w1"
      if "run_calls registry confirm callbacks cancel (mt_tool_calls turn) [] w = (Ret (Some rs), w1)" for rs w1
      by (rule bindA_cong_at) (use step [OF 1(2) that] cont_eq in auto)
    have "bindA (run_calls registry confirm callbacks cancel (mt_tool_calls turn) [])
        (\<lambda>rs. case rs of None \<Rightarrow> ret api_cancelled | Some responses \<Rightarrow>
          bindA (load_flag cancel) (\<lambda>c. if c then ret api_cancelled
            else bindA (?g responses) (\<lambda>t. check_turn cancel t
              (tool_loop ?g registry confirm callbacks cancel m (round + 1) t)))) w =
      bindA (run_calls registry confirm callbacks cancel (mt_tool_calls turn) [])
        (\<lambda>rs. case rs of None \<Rightarrow> ret api_cancelled | Some responses \<Rightarrow>
          bindA (load_flag cancel) (\<lambda>c. if c then ret api_cancelled
            else bindA (continue_turn responses) (\<lambda>t. check_turn cancel t
              (tool_loop continue_turn registry confirm callbacks cancel m (round + 1) t)))) w"
      by (rule bindA_cong_at) (auto split: option.splits simp: load_eq)
    with False show ?thesis by (subst (1 2) tool_loop.simps) simp
  qed
qed

lemma guard_continue_fields [simp]:
  "p_start_turn (guard_continue ok prov) = p_start_turn prov"
  "p_trim_history (guard_continue ok prov) = p_trim_history prov"
  by (simp_all add: guard_continue_def)

lemma run_prompt_guarded:
  assumes "\<And>calls w rs w1 w2. I calls w \<Longrightarrow>
      run_calls (session_registry s) (se_confirm s) callbacks cancel calls [] w = (Ret (Some rs), w1) \<Longrightarrow>
      load_flag cancel w1 = (Ret False, w2) \<Longrightarrow> ok rs w2"
    and "\<And>key model instruction rs w turn w1 w2.
      p_continue_turn prov key model instruction rs (session_registry s) callbacks cancel w = (Ret turn, w1) \<Longrightarrow>
      load_flag cancel w1 = (Ret False, w2) \<Longrightarrow> I (mt_tool_calls turn) w2"
    and "\<And>key model instruction w turn w1 w2.
      p_start_turn prov key model instruction txt (session_registry s) callbacks cancel w = (Ret turn, w1) \<Longrightarrow>
      load_flag cancel w1 = (Ret False, w2) \<Longrightarrow> I (mt_tool_calls turn) w2"
  shows "run_prompt s (guard_continue ok prov) txt callbacks cancel = run_prompt s prov txt callbacks cancel"
proof
  fix w
  have cont: "(\<lambda>rs. p_continue_turn (guard_continue ok prov) k m i rs registry callbacks cancel) =
      (\<lambda>rs w. if ok rs w then p_continue_turn prov k m i rs registry callbacks cancel w else (Undef, w))"
    for k m i registry
    by (simp add: guard_continue_def fun_eq_iff)
  let ?k = "\<lambda>prov turn. check_turn cancel turn (tool_loop
      (\<lambda>rs. p_continue_turn prov (se_api_key s) (se_active_model s) (cf_system_instruction (se_config s)) rs
         (session_registry s) callbacks cancel)
      (session_registry s) (se_confirm s) callbacks cancel (cf_max_tool_rounds (se_config s)) 0 turn)"
  have turn_eq: "?k (guard_continue ok prov) turn w2 = ?k prov turn w2"
    if "p_start_turn prov (se_api_key s) (se_active_model s) (cf_system_instruction (se_config s)) txt
      (session_registry s) callbacks cancel w = (Ret turn, w2)" for turn w2
    unfolding check_turn_def cont
    by (rule bindA_cong_at)
      (use tool_loop_guarded [where I = I and ok = ok, OF assms(1,2)] assms(3) [OF that] in \<open>auto\<close>)
  show "run_prompt s (guard_continue ok prov) txt callbacks cancel w = run_prompt s prov txt callbacks cancel w"
    unfolding run_prompt_def Let_def guard_continue_fields
    by (rule bindA_cong_at) (use turn_eq in auto)
qed

text \<open>The session with the guarded provider in place of its own.\<close>

definition guard_session :: "(tool_response list \<Rightarrow> 'w \<Rightarrow> bool) \<Rightarrow> 'w session \<Rightarrow> 'w session" where
  "guard_session ok s = s\<lparr>se_provider := map_option (guard_continue ok) (se_provider s)\<rparr>"

lemma prompt_guarded:
  assumes "prompt_ready s prov"
    and "run_prompt s (guard_continue ok prov) txt callbacks cancel = run_prompt s prov txt callbacks cancel"
  shows "prompt txt callbacks cancel (guard_session ok s, w) =
    (fst (prompt txt callbacks cancel (s, w)), guard_session ok s, snd (snd (prompt txt callbacks cancel (s, w))))"
proof -
  have ready: "prompt_ready (guard_session ok s) (guard_continue ok prov)"
    using assms(1) by (simp add: prompt_ready_def guard_session_def)
  have "run_prompt (guard_session ok s) = run_prompt s"
    by (simp add: run_prompt_def session_registry_def guard_session_def fun_eq_iff)
  moreover have "se_config (guard_session ok s) = se_config s" by (simp add: guard_session_def)
  ultimately have "world_prompt (guard_session ok s) (guard_continue ok prov) txt callbacks cancel =
      world_prompt s prov txt callbacks cancel"
    unfolding world_prompt_def by (simp only: guard_continue_fields assms(2))
  then show ?thesis using prompt_on_world [OF ready] prompt_on_world [OF assms(1)] by simp
qed

subsection \<open>Cancellation\<close>

text \<open>
  A result other than the cancelled one is only given right after a load that found the flag unset. The
  flag is any flag: what other threads do before each load is a part of the load.
\<close>

definition just_unset :: "'w flag_ptr \<Rightarrow> 'w \<Rightarrow> bool" where
  "just_unset cancel w1 \<longleftrightarrow> (\<exists>w0. load_flag cancel w0 = (Ret False, w1))"

lemma check_turn_cancel:
  assumes "check_turn cancel turn k w = (Ret r, w1)"
    and "\<And>w2. just_unset cancel w2 \<Longrightarrow> k w2 = (Ret r, w1) \<Longrightarrow> r = api_cancelled \<or> just_unset cancel w1"
  shows "r = api_cancelled \<or> just_unset cancel w1"
proof -
  from assms(1) obtain c w2 where load: "load_flag cancel w = (Ret c, w2)"
    and rest: "(if c then ret api_cancelled else if \<not> mt_ok turn then
        ret \<lparr>res_ok = False, res_message = mt_error_message turn, res_models = [], res_cancelled = mt_cancelled turn\<rparr>
      else k) w2 = (Ret r, w1)"
    unfolding check_turn_def by (auto elim!: bindA_RetE)
  show ?thesis
  proof (cases c)
    case False
    with load have "just_unset cancel w2" by (auto simp: just_unset_def)
    with assms(2) [OF this] rest False show ?thesis by (auto split: if_splits)
  qed (use rest in simp)
qed

lemma tool_loop_cancel:
  assumes "tool_loop continue_turn registry confirm callbacks cancel m round turn w = (Ret r, w1)"
    and "just_unset cancel w"
  shows "r = api_cancelled \<or> just_unset cancel w1"
  using assms
proof (induction round arbitrary: turn w rule: round_induct [where m = m])
  case (1 round)
  show ?case
  proof (cases "mt_tool_calls turn = [] \<or> round = int_max \<or> round + 1 > m")
    case True
    then show ?thesis using 1(2,3) by (subst (asm) tool_loop.simps) (auto split: if_splits)
  next
    case False
    with 1(2) obtain rs w2 where
      calls: "run_calls registry confirm callbacks cancel (mt_tool_calls turn) [] w = (Ret rs, w2)"
      and rest: "(case rs of None \<Rightarrow> ret api_cancelled | Some responses \<Rightarrow>
          bindA (load_flag cancel) (\<lambda>c. if c then ret api_cancelled
            else bindA (continue_turn responses) (\<lambda>t. check_turn cancel t
              (tool_loop continue_turn registry confirm callbacks cancel m (round + 1) t)))) w2 = (Ret r, w1)"
      by (subst (asm) tool_loop.simps) (auto elim!: bindA_RetE)
    show ?thesis
    proof (cases rs)
      case (Some responses)
      from rest Some consider "r = api_cancelled" | t w3 where
        "check_turn cancel t
          (tool_loop continue_turn registry confirm callbacks cancel m (round + 1) t) w3 = (Ret r, w1)"
        by (auto split: if_splits elim!: bindA_RetE)
      then show ?thesis
      proof cases
        case 2
        show ?thesis
          by (rule check_turn_cancel [OF 2], rule 1(1) [of "round + 1"]) (use False in simp_all)
      qed simp
    qed (use rest in simp)
  qed
qed

lemma world_prompt_cancel:
  assumes "world_prompt s prov txt callbacks cancel w = (Ret r, w1)"
  shows "r = api_cancelled \<or> just_unset cancel w1"
proof -
  from assms consider "r = api_cancelled" | t w3 where
    "check_turn cancel t (tool_loop
      (\<lambda>rs. p_continue_turn prov (se_api_key s) (se_active_model s) (cf_system_instruction (se_config s)) rs
         (session_registry s) callbacks cancel)
      (session_registry s) (se_confirm s) callbacks cancel (cf_max_tool_rounds (se_config s)) 0 t) w3 =
      (Ret r, w1)"
    by (auto simp: world_prompt_def run_prompt_def Let_def split: if_splits elim!: bindA_RetE)
  then show ?thesis
  proof cases
    case 2
    show ?thesis by (rule check_turn_cancel [OF 2], rule tool_loop_cancel)
  qed simp
qed

section \<open>Properties\<close>

text \<open>
  A provider that plays back a list of turns, for concrete applications: the world is the number of
  turns taken and what the last one asked for.
\<close>

type_synonym demo_world = "nat \<times> (string \<times> string) list"

definition demo_turn :: "model_turn list \<Rightarrow> (demo_world, model_turn) act" where
  "demo_turn turns = (\<lambda>(n, pending).
     (let turn = (if n < length turns then turns ! n else failed_turn ''end of script'' False)
      in (Ret turn, (Suc n, map call_sig (mt_tool_calls turn)))))"

definition demo_provider :: "model_turn list \<Rightarrow> demo_world provider" where
  "demo_provider turns = \<lparr>p_type = Custom, p_name = ''demo'',
     p_preferred_model = (\<lambda>models. ret (if models = [] then [] else hd models)),
     p_model_capabilities = (\<lambda>_. ret default_capabilities),
     p_list_models = (\<lambda>_ _. ret (api_failure ''offline'')),
     p_start_turn = (\<lambda>_ _ _ _ _ _ _. demo_turn turns),
     p_continue_turn = (\<lambda>_ _ _ _ _ _ _. demo_turn turns),
     p_trim_history = (\<lambda>_. ret ()), p_cancel_active_request = ret (),
     p_reset_session = ret (), p_session_entries = ret 0\<rparr>"

definition asking :: model_turn where
  "asking = \<lparr>mt_ok = True, mt_text = [], mt_tool_calls = [\<lparr>cl_id = ''c1'', cl_name = ''probe'', cl_arguments = JObj []\<rparr>],
     mt_error_message = [], mt_cancelled = False\<rparr>"

definition final :: model_turn where
  "final = \<lparr>mt_ok = True, mt_text = ''done'', mt_tool_calls = [], mt_error_message = [], mt_cancelled = False\<rparr>"

definition silent :: "'w stream_callbacks" where
  "silent = \<lparr>cb_on_text = None, cb_on_progress = None\<rparr>"

definition demo_session :: "int \<Rightarrow> model_turn list \<Rightarrow> demo_world session" where
  "demo_session rounds turns = (new_session (default_config\<lparr>cf_max_tool_rounds := rounds\<rparr>))
     \<lparr>se_provider := Some (demo_provider turns), se_api_key := ''key'', se_active_model := ''model''\<rparr>"

lemma demo_ready: "prompt_ready (demo_session n turns) (demo_provider turns)"
  by (simp add: prompt_ready_def demo_session_def new_session_def)

lemmas demo_defs = demo_session_def demo_provider_def new_session_def default_config_def silent_def
  session_registry_def demo_turn_def execute_tool_def find_tool_def

text \<open>Bounded conversation. One prompt starts the model once and continues it at most
  \<^verbatim>\<open>max_tool_rounds\<close> times, whatever the model asks for, whatever the tools return and however the
  prompt ends: any counter that only the turns of the model raise, each by at most one, grows by at
  most that much plus one.\<close>

theorem prompt_turns_bounded:
  assumes "prompt_ready s prov"
    and "tools_within (no_more f) (session_registry s) (se_confirm s) callbacks cancel"
    and "\<And>n. raises f 0 (p_trim_history prov n)"
    and "\<And>k m i. raises f 1 (p_start_turn prov k m i txt (session_registry s) callbacks cancel)"
    and "\<And>k m i rs. raises f 1 (p_continue_turn prov k m i rs (session_registry s) callbacks cancel)"
  shows "f (snd (snd (prompt txt callbacks cancel (s, w)))) \<le> f w + (1 + nat (cf_max_tool_rounds (se_config s)))"
  using raises_world_prompt [OF assms(2-5)] prompt_on_world [OF assms(1)] by (simp add: raises_def add.commute)

theorem prompt_turns_bounded_witness:
  "fst (snd (snd (prompt ''hi'' silent None (demo_session 2 (replicate 9 asking), (0, []))))) \<le> 3"
proof -
  have "raises fst 1 (demo_turn (replicate 9 asking))"
    by (auto simp: raises_def demo_turn_def Let_def)
  then have "fst (snd (snd (prompt ''hi'' silent None (demo_session 2 (replicate 9 asking), (0, [])))))
      \<le> fst (0 :: nat, [] :: (string \<times> string) list) + (1 + nat (cf_max_tool_rounds (se_config (demo_session 2 (replicate 9 asking)))))"
    by - (rule prompt_turns_bounded [where f = fst, OF demo_ready], auto simp: demo_defs tools_within_def raises_0)
  then show ?thesis by (simp add: demo_session_def new_session_def)
qed

text \<open>C26: termination. When the calls of the provider, the tools and the callbacks complete, a prompt
  completes, for every model however long it keeps asking for tools: the loop ends and its counter
  does not overflow below the largest \<^verbatim>\<open>int\<close>.\<close>

theorem prompt_completes:
  assumes "prompt_ready s prov"
    and "completing_tools (session_registry s) (se_confirm s) callbacks cancel"
    and "\<And>n. completes (p_trim_history prov n)"
    and "\<And>k m i. completes (p_start_turn prov k m i txt (session_registry s) callbacks cancel)"
    and "\<And>k m i rs. completes (p_continue_turn prov k m i rs (session_registry s) callbacks cancel)"
    and "cf_max_tool_rounds (se_config s) < int_max"
  shows "fst (prompt txt callbacks cancel (s, w)) \<noteq> Hang \<and> fst (prompt txt callbacks cancel (s, w)) \<noteq> Undef"
proof -
  have "completes (world_prompt s prov txt callbacks cancel)"
    unfolding world_prompt_def run_prompt_def Let_def
    by (auto intro!: completes_bindA assms(3-5) completes_check_turn completes_tool_loop [OF assms(2)] assms(6))
      (simp add: int_max_def)
  then show ?thesis using prompt_on_world [OF assms(1)] by (simp add: completes_def)
qed

theorem prompt_completes_witness:
  "fst (prompt ''hi'' silent None (demo_session 2 (replicate 9 asking), (0, []))) \<noteq> Hang \<and>
   fst (prompt ''hi'' silent None (demo_session 2 (replicate 9 asking), (0, []))) \<noteq> Undef"
  by (rule prompt_completes [OF demo_ready])
    (auto simp: demo_defs completing_tools_def completes_def int_max_def Let_def)

text \<open>C13: every call is answered. Each time the session asks the model to continue, it sends exactly one
  response per call of the model's last turn, in the order of the calls and with their ids and names,
  also when the flag, the tools or the callbacks interfere: a provider for which anything else is
  undefined behaviour gives the same run.\<close>

theorem prompt_answers_every_call:
  assumes "prompt_ready s prov" and "tracks_calls pend prov"
    and "tools_within (same pend) (session_registry s) (se_confirm s) callbacks cancel"
  shows "prompt txt callbacks cancel (guard_session (\<lambda>rs w. map response_sig rs = pend w) s, w) =
    (fst (prompt txt callbacks cancel (s, w)), guard_session (\<lambda>rs w. map response_sig rs = pend w) s,
     snd (snd (prompt txt callbacks cancel (s, w))))"
proof (rule prompt_guarded [OF assms(1)], rule run_prompt_guarded [where I = "\<lambda>calls w. pend w = map call_sig calls"])
  note load = keepsD [of pend "load_flag cancel"]
  have keep: "keeps pend (load_flag cancel)" using assms(3) by (simp add: tools_within_def)
  show "map response_sig rs = pend w2"
    if "pend w = map call_sig calls" "load_flag cancel w1 = (Ret False, w2)"
      "run_calls (session_registry s) (se_confirm s) callbacks cancel calls [] w = (Ret (Some rs), w1)"
    for calls w rs w1 w2
    using run_calls_answers [OF that(3)] keepsD [OF same.within_run_calls [OF assms(3)] that(3)]
      load [OF keep that(2)] that(1) by simp
  show "pend w2 = map call_sig (mt_tool_calls turn)"
    if "p_continue_turn prov k m i rs (session_registry s) callbacks cancel w = (Ret turn, w1)"
      "load_flag cancel w1 = (Ret False, w2)" for k m i rs w turn w1 w2
    using that load [OF keep that(2)] assms(2) unfolding tracks_calls_def by metis
  show "pend w2 = map call_sig (mt_tool_calls turn)"
    if "p_start_turn prov k m i txt (session_registry s) callbacks cancel w = (Ret turn, w1)"
      "load_flag cancel w1 = (Ret False, w2)" for k m i w turn w1 w2
    using that load [OF keep that(2)] assms(2) unfolding tracks_calls_def by metis
qed

theorem prompt_answers_every_call_witness:
  "fst (prompt ''hi'' silent None
     (guard_session (\<lambda>rs w. map response_sig rs = snd w) (demo_session 2 [asking, final]), (0, []))) =
   fst (prompt ''hi'' silent None (demo_session 2 [asking, final], (0, [])))"
proof -
  have "tracks_calls snd (demo_provider [asking, final])"
    by (auto simp: tracks_calls_def demo_provider_def demo_turn_def Let_def)
  from prompt_answers_every_call [OF demo_ready this]
  show ?thesis by (simp add: tools_within_def demo_defs)
qed

text \<open>C21: the conversation. Without cancellation and progress notices a prompt trims the history and is
  then the plain conversation: start the model, run the calls of each turn in order, send all their
  results, take the next turn, until a turn fails, asks for nothing, or the rounds are used up.\<close>

theorem prompt_is_conversation:
  assumes "prompt_ready s prov" and "never_set cancel" and "cb_on_progress callbacks = None"
    and "cf_max_tool_rounds (se_config s) < int_max"
  shows "prompt txt callbacks cancel (s, w) =
    on_snd (bindA (p_trim_history prov (cf_max_history_entries (se_config s))) (\<lambda>_.
      bindA (p_start_turn prov (se_api_key s) (se_active_model s) (cf_system_instruction (se_config s)) txt
          (session_registry s) callbacks cancel)
        (converse
          (\<lambda>rs. p_continue_turn prov (se_api_key s) (se_active_model s) (cf_system_instruction (se_config s)) rs
            (session_registry s) callbacks cancel)
          (answer_call (session_registry s) (call_context (se_confirm s) cancel))
          (nat (cf_max_tool_rounds (se_config s)))))) (s, w)"
proof -
  have "world_prompt s prov txt callbacks cancel =
      bindA (p_trim_history prov (cf_max_history_entries (se_config s))) (\<lambda>_. run_prompt s prov txt callbacks cancel)"
    by (simp add: world_prompt_def bindA_load [OF assms(2)])
  moreover have "(0::int) < int_max" by (simp add: int_max_def)
  ultimately show ?thesis
    unfolding prompt_on_world [OF assms(1)]
    by (simp only: run_prompt_def Let_def tool_loop_converse [OF assms(2-4)] diff_zero)
qed

theorem prompt_is_conversation_witness:
  "prompt ''hi'' silent None (demo_session 2 [asking, final], (0, [])) =
    (Ret (api_success ''done''), demo_session 2 [asking, final], (2, []))"
proof -
  have "cf_max_tool_rounds (se_config (demo_session 2 [asking, final])) < int_max"
    by (simp add: demo_defs int_max_def)
  from prompt_is_conversation [OF demo_ready never_set_None _ this, of silent] show ?thesis
    by (simp add: demo_defs asking_def final_def bindA_def answer_call_def converse.simps eval_nat_numeral)
qed

text \<open>C29: cancellation is reported. The session has a provider, a key and a model; other threads may write
  the flag, and anything else, before each of its loads. If the flag is set when the prompt begins, it
  is cancelled before any call of the provider; if it is set when the prompt looks at it for the last
  time, which is the last thing it does before it returns, the result is the cancelled one; and the model
  is never asked to continue after a look that found it set. A thread that sets the flag after the last
  look comes too late for this prompt.\<close>

theorem prompt_reports_cancellation:
  assumes "prompt_ready s prov"
  shows "(b (env w) \<longrightarrow> prompt txt callbacks (thread_flag env b) (s, w) = (Ret api_cancelled, (s, env w))) \<and>
    (\<forall>r s1 w1. prompt txt callbacks (thread_flag env b) (s, w) = (Ret r, s1, w1) \<longrightarrow>
       r = api_cancelled \<or> (\<exists>w0. w1 = env w0 \<and> \<not> b w1)) \<and>
    prompt txt callbacks (thread_flag env b) (guard_session (\<lambda>_ w. \<not> b w) s, w) =
      (fst (prompt txt callbacks (thread_flag env b) (s, w)), guard_session (\<lambda>_ w. \<not> b w) s,
       snd (snd (prompt txt callbacks (thread_flag env b) (s, w))))"
proof (intro conjI allI impI)
  show "prompt txt callbacks (thread_flag env b) (s, w) = (Ret api_cancelled, (s, env w))" if "b (env w)"
    using that by (simp add: prompt_on_world [OF assms] world_prompt_def)
  show "r = api_cancelled \<or> (\<exists>w0. w1 = env w0 \<and> \<not> b w1)"
    if "prompt txt callbacks (thread_flag env b) (s, w) = (Ret r, s1, w1)" for r s1 w1
  proof -
    from that have "world_prompt s prov txt callbacks (thread_flag env b) w = (Ret r, w1)"
      by (auto simp: prompt_on_world [OF assms] prod_eq_iff)
    from world_prompt_cancel [OF this] show ?thesis by (auto simp: just_unset_def)
  qed
  have flag: "\<not> b w2" if "load_flag (thread_flag env b) w1 = (Ret False, w2)" for w1 w2
    using that by auto
  show "prompt txt callbacks (thread_flag env b) (guard_session (\<lambda>_ w. \<not> b w) s, w) =
      (fst (prompt txt callbacks (thread_flag env b) (s, w)), guard_session (\<lambda>_ w. \<not> b w) s,
       snd (snd (prompt txt callbacks (thread_flag env b) (s, w))))"
    by (rule prompt_guarded [OF assms], rule run_prompt_guarded [where I = "\<lambda>_ _. True"]) (auto dest: flag)
qed

text \<open>Another thread notes in the world that it ran, and sets the flag once the model has asked for a tool.\<close>

theorem prompt_reports_cancellation_witness:
  "fst (prompt ''hi'' silent (thread_flag (\<lambda>(n, p). (n, (''thread'', []) # p)) (\<lambda>w. 2 \<le> length (snd w)))
     (demo_session 2 [asking, final], (0, []))) = Ret api_cancelled"
proof -
  let ?b = "\<lambda>w :: demo_world. 2 \<le> length (snd w)" and ?env = "\<lambda>(n, p). (n, (''thread'', []) # p) :: demo_world"
  have run: "prompt ''hi'' silent (thread_flag ?env ?b) (demo_session 2 [asking, final], (0, [])) =
      (Ret api_cancelled, demo_session 2 [asking, final], (1, [(''thread'', []), (''c1'', ''probe'')]))"
    unfolding prompt_on_world [OF demo_ready]
    by (simp add: world_prompt_def run_prompt_def check_turn_def demo_defs asking_def bindA_def call_sig_def)
  with prompt_reports_cancellation [OF demo_ready, of ?b ?env "(0, [])" "''hi''" silent 2 "[asking, final]"] show ?thesis
    by auto
qed

text \<open>The session survives its prompts. Whatever the outcome of a prompt, a result, an exception or
  worse, the session is afterwards what it was before: its configuration is untouched and no provider
  is left marked as active.\<close>

theorem prompt_leaves_session:
  assumes "se_active_provider s = None"
  shows "fst (snd (prompt txt callbacks cancel (s, w))) = s"
proof (cases "\<exists>prov. prompt_ready s prov")
  case True
  then show ?thesis using prompt_on_world by fastforce
next
  case False
  with assms show ?thesis
    by (auto simp: prompt_def prompt_ready_def bindA_def get_session_def split: option.splits)
qed

theorem prompt_leaves_session_witness:
  "fst (snd (prompt ''hi'' silent None (demo_session 2 [asking], (0, [])))) = demo_session 2 [asking]"
  by (rule prompt_leaves_session) (simp add: demo_defs)

text \<open>A provider that needs no key cannot be used with an empty one.\<close>

lemma keyless_prompt_refused:
  "se_provider s \<noteq> None \<Longrightarrow> se_api_key s = [] \<Longrightarrow>
    prompt request callbacks cancel (s, w) = (Ret (api_failure ''No API key is set.''), (s, w))"
  by (auto simp: prompt_def get_session_def)

text \<open>Configuration. After a provider was configured, the session uses it with the given key; when
  the models could be listed it offers exactly those and has the provider's choice selected, and when
  they could not, no model is selected and every later prompt fails without a call of anything.\<close>

theorem configure_provider_effect:
  assumes "configure_provider (Some p) key cancel (s, w) = (Ret r, (s1, w1))"
  shows "se_provider s1 = Some p \<and> se_api_key s1 = key \<and>
    (if res_ok r then se_available_models s1 = res_models r \<and>
       (\<exists>w2. p_preferred_model p (res_models r) w2 = (Ret (se_active_model s1), w1))
     else se_available_models s1 = [] \<and>
       prompt txt callbacks cancel' (s1, w3) =
         (Ret (api_failure (if key = [] then ''No API key is set.'' else ''No model is selected.'')), (s1, w3)))"
proof -
  obtain r' w2 where list: "p_list_models p key cancel w = (r', w2)" by (cases "p_list_models p key cancel w")
  with assms have "r' = Ret r"
    by (cases r') (auto simp: configure_provider_def bindA_def update_session_def split: if_splits prod.splits outcome.splits)
  with list assms show ?thesis
    by (cases "p_preferred_model p (res_models r) w2")
      (auto simp: configure_provider_def bindA_def update_session_def prompt_def get_session_def
        split: if_splits outcome.splits)
qed

theorem configure_provider_effect_witness:
  "\<exists>s1. configure_provider (Some (demo_provider [])) ''key'' None (new_session default_config, (0, [])) =
      (Ret (api_failure ''offline''), (s1, (0, []))) \<and>
    fst (prompt ''hi'' silent None (s1, (0, []))) = Ret (api_failure ''No model is selected.'')"
proof -
  let ?s1 = "(new_session default_config)\<lparr>se_provider := Some (demo_provider []), se_api_key := ''key''\<rparr>"
  have "configure_provider (Some (demo_provider [])) ''key'' None (new_session default_config, (0, [])) =
      (Ret (api_failure ''offline''), (?s1, (0, [])))"
    by (simp add: configure_provider_def bindA_def demo_defs api_failure_def)
  from this configure_provider_effect [OF this, of "''hi''" silent None] show ?thesis
    by (intro exI [of _ ?s1]) (simp add: api_failure_def)
qed

end
