(* ===== verification/Profiles.thy ===== *)
theory Profiles
  imports Tools "HOL-Library.Product_Lexorder"
begin

text \<open>
  The value types of the agent layer (permissions, model policy, artifacts, tasks, profiles,
  results; \<^verbatim>\<open>agent/agent_permissions.hpp\<close>, \<^verbatim>\<open>agent/model_policy.hpp\<close>,
  \<^verbatim>\<open>agent/context_artifact.hpp\<close>, \<^verbatim>\<open>agent/agent_task.hpp\<close>, \<^verbatim>\<open>agent/agent_profile.hpp\<close>,
  \<^verbatim>\<open>agent/agent_result.hpp\<close>) and the registry of profiles with the four standard ones
  (\<^verbatim>\<open>agent/agent_registry.cpp\<close>). An enumeration of C++ can hold values that are none of its
  enumerators; where the code deals with them they have a constructor of their own.
\<close>

section \<open>Permissions\<close>

datatype permission_decision = Allow | Deny | Ask_user | Invalid_decision int

datatype operation_class = Read_file | Write_file | Delete_file | Run_command | Network | Git_commit
  | Git_push | Invalid_operation int

fun operation_rank :: "operation_class \<Rightarrow> int \<times> int" where
  "operation_rank Read_file = (0, 0)"
| "operation_rank Write_file = (0, 1)"
| "operation_rank Delete_file = (0, 2)"
| "operation_rank Run_command = (0, 3)"
| "operation_rank Network = (0, 4)"
| "operation_rank Git_commit = (0, 5)"
| "operation_rank Git_push = (0, 6)"
| "operation_rank (Invalid_operation i) = (1, i)"

lemma operation_rank_inject [simp]: "operation_rank a = operation_rank b \<longleftrightarrow> a = b"
  by (cases a; cases b) auto

text \<open>The order of the keys of the \<^verbatim>\<open>std::map\<close>.\<close>

instantiation operation_class :: linorder
begin

definition less_eq_operation_class :: "operation_class \<Rightarrow> operation_class \<Rightarrow> bool" where
  "less_eq_operation_class a b \<longleftrightarrow> operation_rank a \<le> operation_rank b"

definition less_operation_class :: "operation_class \<Rightarrow> operation_class \<Rightarrow> bool" where
  "less_operation_class a b \<longleftrightarrow> operation_rank a < operation_rank b"

instance
  by intro_classes (auto simp: less_eq_operation_class_def less_operation_class_def order.strict_iff_order
      intro: order_antisym [THEN operation_rank_inject [THEN iffD1]])

end

type_synonym agent_permissions = "(operation_class \<times> permission_decision) list"

fun known_operation :: "operation_class \<Rightarrow> bool" where
  "known_operation (Invalid_operation _) = False"
| "known_operation _ = True"

fun known_decision :: "permission_decision \<Rightarrow> bool" where
  "known_decision (Invalid_decision _) = False"
| "known_decision _ = True"

definition decision_for :: "agent_permissions \<Rightarrow> operation_class \<Rightarrow> permission_decision" where
  "decision_for decisions op =
     (if known_operation op then
        (case map_of decisions op of Some d \<Rightarrow> d | None \<Rightarrow> Deny)
      else Deny)"

definition set_decision ::
    "operation_class \<Rightarrow> permission_decision \<Rightarrow> agent_permissions \<Rightarrow> bool \<times> agent_permissions" where
  "set_decision op decision decisions =
     (if \<not> known_decision decision then (False, decisions)
      else if known_operation op then (True, map_assign op decision decisions)
      else (False, decisions))"

text \<open>A sequence of configurations; the results of the calls are dropped, as the code does.\<close>

fun set_decisions :: "(operation_class \<times> permission_decision) list \<Rightarrow> agent_permissions \<Rightarrow> agent_permissions" where
  "set_decisions [] ds = ds"
| "set_decisions ((op, d) # cs) ds = set_decisions cs (snd (set_decision op d ds))"

lemma decision_for_Nil [simp]: "decision_for [] op = Deny"
  by (simp add: decision_for_def)

lemma set_decision_sorted: "key_sorted ds \<Longrightarrow> key_sorted (snd (set_decision op d ds))"
  by (simp add: set_decision_def)

lemma set_decision_effect:
  "key_sorted ds \<Longrightarrow> decision_for (snd (set_decision op d ds)) op' =
    (if op' = op \<and> known_operation op \<and> known_decision d then d else decision_for ds op')"
  by (auto simp: set_decision_def decision_for_def map_of_assign)

lemma set_decisions_effect:
  assumes "key_sorted ds"
  shows "decision_for (set_decisions cs ds) op =
    (case find (\<lambda>(op', d). op' = op \<and> known_operation op \<and> known_decision d) (rev cs) of
       Some (_, d) \<Rightarrow> d | None \<Rightarrow> decision_for ds op)"
  using assms
proof (induction cs arbitrary: ds)
  case (Cons c cs)
  obtain op' d where c: "c = (op', d)" by (cases c)
  have find_append: "find P (xs @ [x]) = (case find P xs of Some y \<Rightarrow> Some y | None \<Rightarrow> if P x then Some x else None)"
    for P xs and x :: "operation_class \<times> permission_decision"
    by (induction xs) auto
  show ?case
    using Cons.IH [OF set_decision_sorted [OF Cons.prems, of op' d]] set_decision_effect [OF Cons.prems, of op' d op]
    by (auto simp: c find_append split: option.splits)
qed simp

section \<open>Model policy, artifacts, tasks, results\<close>

datatype model_capability = Default_model | Fast | Reasoning | Coding | Cheap | Long_context

record model_policy =
  mp_preferred :: model_capability
  mp_fallback :: "model_capability option"

definition default_policy :: model_policy where
  "default_policy = \<lparr>mp_preferred = Default_model, mp_fallback = None\<rparr>"

datatype artifact_type = User_request | Exploration_report | Implementation_plan | Change_summary
  | Test_result | Error_report | Review_report | Generic

record context_artifact =
  ca_type :: artifact_type
  ca_producer :: string
  ca_content :: string

record task_constraints =
  tk_max_steps :: "nat option"
  tk_read_only :: bool
  tk_notes :: string

record agent_task =
  at_id :: string
  at_objective :: string
  at_working_directory :: string
  at_inputs :: "context_artifact list"
  at_constraints :: task_constraints

definition task_valid :: "agent_task \<Rightarrow> bool" where
  "task_valid task \<longleftrightarrow>
     \<not> only_blanks (at_id task) \<and> \<not> only_blanks (at_objective task) \<and> at_working_directory task \<noteq> [] \<and>
     (tk_max_steps (at_constraints task) = None \<or> the (tk_max_steps (at_constraints task)) > 0)"

datatype agent_status = Completed | Failed | Cancelled_status | Needs_input | Needs_confirmation

record agent_error =
  ae_code :: string
  ae_message :: string

record agent_result =
  ar_status :: agent_status
  ar_summary :: string
  ar_artifacts :: "context_artifact list"
  ar_error :: "agent_error option"

definition default_result :: agent_result where
  "default_result = \<lparr>ar_status = Needs_input, ar_summary = [], ar_artifacts = [], ar_error = None\<rparr>"

section \<open>Profiles and their registry\<close>

record agent_profile =
  ap_id :: string
  ap_display_name :: string
  ap_description :: string
  ap_instructions :: string
  ap_allowed_tools :: "string list"
  ap_default_skills :: "string list"
  ap_permissions :: agent_permissions
  ap_model_policy :: model_policy
  ap_max_steps :: nat

definition default_profile :: agent_profile where
  "default_profile = \<lparr>ap_id = [], ap_display_name = [], ap_description = [], ap_instructions = [],
     ap_allowed_tools = [], ap_default_skills = [], ap_permissions = [], ap_model_policy = default_policy,
     ap_max_steps = 12\<rparr>"

type_synonym agent_registry = "(string \<times> agent_profile) list"

definition register_profile :: "agent_profile \<Rightarrow> agent_registry \<Rightarrow> bool \<times> agent_registry" where
  "register_profile profile profiles =
     (if ap_id profile = [] then (False, profiles)
      else (map_of profiles (ap_id profile) = None, map_emplace (ap_id profile) profile profiles))"

definition find_profile :: "agent_registry \<Rightarrow> string \<Rightarrow> agent_profile option" where
  "find_profile profiles pid = map_of profiles pid"

definition profiles :: "agent_registry \<Rightarrow> agent_profile list" where
  "profiles reg = map snd reg"

definition profiles_size :: "agent_registry \<Rightarrow> nat" where
  "profiles_size reg = length reg"

definition profiles_empty :: "agent_registry \<Rightarrow> bool" where
  "profiles_empty reg \<longleftrightarrow> reg = []"

definition read_only_tools :: "string list" where
  "read_only_tools = [''list_files'', ''read_file'', ''search_files'']"

definition read_only_permissions :: agent_permissions where
  "read_only_permissions = snd (set_decision Read_file Allow [])"

definition make_read_only_profile ::
    "string \<Rightarrow> string \<Rightarrow> string \<Rightarrow> string \<Rightarrow> model_capability \<Rightarrow> model_capability \<Rightarrow> agent_profile" where
  "make_read_only_profile pid display_name description instructions preferred fallback =
     default_profile\<lparr>ap_id := pid, ap_display_name := display_name, ap_description := description,
       ap_instructions := instructions, ap_allowed_tools := read_only_tools,
       ap_permissions := read_only_permissions,
       ap_model_policy := \<lparr>mp_preferred = preferred, mp_fallback = Some fallback\<rparr>\<rparr>"

definition explorer :: agent_profile where
  "explorer = make_read_only_profile ''explorer'' ''Explorer''
     ''Inspects a project and reports relevant facts without changing it.''
     ''Explore the project, locate relevant files and symbols, and report evidence. Do not modify files or run mutating operations.''
     Fast Long_context"

definition planner :: agent_profile where
  "planner = make_read_only_profile ''planner'' ''Planner''
     ''Produces implementation plans from project evidence without changing files.''
     ''Inspect the project as needed, identify constraints and dependencies, and produce a concrete implementation plan. Do not modify files.''
     Reasoning Default_model"

definition coder :: agent_profile where
  "coder = default_profile\<lparr>ap_id := ''coder'', ap_display_name := ''Coder'',
     ap_description := ''Implements focused code changes with explicit approval for file mutations.'',
     ap_instructions := ''Inspect the relevant code, implement the requested change, and verify it. Request approval before writing or deleting files.'',
     ap_allowed_tools := read_only_tools @ [''write_file'', ''delete_file''],
     ap_permissions := set_decisions [(Read_file, Allow), (Write_file, Ask_user), (Delete_file, Ask_user)] [],
     ap_model_policy := \<lparr>mp_preferred = Coding, mp_fallback = Some Reasoning\<rparr>\<rparr>"

definition reviewer :: agent_profile where
  "reviewer = make_read_only_profile ''reviewer'' ''Reviewer''
     ''Reviews project changes for correctness, safety and regressions without editing them.''
     ''Inspect the relevant code and changes, prioritize concrete defects, and explain each finding with evidence. Do not modify files.''
     Reasoning Coding"

definition make_registry :: agent_registry where
  "make_registry =
     (let reg = snd (register_profile explorer []);
          reg = snd (register_profile planner reg);
          reg = snd (register_profile coder reg)
      in snd (register_profile reviewer reg))"

definition profiles_inv :: "agent_registry \<Rightarrow> bool" where
  "profiles_inv reg \<longleftrightarrow> key_sorted reg \<and> (\<forall>(pid, p) \<in> set reg. pid \<noteq> [] \<and> ap_id p = pid)"

lemma profiles_inv_empty [simp]: "profiles_inv []"
  by (simp add: profiles_inv_def)

lemma profiles_inv_register: "profiles_inv reg \<Longrightarrow> profiles_inv (snd (register_profile p reg))"
  using set_map_emplace_subset [of "ap_id p" p reg]
  by (fastforce simp: profiles_inv_def register_profile_def)

interpretation profile_catalog: catalog profiles_inv find_profile register_profile ap_id
proof
  fix m :: agent_registry and v :: agent_profile
  assume inv: "profiles_inv m"
  then have sorted: "key_sorted m" by (simp add: profiles_inv_def)
  note defs = register_profile_def find_profile_def
  show "fst (register_profile v m) \<longleftrightarrow> ap_id v \<noteq> [] \<and> find_profile m (ap_id v) = None"
    by (simp add: defs)
  show "snd (register_profile v m) = m" if "\<not> fst (register_profile v m)"
    using that sorted by (auto simp: defs map_emplace_present split: if_splits)
  show "find_profile (snd (register_profile v m)) = (find_profile m)(ap_id v \<mapsto> v)"
    if "fst (register_profile v m)"
    using that sorted by (auto simp: defs fun_eq_iff map_of_emplace split: if_splits)
  show "profiles_inv (snd (register_profile v m))"
    using inv by (rule profiles_inv_register)
qed

lemma profile_ids: "profiles_inv reg \<Longrightarrow> map ap_id (profiles reg) = map fst reg"
  by (auto simp: profiles_inv_def profiles_def)

section \<open>Properties\<close>

text \<open>Permissions deny by default. After any sequence of configurations the decision for an operation
  is the last valid one that was configured for it, and deny when there is none or when the value is
  not an operation; configurations of other operations and invalid ones have no effect.\<close>

theorem permissions_default_deny:
  "decision_for (set_decisions cs []) op =
    (case find (\<lambda>(op', d). op' = op \<and> known_operation op \<and> known_decision d) (rev cs) of
       Some (_, d) \<Rightarrow> d | None \<Rightarrow> Deny)"
  unfolding set_decisions_effect [OF key_sorted_Nil] by (simp split: option.split)

text \<open>The registry of profiles. After any registrations a lookup gives the first registered profile
  with that id (none for the empty id), so a profile is never replaced, and the list of profiles is in
  strictly increasing order of the ids, each under its own.\<close>

theorem profile_registry_first_wins:
  "find_profile (register_all register_profile ps []) pid =
     (if pid = [] then None else find (\<lambda>p. ap_id p = pid) ps) \<and>
   sorted_wrt (<) (map ap_id (profiles (register_all register_profile ps [])))"
proof -
  have inv: "profiles_inv (register_all register_profile ps [])"
    by (rule profile_catalog.register_all_keeps) simp
  then have "sorted_wrt (<) (map fst (register_all register_profile ps []))"
    by (simp add: profiles_inv_def key_sorted_def)
  then show ?thesis
    using profile_catalog.register_all_lookup [of "[]" ps pid] profile_ids [OF inv]
    by (simp add: find_profile_def)
qed

lemmas standard_defs = explorer_def planner_def coder_def reviewer_def make_read_only_profile_def
  default_profile_def read_only_permissions_def read_only_tools_def set_decision_def

text \<open>The standard profiles, in the order of their ids.\<close>

lemma make_registry_eq:
  "make_registry = [(''coder'', coder), (''explorer'', explorer), (''planner'', planner), (''reviewer'', reviewer)]"
  by (simp add: make_registry_def register_profile_def standard_defs Let_def)

text \<open>The standard registry holds exactly the four standard profiles. None of them may run commands,
  use the network or touch the repository history; none may write or delete without asking, and only
  the coder may ask; every one may read and has a positive step budget.\<close>

theorem standard_registry_least_privilege:
  "profiles make_registry = [coder, explorer, planner, reviewer] \<and>
   map ap_id (profiles make_registry) = [''coder'', ''explorer'', ''planner'', ''reviewer''] \<and>
   list_all (\<lambda>p. decision_for (ap_permissions p) Read_file = Allow \<and> 0 < ap_max_steps p \<and>
     list_all (\<lambda>op. decision_for (ap_permissions p) op = Deny) [Run_command, Network, Git_commit, Git_push] \<and>
     list_all (\<lambda>op. decision_for (ap_permissions p) op =
       (if ap_id p = ''coder'' then Ask_user else Deny)) [Write_file, Delete_file])
     (profiles make_registry)"
  by (simp add: make_registry_eq profiles_def standard_defs decision_for_def less_operation_class_def)

end
