(* ===== verification/Orchestrator.thy ===== *)
theory Orchestrator
  imports Runtime
begin

text \<open>
  The fixed workflow of four agents, \<^verbatim>\<open>agent/agent_orchestrator.cpp\<close>: preflight checks, one
  fresh runtime per stage, the artifacts that cross from stage to stage, the host callbacks between
  stages, cancellation, and the execution of a single agent. The atomics and the pointer of the
  orchestrator are the first component of the world; the runtimes, their factory and the callbacks
  act on the whole of it, and \<open>env\<close> is what other threads do before a load of the cancellation flag.
\<close>

section \<open>Data\<close>

record orchestration_task =
  ot_id :: string
  ot_objective :: string
  ot_working_directory :: string
  ot_initial_artifacts :: "context_artifact list"
  ot_constraints :: task_constraints
  ot_max_agent_runs :: nat

definition orchestration_valid :: "orchestration_task \<Rightarrow> bool" where
  "orchestration_valid task \<longleftrightarrow>
     \<not> only_blanks (ot_id task) \<and> \<not> only_blanks (ot_objective task) \<and> ot_working_directory task \<noteq> [] \<and>
     ot_max_agent_runs task > 0 \<and>
     (tk_max_steps (ot_constraints task) = None \<or> the (tk_max_steps (ot_constraints task)) > 0)"

datatype orch_status = Orch_completed | Orch_failed | Orch_cancelled | Orch_continuation_declined
  | Orch_needs_input | Orch_needs_confirmation

datatype continuation_decision = Proceed | Decline | Cancel_decision

record execution_record =
  er_profile_id :: string
  er_result :: agent_result

record orchestration_error =
  oe_code :: string
  oe_message :: string
  oe_profile_id :: string

record orchestration_result =
  or_status :: orch_status
  or_summary :: string
  or_executions :: "execution_record list"
  or_artifacts :: "context_artifact list"
  or_error :: "orchestration_error option"

definition empty_workflow :: orchestration_result where
  "empty_workflow = \<lparr>or_status = Orch_failed, or_summary = [], or_executions = [], or_artifacts = [], or_error = None\<rparr>"

text \<open>\<^verbatim>\<open>IAgentRuntime\<close> and the factory of runtimes.\<close>

record 'w iruntime =
  ir_execute :: "agent_context \<Rightarrow> 'w stream_callbacks \<Rightarrow> 'w confirmation_fn \<Rightarrow> ('w, agent_result) act"
  ir_cancel :: "('w, unit) act"

type_synonym 'w runtime_factory = "(agent_profile \<Rightarrow> ('w, 'w iruntime option) act) option"

record 'w orchestration_callbacks =
  oc_on_stage_started :: "(string \<Rightarrow> ('w, unit) act) option"
  oc_on_stage_finished :: "(string \<Rightarrow> agent_result \<Rightarrow> ('w, unit) act) option"
  oc_before_next_stage :: "(string \<Rightarrow> agent_result \<Rightarrow> context_artifact \<Rightarrow> ('w, continuation_decision) act) option"
  oc_runtime :: "'w stream_callbacks"

record orch_vars =
  ov_executing :: bool
  ov_cancel_requested :: bool
  ov_active :: bool

type_synonym 'h oworld = "orch_vars \<times> 'h"

record 'w orchestrator =
  oo_registry :: agent_registry
  oo_factory :: "'w runtime_factory"

section \<open>Pure steps\<close>

definition stages :: "(string \<times> artifact_type) list" where
  "stages = [(''explorer'', Exploration_report), (''planner'', Implementation_plan),
             (''coder'', Change_summary), (''reviewer'', Review_report)]"

definition preflight_failure :: "string \<Rightarrow> string \<Rightarrow> orchestration_result" where
  "preflight_failure code message = empty_workflow\<lparr>or_status := Orch_failed, or_summary := message,
     or_error := Some \<lparr>oe_code = code, oe_message = message, oe_profile_id = []\<rparr>\<rparr>"

definition agent_failure :: "string \<Rightarrow> string \<Rightarrow> agent_result" where
  "agent_failure code message = \<lparr>ar_status = Failed, ar_summary = message, ar_artifacts = [],
     ar_error = Some \<lparr>ae_code = code, ae_message = message\<rparr>\<rparr>"

fun orchestration_status :: "agent_status \<Rightarrow> orch_status" where
  "orchestration_status Completed = Orch_completed"
| "orchestration_status Failed = Orch_failed"
| "orchestration_status Cancelled_status = Orch_cancelled"
| "orchestration_status Needs_input = Orch_needs_input"
| "orchestration_status Needs_confirmation = Orch_needs_confirmation"

definition user_request :: "orchestration_task \<Rightarrow> context_artifact" where
  "user_request task = \<lparr>ca_type = User_request, ca_producer = ''user'', ca_content = ot_objective task\<rparr>"

definition stage_includes :: "string \<Rightarrow> context_artifact \<Rightarrow> bool" where
  "stage_includes pid artifact \<longleftrightarrow>
     pid = ''planner'' \<and> ca_type artifact = Exploration_report \<or>
     pid = ''coder'' \<and> (ca_type artifact = Exploration_report \<or> ca_type artifact = Implementation_plan) \<or>
     pid = ''reviewer'' \<and> (ca_type artifact = Implementation_plan \<or> ca_type artifact = Change_summary
       \<or> ca_type artifact = Test_result)"

definition artifacts_for_stage ::
    "string \<Rightarrow> context_artifact list \<Rightarrow> context_artifact list \<Rightarrow> context_artifact list" where
  "artifacts_for_stage pid initial produced =
     (let scoped = (if pid = ''explorer'' \<or> pid = ''planner'' then initial else []);
          scoped = scoped @ filter (stage_includes pid) produced
      in if pid = ''reviewer'' then scoped @ filter (\<lambda>a. ca_type a = Test_result) initial else scoped)"

definition stage_context ::
    "orchestration_task \<Rightarrow> string \<Rightarrow> agent_profile \<Rightarrow> context_artifact list \<Rightarrow> agent_context" where
  "stage_context task pid profile produced =
     \<lparr>ac_profile = profile,
      ac_task = \<lparr>at_id = ot_id task @ '':'' @ pid, at_objective = ot_objective task,
        at_working_directory = ot_working_directory task, at_inputs = [user_request task],
        at_constraints = ot_constraints task\<rparr>,
      ac_artifacts = artifacts_for_stage pid (ot_initial_artifacts task) produced\<rparr>"

text \<open>The artifacts a completed stage adds to the workflow.\<close>

definition stage_outputs :: "string \<times> artifact_type \<Rightarrow> agent_result \<Rightarrow> context_artifact list" where
  "stage_outputs stage result =
     \<lparr>ca_type = snd stage, ca_producer = fst stage, ca_content = ar_summary result\<rparr>
     # filter (\<lambda>a. ca_type a = Test_result) (ar_artifacts result)"

definition stop_with ::
    "orchestration_result \<Rightarrow> orch_status \<Rightarrow> string \<Rightarrow> orchestration_error option \<Rightarrow> orchestration_result" where
  "stop_with flow status summary err = flow\<lparr>or_status := status, or_summary := summary, or_error := err\<rparr>"

definition stage_error :: "string \<Rightarrow> string \<Rightarrow> string \<Rightarrow> orchestration_error option" where
  "stage_error code message pid = Some \<lparr>oe_code = code, oe_message = message, oe_profile_id = pid\<rparr>"

text \<open>What the workflow reports when a stage did not complete.\<close>

definition incomplete_stage :: "orchestration_result \<Rightarrow> string \<Rightarrow> agent_result \<Rightarrow> orchestration_result" where
  "incomplete_stage flow pid result =
     (let e = (case ar_error result of Some e \<Rightarrow> e
               | None \<Rightarrow> \<lparr>ae_code = ''stage_incomplete'', ae_message = ar_summary result\<rparr>)
      in stop_with flow (orchestration_status (ar_status result)) (ar_summary result)
           (stage_error (ae_code e) (ae_message e) pid))"

section \<open>The workflow\<close>

definition set_orch :: "(orch_vars \<Rightarrow> orch_vars) \<Rightarrow> ('h oworld, unit) act" where
  "set_orch f = modifyA (\<lambda>(v, h). (f v, h))"

definition load_cancel :: "('h oworld \<Rightarrow> 'h oworld) \<Rightarrow> ('h oworld, bool) act" where
  "load_cancel env = (\<lambda>w. let w1 = env w in (Ret (ov_cancel_requested (fst w1)), w1))"

definition cancelled_workflow :: "orchestration_result \<Rightarrow> orchestration_result" where
  "cancelled_workflow flow = stop_with flow Orch_cancelled ''Workflow cancelled.'' (or_error flow)"

text \<open>
  The block that announces and executes a stage: the result, or \<open>None\<close> when the flag was set after the
  announcement. An exception counts as a failed stage.
\<close>

definition execute_stage ::
    "('h oworld \<Rightarrow> 'h oworld) \<Rightarrow> 'h oworld orchestration_callbacks \<Rightarrow> 'h oworld confirmation_fn \<Rightarrow> string \<Rightarrow>
     'h oworld iruntime \<Rightarrow> agent_context \<Rightarrow> ('h oworld, agent_result option) act" where
  "execute_stage env callbacks confirm pid runtime ctxt =
     bindA (set_orch (\<lambda>v. v\<lparr>ov_active := True\<rparr>)) (\<lambda>_.
     bindA
       (try_any
         (bindA (call_opt (oc_on_stage_started callbacks) pid) (\<lambda>_.
          bindA (load_cancel env) (\<lambda>c.
            if c then ret None
            else bindA (ir_execute runtime ctxt (oc_runtime callbacks) confirm) (\<lambda>result. ret (Some result)))))
         (ret (Some (agent_failure ''orchestration_exception'' ''Agent runtime or orchestration callback failed.''))))
       (\<lambda>result.
     bindA (set_orch (\<lambda>v. v\<lparr>ov_active := False\<rparr>)) (\<lambda>_. ret result)))"

text \<open>A callback whose exception becomes \<open>None\<close>.\<close>

definition guarded_call :: "('w, 'a) act \<Rightarrow> ('w, 'a option) act" where
  "guarded_call m = try_any (bindA m (\<lambda>a. ret (Some a))) (ret None)"

definition call_finished ::
    "'w orchestration_callbacks \<Rightarrow> string \<Rightarrow> agent_result \<Rightarrow> ('w, unit) act" where
  "call_finished callbacks pid result =
     (case oc_on_stage_finished callbacks of None \<Rightarrow> ret () | Some f \<Rightarrow> f pid result)"

text \<open>
  What follows the execution of a stage. The result is the workflow so far and whether it goes on;
  \<open>last_stage\<close> tells whether a stage follows.
\<close>

definition finish_stage ::
    "('h oworld \<Rightarrow> 'h oworld) \<Rightarrow> 'h oworld orchestration_callbacks \<Rightarrow> bool \<Rightarrow> string \<times> artifact_type \<Rightarrow>
     agent_result \<Rightarrow> orchestration_result \<Rightarrow> ('h oworld, bool \<times> orchestration_result) act" where
  "finish_stage env callbacks last_stage stage result flow0 =
     (let pid = fst stage;
          flow = flow0\<lparr>or_executions := or_executions flow0 @ [\<lparr>er_profile_id = pid, er_result = result\<rparr>]\<rparr>
      in
      bindA (guarded_call (call_finished callbacks pid result)) (\<lambda>finished.
        if finished = None then
          ret (False, stop_with flow Orch_failed ''Orchestration stage callback failed.''
            (stage_error ''orchestration_callback_failed'' ''Orchestration stage callback failed.'' pid))
        else
          bindA (load_cancel env) (\<lambda>c.
            if c \<or> ar_status result = Cancelled_status then
              ret (False, stop_with flow Orch_cancelled
                (if ar_summary result = [] then ''Workflow cancelled.'' else ar_summary result) (or_error flow))
            else if ar_status result \<noteq> Completed then ret (False, incomplete_stage flow pid result)
            else
              (let flow = flow\<lparr>or_artifacts := or_artifacts flow @ stage_outputs stage result\<rparr> in
               case (if last_stage then None else oc_before_next_stage callbacks) of
                 None \<Rightarrow> ret (True, flow)
               | Some before \<Rightarrow>
                   bindA (guarded_call (before pid result (hd (stage_outputs stage result)))) (\<lambda>decision.
                     case decision of
                       None \<Rightarrow> ret (False, stop_with flow Orch_failed ''Orchestration continuation callback failed.''
                         (stage_error ''orchestration_callback_failed'' ''Orchestration continuation callback failed.'' pid))
                     | Some d \<Rightarrow>
                         bindA (load_cancel env) (\<lambda>c.
                           if c \<or> d = Cancel_decision then ret (False, cancelled_workflow flow)
                           else if d = Decline then
                             ret (False, stop_with flow Orch_continuation_declined ''Workflow continuation declined.''
                               (or_error flow))
                           else ret (True, flow)))))))"

fun run_stages ::
    "('h oworld \<Rightarrow> 'h oworld) \<Rightarrow> (agent_profile \<Rightarrow> ('h oworld, 'h oworld iruntime option) act) \<Rightarrow>
     orchestration_task \<Rightarrow> 'h oworld orchestration_callbacks \<Rightarrow> 'h oworld confirmation_fn \<Rightarrow>
     ((string \<times> artifact_type) \<times> agent_profile) list \<Rightarrow> orchestration_result \<Rightarrow>
     ('h oworld, orchestration_result) act" where
  "run_stages env factory task callbacks confirm [] flow =
     ret (stop_with flow Orch_completed (ar_summary (er_result (last (or_executions flow)))) (or_error flow))"
| "run_stages env factory task callbacks confirm ((stage, profile) # rest) flow =
     (let pid = fst stage in
      bindA (load_cancel env) (\<lambda>c.
        if c then ret (cancelled_workflow flow)
        else
          bindA (guarded_call (factory profile)) (\<lambda>built.
            case built of
              None \<Rightarrow> ret (stop_with flow Orch_failed ''Agent runtime construction failed.''
                (stage_error ''runtime_factory_failed'' ''Agent runtime construction failed.'' pid))
            | Some None \<Rightarrow> ret (stop_with flow Orch_failed ''Agent runtime factory returned no runtime.''
                (stage_error ''runtime_factory_failed'' ''Agent runtime factory returned no runtime.'' pid))
            | Some (Some runtime) \<Rightarrow>
                bindA (execute_stage env callbacks confirm pid runtime
                        (stage_context task pid profile (or_artifacts flow))) (\<lambda>result.
                  case result of
                    None \<Rightarrow> ret (cancelled_workflow flow)
                  | Some result \<Rightarrow>
                      bindA (finish_stage env callbacks (rest = []) stage result flow) (\<lambda>(go, flow).
                        if go then run_stages env factory task callbacks confirm rest flow else ret flow)))))"

text \<open>The profiles of the stages, or the id of the first one that is not registered.\<close>

fun stage_profiles ::
    "agent_registry \<Rightarrow> (string \<times> artifact_type) list \<Rightarrow> string + ((string \<times> artifact_type) \<times> agent_profile) list" where
  "stage_profiles reg [] = Inr []"
| "stage_profiles reg (stage # rest) =
     (case find_profile reg (fst stage) of
        None \<Rightarrow> Inl (fst stage)
      | Some profile \<Rightarrow>
          (case stage_profiles reg rest of
             Inl pid \<Rightarrow> Inl pid
           | Inr ps \<Rightarrow> Inr ((stage, profile) # ps)))"

definition run_workflow ::
    "('h oworld \<Rightarrow> 'h oworld) \<Rightarrow> 'h oworld orchestrator \<Rightarrow> orchestration_task \<Rightarrow>
     'h oworld orchestration_callbacks \<Rightarrow> 'h oworld confirmation_fn \<Rightarrow> ('h oworld, orchestration_result) act" where
  "run_workflow env orch task callbacks confirm =
     (if \<not> orchestration_valid task then
        ret (preflight_failure ''invalid_orchestration_task''
          ''Orchestration requires an ID, objective, working directory and positive budgets.'')
      else
        (case oo_factory orch of
           None \<Rightarrow> ret (preflight_failure ''missing_runtime_factory'' ''An agent runtime factory is required.'')
         | Some factory \<Rightarrow>
             if ot_max_agent_runs task < length stages then
               ret (preflight_failure ''agent_run_budget_exhausted'' ''The workflow requires four agent runs.'')
             else
               (case stage_profiles (oo_registry orch) stages of
                  Inl pid \<Rightarrow> ret (preflight_failure ''missing_standard_profile''
                    (''A required standard agent profile is missing: '' @ pid))
                | Inr staged \<Rightarrow> run_stages env factory task callbacks confirm staged empty_workflow)))"

text \<open>The guard of the member \<^verbatim>\<open>executing_\<close>, shared by the two entry points.\<close>

definition exclusively :: "'a \<Rightarrow> ('h oworld, 'a) act \<Rightarrow> ('h oworld, 'a) act" where
  "exclusively busy_result m =
     bindA (readA (\<lambda>(v, h). ov_executing v)) (\<lambda>busy.
     bindA (set_orch (\<lambda>v. v\<lparr>ov_executing := True\<rparr>)) (\<lambda>_.
       if busy then ret busy_result
       else
         finallyA (bindA (set_orch (\<lambda>v. v\<lparr>ov_cancel_requested := False\<rparr>)) (\<lambda>_. m))
           (\<lambda>(v, h). (v\<lparr>ov_executing := False\<rparr>, h))))"

definition orchestrator_execute ::
    "('h oworld \<Rightarrow> 'h oworld) \<Rightarrow> 'h oworld orchestrator \<Rightarrow> orchestration_task \<Rightarrow>
     'h oworld orchestration_callbacks \<Rightarrow> 'h oworld confirmation_fn \<Rightarrow> ('h oworld, orchestration_result) act" where
  "orchestrator_execute env orch task callbacks confirm =
     exclusively (preflight_failure ''orchestrator_busy'' ''An orchestration workflow is already running.'')
       (run_workflow env orch task callbacks confirm)"

section \<open>A single agent\<close>

definition run_agent ::
    "('h oworld \<Rightarrow> 'h oworld) \<Rightarrow> 'h oworld orchestrator \<Rightarrow> string \<Rightarrow> agent_task \<Rightarrow> 'h oworld stream_callbacks \<Rightarrow>
     'h oworld confirmation_fn \<Rightarrow> ('h oworld, agent_result) act" where
  "run_agent env orch pid task callbacks confirm =
     (if \<not> task_valid task then
        ret (agent_failure ''invalid_agent_task''
          ''Agent execution requires an ID, objective, working directory and positive budget.'')
      else
        (case oo_factory orch of
           None \<Rightarrow> ret (agent_failure ''missing_runtime_factory'' ''An agent runtime factory is required.'')
         | Some factory \<Rightarrow>
             (case find_profile (oo_registry orch) pid of
                None \<Rightarrow> ret (agent_failure ''unknown_agent_profile'' ''The requested agent profile is not registered.'')
              | Some profile \<Rightarrow>
                  bindA (guarded_call (factory profile)) (\<lambda>built.
                    case built of
                      None \<Rightarrow> ret (agent_failure ''runtime_factory_failed'' ''Agent runtime construction failed.'')
                    | Some None \<Rightarrow> ret (agent_failure ''runtime_factory_failed'' ''Agent runtime factory returned no runtime.'')
                    | Some (Some runtime) \<Rightarrow>
                        bindA (set_orch (\<lambda>v. v\<lparr>ov_active := True\<rparr>)) (\<lambda>_.
                        bindA
                          (try_any
                            (bindA (load_cancel env) (\<lambda>c.
                              if c then ret \<lparr>ar_status = Cancelled_status, ar_summary = ''Execution cancelled.'',
                                             ar_artifacts = [], ar_error = None\<rparr>
                              else ir_execute runtime
                                \<lparr>ac_profile = profile, ac_task = task, ac_artifacts = []\<rparr> callbacks confirm))
                            (ret (agent_failure ''execution_exception'' ''Agent runtime execution failed.'')))
                          (\<lambda>result.
                        bindA (set_orch (\<lambda>v. v\<lparr>ov_active := False\<rparr>)) (\<lambda>_.
                        bindA (load_cancel env) (\<lambda>c.
                          if c \<or> ar_status result = Cancelled_status then
                            ret \<lparr>ar_status = Cancelled_status,
                                 ar_summary = (if ar_summary result = [] then ''Execution cancelled.'' else ar_summary result),
                                 ar_artifacts = ar_artifacts result, ar_error = None\<rparr>
                          else ret result))))))))"

definition orchestrator_execute_agent ::
    "('h oworld \<Rightarrow> 'h oworld) \<Rightarrow> 'h oworld orchestrator \<Rightarrow> string \<Rightarrow> agent_task \<Rightarrow> 'h oworld stream_callbacks \<Rightarrow>
     'h oworld confirmation_fn \<Rightarrow> ('h oworld, agent_result) act" where
  "orchestrator_execute_agent env orch pid task callbacks confirm =
     exclusively (agent_failure ''orchestrator_busy'' ''An agent execution is already running.'')
       (run_agent env orch pid task callbacks confirm)"

text \<open>\<^verbatim>\<open>cancel_active_execution\<close>; \<open>cancel_runtime\<close> is the \<^verbatim>\<open>cancel_active_request\<close> of the active runtime.\<close>

definition orchestrator_cancel :: "('h oworld, unit) act \<Rightarrow> ('h oworld, unit) act" where
  "orchestrator_cancel cancel_runtime =
     bindA (set_orch (\<lambda>v. v\<lparr>ov_cancel_requested := True\<rparr>)) (\<lambda>_.
     bindA (readA (\<lambda>(v, h). ov_active v)) (\<lambda>active. if active then cancel_runtime else ret ()))"

section \<open>The shape of a workflow\<close>

text \<open>After the stages \<open>past\<close> completed, and at the end of a workflow of the stages \<open>S\<close>.\<close>

definition progress :: "(string \<times> artifact_type) list \<Rightarrow> orchestration_result \<Rightarrow> bool" where
  "progress past flow \<longleftrightarrow>
     map er_profile_id (or_executions flow) = map fst past \<and>
     list_all (\<lambda>r. ar_status (er_result r) = Completed) (or_executions flow) \<and>
     or_artifacts flow = concat (map2 stage_outputs past (map er_result (or_executions flow)))"

text \<open>
  The stages executed are a prefix of \<open>S\<close>; the first \<open>m\<close> of them, all but possibly the last one,
  completed and are exactly those whose outputs are the artifacts of the workflow.
\<close>

definition workflow_shape :: "(string \<times> artifact_type) list \<Rightarrow> orchestration_result \<Rightarrow> bool" where
  "workflow_shape S flow \<longleftrightarrow>
     (let runs = or_executions flow in
      map er_profile_id runs = map fst (take (length runs) S) \<and>
      (\<exists>m. m \<le> length runs \<and> length runs \<le> Suc m \<and>
        list_all (\<lambda>r. ar_status (er_result r) = Completed) (take m runs) \<and>
        or_artifacts flow = concat (map2 stage_outputs S (map er_result (take m runs)))))"

lemma progress_length: "progress past flow \<Longrightarrow> length (or_executions flow) = length past"
  unfolding progress_def using map_eq_imp_length_eq by fastforce

lemma progress_shape:
  assumes "progress past flow"
  shows "workflow_shape (past @ rest) flow"
  unfolding workflow_shape_def Let_def
  using assms progress_length [OF assms]
  by (auto simp: progress_def zip_append1 intro!: exI [of _ "length past"])

lemma stop_with_fields [simp]:
  "or_status (stop_with flow st m e) = st" "or_summary (stop_with flow st m e) = m"
  "or_error (stop_with flow st m e) = e" "or_executions (stop_with flow st m e) = or_executions flow"
  "or_artifacts (stop_with flow st m e) = or_artifacts flow"
  by (simp_all add: stop_with_def)

lemma orchestration_status_completed [simp]: "orchestration_status st = Orch_completed \<longleftrightarrow> st = Completed"
  by (cases st) simp_all

lemma shape_stop_with [simp]: "workflow_shape S (stop_with flow st m e) \<longleftrightarrow> workflow_shape S flow"
  by (simp add: workflow_shape_def stop_with_def)

lemma progress_add:
  assumes "progress past flow" and "ar_status result = Completed"
  shows "progress (past @ [stage]) (flow\<lparr>or_executions := or_executions flow @ [\<lparr>er_profile_id = fst stage, er_result = result\<rparr>],
    or_artifacts := or_artifacts flow @ stage_outputs stage result\<rparr>)"
  using assms progress_length [OF assms(1)] by (simp add: progress_def)

lemma shape_add:
  assumes "progress past flow"
  shows "workflow_shape (past @ stage # rest)
    (flow\<lparr>or_executions := or_executions flow @ [\<lparr>er_profile_id = fst stage, er_result = result\<rparr>]\<rparr>)"
  unfolding workflow_shape_def Let_def
  using assms progress_length [OF assms]
  by (auto simp: progress_def zip_append1 intro!: exI [of _ "length past"])

definition orch_cancelled :: "'h oworld \<Rightarrow> bool" where
  "orch_cancelled w \<longleftrightarrow> ov_cancel_requested (fst w)"

lemma load_cancel_result: "load_cancel env w = (Ret c, w1) \<Longrightarrow> c = orch_cancelled w1"
  by (auto simp: load_cancel_def Let_def orch_cancelled_def)

lemma finish_stage_result:
  assumes run: "finish_stage env callbacks lst stage result flow w = (Ret (go, flow'), w1)" and "progress past flow"
  shows "if go then progress (past @ [stage]) flow' \<and> \<not> orch_cancelled w1
    else workflow_shape (past @ stage # rest) flow' \<and> or_status flow' \<noteq> Orch_completed"
proof -
  note add = progress_add [OF assms(2), of result stage] shape_add [OF assms(2), of stage rest result]
    progress_shape [OF progress_add [OF assms(2), of result stage], of rest, simplified]
  show ?thesis
    using run
    by (auto simp: finish_stage_def Let_def shape_stop_with add incomplete_stage_def cancelled_workflow_def
        dest!: load_cancel_result elim!: bindA_RetE split: if_splits option.splits)
qed

lemma shape_cancelled [simp]: "workflow_shape S (cancelled_workflow flow) \<longleftrightarrow> workflow_shape S flow"
  and status_cancelled [simp]: "or_status (cancelled_workflow flow) = Orch_cancelled"
  by (simp_all add: cancelled_workflow_def)

text \<open>The result of the loop over the stages, from a workflow in which the stages \<open>past\<close> completed.\<close>

definition workflow_done :: "(string \<times> artifact_type) list \<Rightarrow> orchestration_result \<Rightarrow> bool" where
  "workflow_done S flow \<longleftrightarrow> progress S flow \<and> or_summary flow = ar_summary (er_result (last (or_executions flow)))"

lemma run_stages_result:
  assumes "run_stages env factory task callbacks confirm staged flow w = (Ret flow', w1)"
    and "progress past flow" and "staged = [] \<Longrightarrow> \<not> orch_cancelled w"
  shows "workflow_shape (past @ map fst staged) flow' \<and>
    (or_status flow' = Orch_completed \<longrightarrow> workflow_done (past @ map fst staged) flow' \<and> \<not> orch_cancelled w1)"
  using assms
proof (induction staged arbitrary: past flow w)
  case Nil
  then show ?case
    using progress_shape [OF Nil.prems(2), of "[]"] by (auto simp: workflow_done_def progress_def)
next
  case (Cons sp rest)
  obtain stage profile where sp: "sp = (stage, profile)" by (cases sp)
  note shape = progress_shape [OF Cons.prems(2), of "stage # map fst rest"]
  from Cons.prems(1) sp consider
      (stopped) "workflow_shape (past @ stage # map fst rest) flow'" "or_status flow' \<noteq> Orch_completed"
    | (ran) result w2 go flow2 w3 where
        "finish_stage env callbacks (rest = []) stage result flow w2 = (Ret (go, flow2), w3)"
        "(if go then run_stages env factory task callbacks confirm rest flow2 else ret flow2) w3 = (Ret flow', w1)"
    using shape by (auto simp: Let_def elim!: bindA_RetE split: if_splits option.splits)
  then show ?case
  proof cases
    case stopped
    with sp show ?thesis by simp
  next
    case ran
    note fin = finish_stage_result [OF ran(1) Cons.prems(2), of "map fst rest"]
    show ?thesis
    proof (cases go)
      case True
      with fin have p: "progress (past @ [stage]) flow2" "\<not> orch_cancelled w3" by auto
      from True ran(2) have "run_stages env factory task callbacks confirm rest flow2 w3 = (Ret flow', w1)" by simp
      from Cons.IH [OF this p(1)] p(2) sp show ?thesis by simp
    next
      case False
      with fin ran(2) sp show ?thesis by auto
    qed
  qed
qed

lemma stage_profiles_fst: "stage_profiles reg S = Inr staged \<Longrightarrow> map fst staged = S"
  by (induction S arbitrary: staged) (auto split: option.splits sum.splits)

lemma progress_empty: "progress [] empty_workflow"
  by (simp add: progress_def empty_workflow_def)

lemma shape_preflight: "workflow_shape S (preflight_failure code m)" "or_status (preflight_failure code m) \<noteq> Orch_completed"
  by (auto simp: workflow_shape_def preflight_failure_def empty_workflow_def)

lemma run_workflow_result:
  assumes "run_workflow env orch task callbacks confirm w = (Ret flow, w1)"
  shows "workflow_shape stages flow \<and>
    (or_status flow = Orch_completed \<longrightarrow> workflow_done stages flow \<and> \<not> orch_cancelled w1)"
proof -
  from assms consider (early) "\<exists>code m. flow = preflight_failure code m"
    | (ran) factory staged where "stage_profiles (oo_registry orch) stages = Inr staged"
        "run_stages env factory task callbacks confirm staged empty_workflow w = (Ret flow, w1)"
    by (auto simp: run_workflow_def split: if_splits option.splits sum.splits)
  then show ?thesis
  proof cases
    case early
    then show ?thesis using shape_preflight by fastforce
  next
    case ran
    note S = stage_profiles_fst [OF ran(1)]
    have "staged \<noteq> []" using S by (auto simp: stages_def)
    with run_stages_result [OF ran(2) progress_empty] S show ?thesis by simp
  qed
qed

lemma exclusively_cases:
  assumes "exclusively busy m (v, h) = (r, (v1, h1))"
  obtains (busy) "ov_executing v" "r = Ret busy" "v1 = v" "h1 = h"
  | (ran) v2 where "\<not> ov_executing v" "m (v\<lparr>ov_executing := True, ov_cancel_requested := False\<rparr>, h) = (r, (v2, h1))"
      "v1 = v2\<lparr>ov_executing := False\<rparr>"
proof (cases "ov_executing v")
  case True
  with assms show ?thesis by (intro busy) (auto simp: exclusively_def set_orch_def)
next
  case False
  with assms show ?thesis
    by (intro ran [of "fst (snd (m (v\<lparr>ov_executing := True, ov_cancel_requested := False\<rparr>, h)))"])
      (auto simp: exclusively_def set_orch_def finallyA_def split: prod.splits)
qed

section \<open>Exceptions\<close>

definition no_throw :: "('w, 'a) act \<Rightarrow> bool" where
  "no_throw m \<longleftrightarrow> (\<forall>w e. fst (m w) \<noteq> Throw e)"

lemma no_throw_ret [simp]: "no_throw (ret a)"
  by (simp add: no_throw_def)

lemma no_throw_load [simp]: "no_throw (load_cancel env)"
  and no_throw_set [simp]: "no_throw (set_orch f)"
  by (simp_all add: no_throw_def load_cancel_def set_orch_def Let_def)

lemma no_throw_try_any: "no_throw h \<Longrightarrow> no_throw (try_any m h)"
  unfolding no_throw_def try_any_def by (auto split: prod.splits outcome.splits)

lemma no_throw_guarded [simp]: "no_throw (guarded_call m)"
  unfolding guarded_call_def by (rule no_throw_try_any) simp

lemma no_throw_bindA: "no_throw m \<Longrightarrow> (\<And>a. no_throw (k a)) \<Longrightarrow> no_throw (bindA m k)"
  unfolding no_throw_def bindA_def by (auto split: prod.splits outcome.splits) (metis fst_conv)+

lemma no_throw_if: "no_throw m \<Longrightarrow> no_throw n \<Longrightarrow> no_throw (if b then m else n)"
  by simp

lemma no_throw_execute_stage: "no_throw (execute_stage env callbacks confirm pid runtime ctxt)"
  unfolding execute_stage_def by (intro no_throw_bindA no_throw_set no_throw_try_any no_throw_ret)

lemma no_throw_finish_stage: "no_throw (finish_stage env callbacks lst stage result flow)"
  unfolding finish_stage_def Let_def
  by (auto intro!: no_throw_bindA simp del: ret_apply split: option.splits)

lemma no_throw_run_stages: "no_throw (run_stages env factory task callbacks confirm staged flow)"
proof (induction staged arbitrary: flow)
  case (Cons sp rest)
  then show ?case
    by (cases sp)
      (auto simp: Let_def simp del: ret_apply split: option.splits
        intro!: no_throw_bindA no_throw_execute_stage no_throw_finish_stage)
qed (simp del: ret_apply)

lemma no_throw_run_workflow: "no_throw (run_workflow env orch task callbacks confirm)"
  unfolding run_workflow_def
  by (auto simp del: ret_apply split: option.splits sum.splits intro: no_throw_run_stages)

lemma no_throw_run_agent: "no_throw (run_agent env orch pid task callbacks confirm)"
  unfolding run_agent_def
  by (auto simp del: ret_apply split: option.splits intro!: no_throw_bindA no_throw_try_any)

lemma run_agent_completed:
  assumes "run_agent env orch pid task callbacks confirm w = (Ret a, w1)" and "ar_status a = Completed"
  shows "\<not> orch_cancelled w1"
  using assms
  by (auto simp: run_agent_def agent_failure_def dest!: load_cancel_result elim!: bindA_RetE
      split: if_splits option.splits)

section \<open>What a stage may see\<close>

fun may_see :: "string \<Rightarrow> context_artifact list \<Rightarrow> context_artifact \<Rightarrow> bool" where
  "may_see pid initial a =
     (if pid = ''explorer'' then a \<in> set initial
      else if pid = ''planner'' then a \<in> set initial \<or> ca_type a = Exploration_report
      else if pid = ''coder'' then ca_type a \<in> {Exploration_report, Implementation_plan}
      else ca_type a \<in> {Implementation_plan, Change_summary, Test_result})"

text \<open>A context one of the stages may be given for a task.\<close>

definition in_scope :: "orchestration_task \<Rightarrow> agent_context \<Rightarrow> bool" where
  "in_scope task ctxt \<longleftrightarrow>
     list_ex (\<lambda>pid. at_id (ac_task ctxt) = ot_id task @ '':'' @ pid \<and>
         list_all (may_see pid (ot_initial_artifacts task)) (ac_artifacts ctxt)) (map fst stages) \<and>
     at_inputs (ac_task ctxt) = [user_request task] \<and> at_objective (ac_task ctxt) = ot_objective task \<and>
     at_working_directory (ac_task ctxt) = ot_working_directory task \<and>
     at_constraints (ac_task ctxt) = ot_constraints task"

lemma stage_context_in_scope:
  assumes "pid \<in> set (map fst stages)"
  shows "in_scope task (stage_context task pid profile produced)"
  using assms
  by (auto simp: in_scope_def stage_context_def list_all_iff list_ex_iff artifacts_for_stage_def stage_includes_def
      stages_def Let_def)

text \<open>Runtimes for which any other context is undefined behaviour.\<close>

definition guard_runtime :: "(agent_context \<Rightarrow> bool) \<Rightarrow> 'w iruntime \<Rightarrow> 'w iruntime" where
  "guard_runtime ok rt = rt\<lparr>ir_execute := (\<lambda>ctxt callbacks confirm w.
     if ok ctxt then ir_execute rt ctxt callbacks confirm w else (Undef, w))\<rparr>"

definition guard_factory ::
    "(agent_context \<Rightarrow> bool) \<Rightarrow> (agent_profile \<Rightarrow> ('w, 'w iruntime option) act) \<Rightarrow>
     agent_profile \<Rightarrow> ('w, 'w iruntime option) act" where
  "guard_factory ok factory profile = bindA (factory profile) (\<lambda>rt. ret (map_option (guard_runtime ok) rt))"

lemma guarded_call_bind:
  "bindA (guarded_call (bindA m (\<lambda>a. ret (f a)))) k = bindA (guarded_call m) (\<lambda>r. k (map_option f r))"
  by (auto simp: guarded_call_def try_any_def bindA_def fun_eq_iff split: prod.splits outcome.splits)

lemma execute_stage_guarded:
  "ok ctxt \<Longrightarrow> execute_stage env callbacks confirm pid (guard_runtime ok rt) ctxt =
    execute_stage env callbacks confirm pid rt ctxt"
  by (simp add: execute_stage_def guard_runtime_def fun_eq_iff cong: if_cong)

lemma run_stages_guarded:
  assumes "set (map (fst \<circ> fst) staged) \<subseteq> set (map fst stages)"
  shows "run_stages env (guard_factory (in_scope task) factory) task callbacks confirm staged flow =
    run_stages env factory task callbacks confirm staged flow"
  using assms
proof (induction staged arbitrary: flow)
  case (Cons sp rest)
  obtain stage profile where sp: "sp = (stage, profile)" by (cases sp)
  with Cons.prems have scope: "in_scope task (stage_context task (fst stage) profile produced)" for produced
    by (intro stage_context_in_scope) auto
  have IH: "run_stages env (guard_factory (in_scope task) factory) task callbacks confirm rest flow =
      run_stages env factory task callbacks confirm rest flow" for flow
    using Cons by simp
  show ?case
    unfolding sp run_stages.simps guard_factory_def [of "in_scope task" factory profile] guarded_call_bind IH Let_def
    by (intro arg_cong2 [of _ _ _ _ bindA] refl ext if_cong)
      (auto simp: execute_stage_guarded [where ok = "in_scope task", OF scope] split: option.splits)
qed simp

definition guard_orchestrator :: "(agent_context \<Rightarrow> bool) \<Rightarrow> 'w orchestrator \<Rightarrow> 'w orchestrator" where
  "guard_orchestrator ok orch = orch\<lparr>oo_factory := map_option (guard_factory ok) (oo_factory orch)\<rparr>"

lemma run_workflow_guarded:
  "run_workflow env (guard_orchestrator (in_scope task) orch) task callbacks confirm =
    run_workflow env orch task callbacks confirm"
proof (cases "oo_factory orch")
  case (Some factory)
  have "run_stages env (guard_factory (in_scope task) factory) task callbacks confirm staged flow =
      run_stages env factory task callbacks confirm staged flow"
    if "stage_profiles (oo_registry orch) stages = Inr staged" for staged flow
    using stage_profiles_fst [OF that] by (intro run_stages_guarded) (auto simp flip: map_map)
  with Some show ?thesis
    by (auto simp: run_workflow_def guard_orchestrator_def split: sum.splits)
qed (simp add: run_workflow_def guard_orchestrator_def)

section \<open>Properties\<close>

text \<open>C4: the workflow. Whatever the runtimes, the factory, the callbacks and other threads do, the agents
  that ran are a prefix of explorer, planner, coder, reviewer, each at most once and in this order; no
  agent runs after one that did not complete; the artifacts are exactly the outputs of the completed
  stages whose completion the workflow accepted. It reports completion only when all four agents
  completed and no cancellation is pending, with the summary of the last one.\<close>

theorem workflow_runs_stages_in_order:
  assumes "orchestrator_execute env orch task callbacks confirm (v, h) = (Ret flow, (v1, h1))"
  shows "workflow_shape stages flow \<and>
    (or_status flow = Orch_completed \<longrightarrow> workflow_done stages flow \<and> \<not> ov_cancel_requested v1)"
  using assms unfolding orchestrator_execute_def
proof (cases rule: exclusively_cases)
  case busy
  then show ?thesis using shape_preflight by auto
next
  case (ran v2)
  from run_workflow_result [OF ran(2)] ran(3) show ?thesis by (simp add: orch_cancelled_def)
qed

text \<open>C18: isolation. Every stage of every workflow gets the request of the user and the constraints of the
  task, and only the artifacts it may see: the explorer the initial ones, the planner those and
  exploration reports, the coder reports and plans, the reviewer plans, change summaries and test
  results. Runtimes for which any other context is undefined behaviour give the same workflow.\<close>

theorem stage_contexts_are_scoped:
  "orchestrator_execute env (guard_orchestrator (in_scope task) orch) task callbacks confirm =
   orchestrator_execute env orch task callbacks confirm"
  by (simp add: orchestrator_execute_def run_workflow_guarded)

text \<open>What crosses the stages. With the outputs of the completed stages before it, the planner gets the
  initial artifacts and the exploration report, the coder exactly the report and the plan, and the
  reviewer the plan, the change summary and all test results in the order they were produced, the
  initial ones last.\<close>

theorem stages_receive_outputs:
  "artifacts_for_stage ''explorer'' I [] = I \<and>
   artifacts_for_stage ''planner'' I (stage_outputs (stages ! 0) re) =
     I @ [\<lparr>ca_type = Exploration_report, ca_producer = ''explorer'', ca_content = ar_summary re\<rparr>] \<and>
   artifacts_for_stage ''coder'' I (stage_outputs (stages ! 0) re @ stage_outputs (stages ! 1) rp) =
     [\<lparr>ca_type = Exploration_report, ca_producer = ''explorer'', ca_content = ar_summary re\<rparr>,
      \<lparr>ca_type = Implementation_plan, ca_producer = ''planner'', ca_content = ar_summary rp\<rparr>] \<and>
   artifacts_for_stage ''reviewer'' I
       (stage_outputs (stages ! 0) re @ stage_outputs (stages ! 1) rp @ stage_outputs (stages ! 2) rc) =
     filter (\<lambda>a. ca_type a = Test_result) (ar_artifacts re) @
     [\<lparr>ca_type = Implementation_plan, ca_producer = ''planner'', ca_content = ar_summary rp\<rparr>] @
     filter (\<lambda>a. ca_type a = Test_result) (ar_artifacts rp) @
     [\<lparr>ca_type = Change_summary, ca_producer = ''coder'', ca_content = ar_summary rc\<rparr>] @
     filter (\<lambda>a. ca_type a = Test_result) (ar_artifacts rc @ I)"
proof -
  have inc: "filter (stage_includes pid) (filter (\<lambda>a. ca_type a = Test_result) xs) =
      (if pid = ''reviewer'' then filter (\<lambda>a. ca_type a = Test_result) xs else [])" for pid xs
    by (induction xs) (auto simp: stage_includes_def)
  show ?thesis
    by (simp add: artifacts_for_stage_def stage_outputs_def stages_def inc del: filter_filter)
      (simp add: stage_includes_def)
qed

text \<open>C37: one workflow at a time, and no exception. A call while another one runs is refused and changes
  nothing; every other call, of the workflow or of a single agent, never throws and leaves the
  orchestrator free again.\<close>

theorem orchestrator_is_exclusive:
  assumes "orchestrator_execute env orch task callbacks confirm (v, h) = (r, (v1, h1))"
  shows "(\<forall>e. r \<noteq> Throw e) \<and>
    (if ov_executing v then
       r = Ret (preflight_failure ''orchestrator_busy'' ''An orchestration workflow is already running.'') \<and>
       (v1, h1) = (v, h)
     else \<not> ov_executing v1)"
  using assms unfolding orchestrator_execute_def
proof (cases rule: exclusively_cases)
  case (ran v2)
  have "r \<noteq> Throw e" for e
    using no_throw_run_workflow [of env orch task callbacks confirm] ran(2) unfolding no_throw_def by (metis fst_conv)
  with ran show ?thesis by simp
qed simp

text \<open>A single agent. An execution of one agent never throws and leaves the orchestrator free; a completed
  result means that no cancellation is pending; and for an id nobody registered no runtime is built.\<close>

theorem single_agent_outcome:
  assumes "orchestrator_execute_agent env orch pid task callbacks confirm (v, h) = (r, (v1, h1))"
    and "\<not> ov_executing v"
  shows "\<not> ov_executing v1 \<and> (\<forall>e. r \<noteq> Throw e) \<and>
    (\<forall>a. r = Ret a \<longrightarrow> ar_status a = Completed \<longrightarrow> \<not> ov_cancel_requested v1) \<and>
    (find_profile (oo_registry orch) pid = None \<longrightarrow> (\<exists>c m. r = Ret (agent_failure c m)) \<and> h1 = h)"
  using assms(1) unfolding orchestrator_execute_agent_def
proof (cases rule: exclusively_cases)
  case (ran v2)
  have throw: "r \<noteq> Throw e" for e
    using no_throw_run_agent [of env orch pid task callbacks confirm] ran(2) unfolding no_throw_def by (metis fst_conv)
  have "\<not> ov_cancel_requested v1" if "r = Ret a" "ar_status a = Completed" for a
    using run_agent_completed [of env orch pid task callbacks confirm _ a] ran(2,3) that by (auto simp: orch_cancelled_def)
  moreover have "(\<exists>c m. r = Ret (agent_failure c m)) \<and> h1 = h" if "find_profile (oo_registry orch) pid = None"
    using ran(2) that by (auto simp: run_agent_def split: if_splits option.splits)
  ultimately show ?thesis using throw ran(3) by simp
qed (use assms(2) in simp)

section \<open>Concrete workflows\<close>

text \<open>Runtimes that complete at once; the world of the host counts them.\<close>

definition free_vars :: orch_vars where
  "free_vars = \<lparr>ov_executing = False, ov_cancel_requested = False, ov_active = False\<rparr>"

definition quick_factory :: "agent_profile \<Rightarrow> (nat oworld, nat oworld iruntime option) act" where
  "quick_factory profile = ret (Some \<lparr>
     ir_execute = (\<lambda>_ _ _ (v, n). (Ret \<lparr>ar_status = Completed, ar_summary = ap_id profile, ar_artifacts = [], ar_error = None\<rparr>, (v, Suc n))),
     ir_cancel = ret ()\<rparr>)"

definition quick_orchestrator :: "nat oworld orchestrator" where
  "quick_orchestrator = \<lparr>oo_registry = make_registry, oo_factory = Some quick_factory\<rparr>"

definition quick_callbacks :: "nat oworld orchestration_callbacks" where
  "quick_callbacks = \<lparr>oc_on_stage_started = None, oc_on_stage_finished = None, oc_before_next_stage = None,
     oc_runtime = silent\<rparr>"

definition quick_task :: orchestration_task where
  "quick_task = \<lparr>ot_id = ''t'', ot_objective = ''o'', ot_working_directory = ''/w'', ot_initial_artifacts = [],
     ot_constraints = \<lparr>tk_max_steps = None, tk_read_only = False, tk_notes = []\<rparr>, ot_max_agent_runs = 4\<rparr>"

lemma quick_profiles:
  "stage_profiles make_registry stages =
    Inr [(stages ! 0, explorer), (stages ! 1, planner), (stages ! 2, coder), (stages ! 3, reviewer)]"
  by (simp add: stages_def make_registry_eq find_profile_def)

lemma quick_valid: "orchestration_valid quick_task" "length stages \<le> ot_max_agent_runs quick_task"
  by (simp_all add: orchestration_valid_def quick_task_def only_blanks_def blank_char_def stages_def)

lemmas quick_defs = quick_factory_def quick_callbacks_def execute_stage_def finish_stage_def guarded_call_def
  call_finished_def load_cancel_def set_orch_def try_any_def bindA_def Let_def

theorem workflow_runs_stages_in_order_witness:
  "\<exists>flow v1. orchestrator_execute id quick_orchestrator quick_task quick_callbacks None (free_vars, 0) = (Ret flow, (v1, 4)) \<and>
    map er_profile_id (or_executions flow) = [''explorer'', ''planner'', ''coder'', ''reviewer'']"
proof -
  have "\<exists>flow v1. run_stages id quick_factory quick_task quick_callbacks None
      [(stages ! 0, explorer), (stages ! 1, planner), (stages ! 2, coder), (stages ! 3, reviewer)] empty_workflow
      (free_vars\<lparr>ov_executing := True\<rparr>, 0) = (Ret flow, (v1, 4)) \<and> or_status flow = Orch_completed"
    by (simp add: quick_defs free_vars_def)
  then obtain flow v1 where "run_stages id quick_factory quick_task quick_callbacks None
      [(stages ! 0, explorer), (stages ! 1, planner), (stages ! 2, coder), (stages ! 3, reviewer)] empty_workflow
      (free_vars\<lparr>ov_executing := True\<rparr>, 0) = (Ret flow, (v1, 4))" and status: "or_status flow = Orch_completed" by blast
  then have run: "orchestrator_execute id quick_orchestrator quick_task quick_callbacks None (free_vars, 0) =
      (Ret flow, (v1\<lparr>ov_executing := False\<rparr>, 4))"
    using quick_valid
    by (simp add: orchestrator_execute_def exclusively_def run_workflow_def quick_orchestrator_def quick_profiles
        set_orch_def finallyA_def free_vars_def)
  from workflow_runs_stages_in_order [OF this] status have "workflow_done stages flow" by simp
  with run show ?thesis by (auto simp: workflow_done_def progress_def stages_def)
qed

theorem orchestrator_is_exclusive_witness:
  "fst (orchestrator_execute id quick_orchestrator quick_task quick_callbacks None (free_vars\<lparr>ov_executing := True\<rparr>, 0)) =
    Ret (preflight_failure ''orchestrator_busy'' ''An orchestration workflow is already running.'')"
proof -
  obtain r v1 h1 where run: "orchestrator_execute id quick_orchestrator quick_task quick_callbacks None
      (free_vars\<lparr>ov_executing := True\<rparr>, 0) = (r, (v1, h1))" by (metis prod.exhaust)
  from orchestrator_is_exclusive [OF run] run show ?thesis by simp
qed

theorem single_agent_outcome_witness:
  "\<exists>c m v1. orchestrator_execute_agent id quick_orchestrator ''tester''
      \<lparr>at_id = ''t'', at_objective = ''o'', at_working_directory = ''/w'', at_inputs = [],
       at_constraints = ot_constraints quick_task\<rparr> silent None (free_vars, 0) = (Ret (agent_failure c m), (v1, 0))"
proof -
  let ?task = "\<lparr>at_id = ''t'', at_objective = ''o'', at_working_directory = ''/w'', at_inputs = [],
       at_constraints = ot_constraints quick_task\<rparr>"
  obtain r v1 h1 where run: "orchestrator_execute_agent id quick_orchestrator ''tester'' ?task silent None (free_vars, 0) =
      (r, (v1, h1))" by (metis prod.exhaust)
  have "find_profile (oo_registry quick_orchestrator) ''tester'' = None"
    by (simp add: quick_orchestrator_def make_registry_eq find_profile_def)
  with single_agent_outcome [OF run] run show ?thesis by (auto simp: free_vars_def)
qed

end
