(* ===== verification/Workflow.thy ===== *)
theory Workflow
  imports Orchestrator
begin

text \<open>
  The composition of the orchestrator with the runtimes of \<^verbatim>\<open>AgentRuntime\<close>: a factory that builds a
  fresh runtime for every stage, as \<^verbatim>\<open>AgentOrchestrator\<close> asks of its host. The orchestrator's
  variables are the outer part of the world and those of the runtime at work the inner part; a call that
  crosses the interface \<^verbatim>\<open>IAgentRuntime\<close> exchanges the two. The lemmas carry the facts about one
  execution (which tools it can reach, how many turns it takes) to a whole workflow.
\<close>

section \<open>A runtime behind its interface\<close>

definition exchange :: "'a \<times> 'b \<times> 'g \<Rightarrow> 'b \<times> 'a \<times> 'g" where
  "exchange = (\<lambda>(a, b, g). (b, a, g))"

lemma exchange_apply [simp]: "exchange (a, b, g) = (b, a, g)"
  by (simp add: exchange_def)

definition rehost :: "('a \<times> 'b \<times> 'g, 'x) act \<Rightarrow> ('b \<times> 'a \<times> 'g, 'x) act" where
  "rehost m = (\<lambda>w. case m (exchange w) of (r, w1) \<Rightarrow> (r, exchange w1))"

definition rehost_callbacks :: "('a \<times> 'b \<times> 'g) stream_callbacks \<Rightarrow> ('b \<times> 'a \<times> 'g) stream_callbacks" where
  "rehost_callbacks cb = \<lparr>cb_on_text = map_option (\<lambda>g s. rehost (g s)) (cb_on_text cb),
     cb_on_progress = map_option (\<lambda>g s. rehost (g s)) (cb_on_progress cb)\<rparr>"

definition rehost_confirm :: "('a \<times> 'b \<times> 'g) confirmation_fn \<Rightarrow> ('b \<times> 'a \<times> 'g) confirmation_fn" where
  "rehost_confirm = map_option (\<lambda>g request. rehost (g request))"

text \<open>\<^verbatim>\<open>AgentRuntime\<close> as an \<^verbatim>\<open>IAgentRuntime\<close>.\<close>

definition agent_runtime ::
    "json_lib \<Rightarrow> ((orch_vars \<times> 'g) rworld \<Rightarrow> (orch_vars \<times> 'g) rworld) \<Rightarrow> (orch_vars \<times> 'g) rworld runtime \<Rightarrow>
     (runtime_vars \<times> 'g) oworld iruntime" where
  "agent_runtime J env rt =
     \<lparr>ir_execute = (\<lambda>ctxt callbacks confirm.
        rehost (runtime_execute J env rt ctxt (rehost_callbacks callbacks) (rehost_confirm confirm))),
      ir_cancel = rehost (runtime_cancel rt)\<rparr>"

text \<open>The members of a runtime just constructed, and the factory that constructs one for a profile.\<close>

definition new_runtime_vars :: runtime_vars where
  "new_runtime_vars = \<lparr>rv_executing = False, rv_active = False, rv_cancelled = False,
     rv_needs_confirmation = False, rv_declined = False\<rparr>"

definition agent_factory ::
    "json_lib \<Rightarrow> ((orch_vars \<times> 'g) rworld \<Rightarrow> (orch_vars \<times> 'g) rworld) \<Rightarrow>
     (agent_profile \<Rightarrow> (orch_vars \<times> 'g) rworld runtime) \<Rightarrow> agent_profile \<Rightarrow>
     ((runtime_vars \<times> 'g) oworld, (runtime_vars \<times> 'g) oworld iruntime option) act" where
  "agent_factory J env rt profile =
     bindA (rehost (set_vars (\<lambda>_. new_runtime_vars))) (\<lambda>_. ret (Some (agent_runtime J env (rt profile))))"

definition agent_orchestrator ::
    "json_lib \<Rightarrow> ((orch_vars \<times> 'g) rworld \<Rightarrow> (orch_vars \<times> 'g) rworld) \<Rightarrow>
     (agent_profile \<Rightarrow> (orch_vars \<times> 'g) rworld runtime) \<Rightarrow> agent_registry \<Rightarrow>
     (runtime_vars \<times> 'g) oworld orchestrator" where
  "agent_orchestrator J env rt reg = \<lparr>oo_registry = reg, oo_factory = Some (agent_factory J env rt)\<rparr>"

lemma agent_factory_bind:
  "bindA (guarded_call (agent_factory J env rt profile)) k =
   bindA (guarded_call (rehost (set_vars (\<lambda>_. new_runtime_vars))))
     (\<lambda>r. k (map_option (\<lambda>_. Some (agent_runtime J env (rt profile))) r))"
  unfolding agent_factory_def guarded_call_bind ..

section \<open>Two workflows alike\<close>

text \<open>Runtimes that execute the contexts of the workflow alike make the workflow the same.\<close>

lemma execute_stage_cong:
  assumes "ir_execute runtime ctxt (oc_runtime callbacks) confirm = ir_execute runtime' ctxt (oc_runtime callbacks) confirm"
  shows "execute_stage env callbacks confirm pid runtime ctxt = execute_stage env callbacks confirm pid runtime' ctxt"
  unfolding execute_stage_def assms ..

lemma run_stages_agents_cong:
  assumes "\<And>stage profile produced. (stage, profile) \<in> set staged \<Longrightarrow>
     ir_execute (agent_runtime J renv (rt profile)) (stage_context task (fst stage) profile produced) (oc_runtime callbacks) confirm =
     ir_execute (agent_runtime J renv (rt' profile)) (stage_context task (fst stage) profile produced) (oc_runtime callbacks) confirm"
  shows "run_stages env (agent_factory J renv rt) task callbacks confirm staged flow =
    run_stages env (agent_factory J renv rt') task callbacks confirm staged flow"
  using assms
proof (induction staged arbitrary: flow)
  case (Cons sp rest)
  obtain stage profile where sp: "sp = (stage, profile)" by (cases sp)
  have IH: "run_stages env (agent_factory J renv rt) task callbacks confirm rest flow =
      run_stages env (agent_factory J renv rt') task callbacks confirm rest flow" for flow
    using Cons by simp
  have exec: "execute_stage env callbacks confirm pid (agent_runtime J renv (rt profile)) (stage_context task (fst stage) profile produced) =
      execute_stage env callbacks confirm pid (agent_runtime J renv (rt' profile)) (stage_context task (fst stage) profile produced)"
    for pid produced
    by (rule execute_stage_cong, rule Cons.prems) (simp add: sp)
  show ?case
    unfolding sp run_stages.simps agent_factory_bind IH Let_def
    by (intro arg_cong2 [of _ _ _ _ bindA] refl ext if_cong) (auto simp: exec split: option.splits)
qed simp

section \<open>Tools out of reach\<close>

text \<open>
  The bindings no stage of a workflow over the standard profiles exposes: those without an operation,
  those with a command, the network or the history of a repository, and, in a read-only task, those
  that do anything but read files.
\<close>

definition off_limits :: "orchestration_task \<Rightarrow> 'w tool_binding \<Rightarrow> bool" where
  "off_limits task b \<longleftrightarrow>
     tb_operations b = [] \<or>
     list_ex (\<lambda>op. op \<in> {Run_command, Network, Git_commit, Git_push} \<or>
       tk_read_only (ot_constraints task) \<and> op \<noteq> Read_file) (tb_operations b)"

definition disarm ::
    "orchestration_task \<Rightarrow> (json \<Rightarrow> 'w tool_context \<Rightarrow> ('w, tool_result) act) \<Rightarrow> ('w \<Rightarrow> bool) \<Rightarrow> 'w runtime \<Rightarrow> 'w runtime" where
  "disarm task e q rt =
     rt\<lparr>rt_tools := map (\<lambda>b. if off_limits task b then replace_behaviour e q b else b) (rt_tools rt)\<rparr>"

lemma filter_tools_replaced:
  assumes "\<And>b. off b \<Longrightarrow> \<not> exposed profile task b"
  shows "filter_tools profile task (map (\<lambda>b. if off b then replace_behaviour e q b else b) bs) names reg =
    filter_tools profile task bs names reg"
proof (induction bs arbitrary: names reg)
  case (Cons b bs)
  then show ?case
    using assms [of b] by (cases "tb_tool b") (auto simp: exposed_eq replace_behaviour_def Let_def)
qed simp

lemma runtime_execute_replaced:
  assumes "\<And>b. off b \<Longrightarrow> \<not> exposed (ac_profile ctxt) (ac_task ctxt) b"
  shows "runtime_execute J env (rt\<lparr>rt_tools := map (\<lambda>b. if off b then replace_behaviour e q b else b) (rt_tools rt)\<rparr>)
      ctxt callbacks confirm = runtime_execute J env rt ctxt callbacks confirm"
  unfolding runtime_execute_def execute_checked_def run_agent_session_def Let_def
  by (simp add: filter_tools_replaced [OF assms] cong: if_cong option.case_cong)

definition standard_profiles :: "agent_profile list" where
  "standard_profiles = [explorer, planner, coder, reviewer]"

lemma standard_denies:
  assumes "profile \<in> set standard_profiles" and "op \<in> {Run_command, Network, Git_commit, Git_push}"
  shows "decision_for (ap_permissions profile) op = Deny"
  using assms by (auto simp: standard_profiles_def standard_defs decision_for_def less_operation_class_def)

lemma off_limits_not_exposed:
  assumes "profile \<in> set standard_profiles" and "off_limits task b"
  shows "\<not> exposed profile (ac_task (stage_context task pid profile produced)) b"
proof -
  have "binding_denied profile (ac_task (stage_context task pid profile produced)) (tb_operations b)"
    using assms(2) standard_denies [OF assms(1)]
    by (auto simp: off_limits_def binding_denied_def stage_context_def list_ex_iff)
  then show ?thesis by (simp add: exposed_eq split: option.splits)
qed

lemma agent_runtime_disarmed:
  assumes "profile \<in> set standard_profiles"
  shows "ir_execute (agent_runtime J env (disarm task e q rt)) (stage_context task pid profile produced) callbacks confirm =
    ir_execute (agent_runtime J env rt) (stage_context task pid profile produced) callbacks confirm"
proof -
  have "runtime_execute J env (disarm task e q rt) (stage_context task pid profile produced) cb co =
      runtime_execute J env rt (stage_context task pid profile produced) cb co" for cb co
    unfolding disarm_def
    by (rule runtime_execute_replaced)
      (use off_limits_not_exposed [OF assms] in \<open>simp add: stage_context_def\<close>)
  then show ?thesis by (simp add: agent_runtime_def)
qed

section \<open>Turns of a workflow\<close>

text \<open>The turns one stage may take, and the stages of a registry together.\<close>

definition stage_budget :: "orchestration_task \<Rightarrow> agent_profile \<Rightarrow> nat" where
  "stage_budget task profile = min (ap_max_steps profile)
     (case tk_max_steps (ot_constraints task) of Some n \<Rightarrow> n | None \<Rightarrow> ap_max_steps profile)"

definition workflow_budget :: "orchestration_task \<Rightarrow> agent_registry \<Rightarrow> nat" where
  "workflow_budget task reg =
     sum_list (map (\<lambda>s. case find_profile reg (fst s) of Some p \<Rightarrow> stage_budget task p | None \<Rightarrow> 0) stages)"

lemma step_budget_stage [simp]: "step_budget (stage_context task pid profile produced) = stage_budget task profile"
  by (simp add: step_budget_def stage_budget_def stage_context_def split: option.split)

lemma stage_profiles_budget:
  "stage_profiles reg S = Inr staged \<Longrightarrow>
    sum_list (map (\<lambda>s. case find_profile reg (fst s) of Some p \<Rightarrow> stage_budget task p | None \<Rightarrow> 0) S) =
    sum_list (map (stage_budget task \<circ> snd) staged)"
  by (induction S arbitrary: staged) (auto split: option.splits sum.splits)

text \<open>A counter of the host, seen from the orchestrator and from a runtime.\<close>

abbreviation counter :: "('g \<Rightarrow> nat) \<Rightarrow> 'a \<times> 'b \<times> 'g \<Rightarrow> nat" where
  "counter c \<equiv> \<lambda>(a, b, g). c g"

lemma raises_rehost: "raises (counter c) n m \<Longrightarrow> raises (counter c) n (rehost m)"
  unfolding raises_def rehost_def exchange_def by (fastforce simp: split_def)

text \<open>What the host puts between the stages.\<close>

definition workflow_within ::
    "('h oworld \<Rightarrow> 'h oworld \<Rightarrow> bool) \<Rightarrow> ('h oworld \<Rightarrow> 'h oworld) \<Rightarrow> 'h oworld orchestration_callbacks \<Rightarrow> bool" where
  "workflow_within R env callbacks \<longleftrightarrow>
     (\<forall>w. R w (env w)) \<and>
     (\<forall>f pid. oc_on_stage_started callbacks = Some f \<longrightarrow> within R (f pid)) \<and>
     (\<forall>f pid r. oc_on_stage_finished callbacks = Some f \<longrightarrow> within R (f pid r)) \<and>
     (\<forall>f pid r a. oc_before_next_stage callbacks = Some f \<longrightarrow> within R (f pid r a))"

text \<open>Every turn of every runtime of the factory costs at most \<open>n\<close>; with \<open>n = 1\<close> turns are counted.\<close>

definition runtimes_cost ::
    "('g \<Rightarrow> nat) \<Rightarrow> nat \<Rightarrow> ((orch_vars \<times> 'g) rworld \<Rightarrow> (orch_vars \<times> 'g) rworld) \<Rightarrow>
     (agent_profile \<Rightarrow> (orch_vars \<times> 'g) rworld runtime) \<Rightarrow> (orch_vars \<times> 'g) rworld stream_callbacks \<Rightarrow>
     (orch_vars \<times> 'g) rworld confirmation_fn \<Rightarrow> bool" where
  "runtimes_cost c n env rt callbacks confirm \<longleftrightarrow>
     (\<forall>profile p. rt_provider (rt profile) = Some p \<longrightarrow> turn_cost (counter c) n callbacks p) \<and>
     (\<forall>profile. host_within (no_more (counter c)) env callbacks confirm (rt_tools (rt profile)))"

abbreviation runtimes_count ::
    "('g \<Rightarrow> nat) \<Rightarrow> ((orch_vars \<times> 'g) rworld \<Rightarrow> (orch_vars \<times> 'g) rworld) \<Rightarrow>
     (agent_profile \<Rightarrow> (orch_vars \<times> 'g) rworld runtime) \<Rightarrow> (orch_vars \<times> 'g) rworld stream_callbacks \<Rightarrow>
     (orch_vars \<times> 'g) rworld confirmation_fn \<Rightarrow> bool" where
  "runtimes_count c \<equiv> runtimes_cost c 1"

lemma raises_set_orch [simp]: "raises (counter c) n (set_orch f)"
  by (auto simp: raises_def set_orch_def)

lemma raises_load_cancel: "workflow_within (no_more f) env callbacks \<Longrightarrow> raises f 0 (load_cancel env)"
  by (auto simp: workflow_within_def raises_def load_cancel_def Let_def no_more_def)

lemma raises_guarded_call: "raises f n m \<Longrightarrow> raises f n (guarded_call m)"
  unfolding guarded_call_def by (intro raises_try_any raises_bind_then_quiet raises_ret)

lemma raises_execute_stage:
  assumes "workflow_within (no_more (counter c)) env callbacks"
    and "raises (counter c) n (ir_execute runtime ctxt (oc_runtime callbacks) confirm)"
  shows "raises (counter c) n (execute_stage env callbacks confirm pid runtime ctxt)"
proof -
  have "raises (counter c) 0 (call_opt (oc_on_stage_started callbacks) pid)"
    using assms(1) by (intro raises_call_opt) (auto simp: workflow_within_def raises_0)
  moreover have "raises (counter c) n (bindA (ir_execute runtime ctxt (oc_runtime callbacks) confirm) (\<lambda>r. ret (Some r)))"
    by (rule raises_bind_then_quiet [OF assms(2)]) (rule raises_ret)
  ultimately have "raises (counter c) n (try_any
      (bindA (call_opt (oc_on_stage_started callbacks) pid) (\<lambda>_.
       bindA (load_cancel env) (\<lambda>c. if c then ret None
         else bindA (ir_execute runtime ctxt (oc_runtime callbacks) confirm) (\<lambda>r. ret (Some r)))))
      (ret (Some (agent_failure ''orchestration_exception'' ''Agent runtime or orchestration callback failed.''))))"
    by (intro raises_try_any raises_ret raises_bind_quiet [OF _ raises_bind_quiet [OF raises_load_cancel [OF assms(1)]]]
        raises_if)
  then show ?thesis
    unfolding execute_stage_def
    by - (rule raises_bind_quiet [OF raises_set_orch], erule raises_bind_then_quiet,
        intro raises_bind_quiet [OF raises_set_orch] raises_ret)
qed

lemma raises_finish_stage:
  assumes "workflow_within (no_more (counter c)) env callbacks"
  shows "raises (counter c) 0 (finish_stage env callbacks lst stage result flow)"
proof -
  have fin: "raises (counter c) 0 (call_finished callbacks pid result)" for pid
    using assms by (auto simp: call_finished_def workflow_within_def raises_0 simp del: ret_apply split: option.splits)
  have nxt: "raises (counter c) 0 (before pid result a)" if "oc_before_next_stage callbacks = Some before" for before pid a
    using assms that by (auto simp: workflow_within_def raises_0)
  show ?thesis
    unfolding finish_stage_def Let_def
    by (auto simp del: ret_apply split: option.splits
        intro!: raises_bind_quiet raises_guarded_call fin nxt raises_load_cancel [OF assms])
qed

lemma raises_agent_runtime:
  assumes "runtimes_cost c n renv rt (rehost_callbacks callbacks) (rehost_confirm confirm)"
  shows "raises (counter c) (n * step_budget ctxt) (ir_execute (agent_runtime J renv (rt profile)) ctxt callbacks confirm)"
proof -
  have "raises (counter c) (n * step_budget ctxt)
      (runtime_execute J renv (rt profile) ctxt (rehost_callbacks callbacks) (rehost_confirm confirm))"
    using assms raises_runtime_execute [where g = "\<lambda>(a, g). c g" and n = n and rt = "rt profile"]
    by (fastforce simp: runtimes_cost_def split_def)
  then show ?thesis by (simp add: agent_runtime_def raises_rehost)
qed

lemma raises_run_stages:
  assumes "workflow_within (no_more (counter c)) env callbacks"
    and "runtimes_cost c n renv rt (rehost_callbacks (oc_runtime callbacks)) (rehost_confirm confirm)"
  shows "raises (counter c) (n * sum_list (map (stage_budget task \<circ> snd) staged))
    (run_stages env (agent_factory J renv rt) task callbacks confirm staged flow)"
proof (induction staged arbitrary: flow)
  case (Cons sp rest)
  obtain stage profile where sp: "sp = (stage, profile)" by (cases sp)
  let ?rest = "n * sum_list (map (stage_budget task \<circ> snd) rest)"
  let ?run = "execute_stage env callbacks confirm (fst stage) (agent_runtime J renv (rt profile))
    (stage_context task (fst stage) profile (or_artifacts flow))"
  have build: "raises (counter c) 0 (guarded_call (rehost (set_vars (\<lambda>_. new_runtime_vars))))"
    by (intro raises_guarded_call raises_rehost) (auto simp: raises_def set_vars_def)
  have run: "raises (counter c) (n * stage_budget task profile) ?run"
    by (rule raises_execute_stage [OF assms(1)])
      (use raises_agent_runtime [OF assms(2), of "stage_context task (fst stage) profile (or_artifacts flow)"] in simp)
  have after: "raises (counter c) ?rest (bindA (finish_stage env callbacks (rest = []) stage result flow) (\<lambda>(go, flow).
      if go then run_stages env (agent_factory J renv rt) task callbacks confirm rest flow else ret flow))" for result
    by (rule raises_bind_quiet [OF raises_finish_stage [OF assms(1)]])
      (use Cons.IH in \<open>auto simp: comp_def simp del: ret_apply\<close>)
  have "raises (counter c) (n * stage_budget task profile + ?rest) (bindA ?run (\<lambda>result. case result of
      None \<Rightarrow> ret (cancelled_workflow flow)
    | Some result \<Rightarrow> bindA (finish_stage env callbacks (rest = []) stage result flow) (\<lambda>(go, flow).
        if go then run_stages env (agent_factory J renv rt) task callbacks confirm rest flow else ret flow)))"
    by (rule raises_bindA [OF run]) (use after in \<open>auto simp del: ret_apply split: option.splits\<close>)
  then show ?case
    unfolding sp run_stages.simps agent_factory_bind Let_def
    by (intro raises_bind_quiet [OF raises_load_cancel [OF assms(1)]] raises_if raises_ret raises_bind_quiet [OF build])
      (auto simp: comp_def distrib_left simp del: ret_apply split: option.splits)
qed simp

lemma raises_orchestrator_execute:
  assumes "workflow_within (no_more (counter c)) env callbacks"
    and "runtimes_cost c n renv rt (rehost_callbacks (oc_runtime callbacks)) (rehost_confirm confirm)"
  shows "raises (counter c) (n * workflow_budget task reg)
    (orchestrator_execute env (agent_orchestrator J renv rt reg) task callbacks confirm)"
proof -
  have "raises (counter c) (n * workflow_budget task reg)
      (run_workflow env (agent_orchestrator J renv rt reg) task callbacks confirm)"
    using raises_run_stages [OF assms, of task _ J] stage_profiles_budget [of reg stages _ task]
    by (auto simp: run_workflow_def agent_orchestrator_def workflow_budget_def simp del: ret_apply split: sum.splits)
  then show ?thesis
    unfolding orchestrator_execute_def exclusively_def
    by (intro raises_bind_quiet [OF raises_readA] raises_bind_quiet [OF raises_set_orch] raises_if raises_ret raises_finallyA) auto
qed

section \<open>Cancellation\<close>

text \<open>A cancellation of the workflow reaches the flag of the active session and the provider's request.\<close>

lemma cancel_reaches_session:
  assumes "rt_provider rt = Some p"
  shows "orchestrator_cancel (ir_cancel (agent_runtime J env rt)) (v, r, g) =
    (if ov_active v \<and> rv_active r then
       rehost (p_cancel_active_request p) (v\<lparr>ov_cancel_requested := True\<rparr>, r\<lparr>rv_cancelled := True\<rparr>, g)
     else (Ret (), (v\<lparr>ov_cancel_requested := True\<rparr>, r, g)))"
  using assms
  by (simp add: orchestrator_cancel_def set_orch_def agent_runtime_def rehost_def runtime_cancel_def set_vars_def)

section \<open>A concrete workflow\<close>

text \<open>A host whose world counts the turns of the model, which answers at once.\<close>

type_synonym turn_world = "(orch_vars \<times> nat) rworld"

definition answer_turn :: "(turn_world, model_turn) act" where
  "answer_turn = (\<lambda>(v, o', n). (Ret final, (v, o', Suc n)))"

definition answering_provider :: "turn_world provider" where
  "answering_provider = \<lparr>p_type = Custom, p_name = ''answer'', p_preferred_model = (\<lambda>_. ret []),
     p_model_capabilities = (\<lambda>_. ret default_capabilities), p_list_models = (\<lambda>_ _. ret (api_failure [])),
     p_start_turn = (\<lambda>_ _ _ _ _ _ _. answer_turn), p_continue_turn = (\<lambda>_ _ _ _ _ _ _. answer_turn),
     p_trim_history = (\<lambda>_. ret ()), p_cancel_active_request = ret (), p_reset_session = ret (),
     p_session_entries = ret 0\<rparr>"

definition answering_runtime :: "turn_world runtime" where
  "answering_runtime = \<lparr>rt_provider = Some answering_provider, rt_api_key = ''key'', rt_model = ''model'', rt_tools = []\<rparr>"

definition silent_workflow :: "(runtime_vars \<times> nat) oworld orchestration_callbacks" where
  "silent_workflow = \<lparr>oc_on_stage_started = None, oc_on_stage_finished = None, oc_before_next_stage = None,
     oc_runtime = silent\<rparr>"

lemma answering_counts: "counts_turns (counter id) callbacks answering_provider"
  by (auto simp: turn_cost_def answering_provider_def answer_turn_def raises_def)

lemma silent_within:
  "workflow_within (no_more (counter id)) id silent_workflow"
  "host_within (no_more (counter id)) id (rehost_callbacks (oc_runtime silent_workflow)) (rehost_confirm None) []"
  by (simp_all add: workflow_within_def host_within_def no_more_def silent_workflow_def rehost_callbacks_def
      rehost_confirm_def silent_def)

end
