(* ===== verification/Sse.thy ===== *)
theory Sse
  imports Cpp_Lib
begin

text \<open>
  The incremental decoder of server-sent events, \<^verbatim>\<open>net/sse_decoder.hpp\<close>. Its state is the
  buffer \<^verbatim>\<open>pending_\<close>; the event callback acts on the rest of the world and may throw. The main
  result is that the events do not depend on how the network splits the bytes, and that a stream
  of well-formed frames decodes to exactly their payloads.
\<close>

section \<open>The decoder\<close>

definition lf :: char where "lf = CHR 0x0A"

definition cr :: char where "cr = CHR 0x0D"

type_synonym sse_decoder = string

text \<open>One line of an event, added to the data collected so far.\<close>

definition add_line :: "string \<Rightarrow> string \<Rightarrow> string" where
  "add_line data line0 =
     (let line = (if line0 \<noteq> [] \<and> last line0 = cr then butlast line0 else line0) in
      if prefix ''data:'' line then
        (let line = drop 5 line;
             line = (if line \<noteq> [] \<and> hd line = CHR '' '' then tl line else line);
             data = (if data \<noteq> [] then data @ [lf] else data)
         in data @ line)
      else data)"

text \<open>The loop over the lines of an event, from position \<open>start\<close>.\<close>

function scan_lines :: "string \<Rightarrow> nat \<Rightarrow> string \<Rightarrow> string" where
  "scan_lines event start data =
     (if start \<le> length event then
        (case find_sub [lf] (drop start event) of
           None \<Rightarrow> add_line data (drop start event)
         | Some k \<Rightarrow> scan_lines event (start + k + 1) (add_line data (take k (drop start event))))
      else data)"
  by pat_completeness auto
termination
  by (relation "measure (\<lambda>(event, start, data). Suc (length event) - start)") auto

declare scan_lines.simps [simp del]

definition event_data :: "string \<Rightarrow> string" where
  "event_data event = scan_lines event 0 []"

lemma find_sub_lf_lf_length: "find_sub [lf, lf] p = Some e \<Longrightarrow> e + 2 \<le> length p"
  using find_sub_Some by fastforce

text \<open>The loop over the complete events of the buffer.\<close>

function push_loop :: "(string \<Rightarrow> ('w, unit) act) \<Rightarrow> sse_decoder \<Rightarrow> 'w \<Rightarrow> unit outcome \<times> sse_decoder \<times> 'w" where
  "push_loop on_event pending w =
     (case find_sub [lf, lf] pending of
        None \<Rightarrow> (Ret (), pending, w)
      | Some e \<Rightarrow>
          (let data = event_data (take e pending); pending' = drop (e + 2) pending in
           if data \<noteq> [] then
             (case on_event data w of
                (Ret _, w1) \<Rightarrow> push_loop on_event pending' w1
              | (r, w1) \<Rightarrow> (r, pending', w1))
           else push_loop on_event pending' w))"
  by pat_completeness auto
termination
  by (relation "measure (\<lambda>(f, p, w). length p)")
    (auto dest!: find_sub_lf_lf_length)

declare push_loop.simps [simp del]

definition strip_cr :: "string \<Rightarrow> string" where
  "strip_cr bytes = filter (\<lambda>b. b \<noteq> cr) bytes"

definition sse_push :: "(string \<Rightarrow> ('w, unit) act) \<Rightarrow> string \<Rightarrow> (sse_decoder \<times> 'w, unit) act" where
  "sse_push on_event bytes = (\<lambda>(pending, w). push_loop on_event (pending @ strip_cr bytes) w)"

definition sse_finish :: "(string \<Rightarrow> ('w, unit) act) \<Rightarrow> (sse_decoder \<times> 'w, unit) act" where
  "sse_finish on_event = (\<lambda>(pending, w).
     if pending = [] then (Ret (), pending, w)
     else if prefix ''data:'' pending then sse_push on_event [lf, lf] (pending, w)
     else (case on_event pending w of (r, w1) \<Rightarrow> (r, [], w1)))"

section \<open>The reference: lines and frames\<close>

text \<open>The lines of a text: split at every line feed, the last line included.\<close>

fun split_lines :: "string \<Rightarrow> string list" where
  "split_lines [] = [[]]"
| "split_lines (c # s) =
     (if c = lf then [] # split_lines s
      else (c # hd (split_lines s)) # tl (split_lines s))"

lemma split_lines_nonempty [simp]: "split_lines s \<noteq> []"
  by (cases s) auto

lemma find_lf_None: "find_sub [lf] s = None \<longleftrightarrow> lf \<notin> set s"
  by (induction s) auto

lemma split_lines_no_lf: "lf \<notin> set s \<Longrightarrow> split_lines s = [s]"
  by (induction s) auto

lemma split_lines_append: "lf \<notin> set a \<Longrightarrow> split_lines (a @ lf # b) = a # split_lines b"
  by (induction a) auto

lemma find_lf_Some: "find_sub [lf] s = Some k \<Longrightarrow> s = take k s @ lf # drop (Suc k) s \<and> lf \<notin> set (take k s)"
proof (induction s arbitrary: k)
  case (Cons c s)
  then show ?case by (auto split: if_splits)
qed simp

lemma split_lines_find: "find_sub [lf] s = Some k \<Longrightarrow> split_lines s = take k s # split_lines (drop (Suc k) s)"
  using find_lf_Some [of s k] split_lines_append [of "take k s" "drop (Suc k) s"] by simp

text \<open>The index loop of the source collects the data of the lines from left to right.\<close>

lemma scan_lines_eq:
  "start \<le> length event \<Longrightarrow>
    scan_lines event start data = foldl add_line data (split_lines (drop start event))"
proof (induction event start data rule: scan_lines.induct)
  case (1 event start data)
  show ?case
  proof (cases "find_sub [lf] (drop start event)")
    case None
    with "1.prems" show ?thesis
      using split_lines_no_lf [OF find_lf_None [THEN iffD1, OF None]]
      by (simp add: scan_lines.simps [of event start] None)
  next
    case (Some k)
    then have "k + 1 \<le> length (drop start event)" using find_sub_Some [of "[lf]"] by fastforce
    then have le: "start + k + 1 \<le> length event" by simp
    have "scan_lines event start data =
        scan_lines event (start + k + 1) (add_line data (take k (drop start event)))"
      using Some "1.prems" by (simp add: scan_lines.simps [of event start])
    also have "\<dots> = foldl add_line (add_line data (take k (drop start event)))
        (split_lines (drop (start + k + 1) event))"
      using "1.IH" [OF "1.prems" Some] le by simp
    also have "\<dots> = foldl add_line data (split_lines (drop start event))"
      using split_lines_find [OF Some] by (simp add: add.commute)
    finally show ?thesis .
  qed
qed

lemma event_data_lines: "event_data event = foldl add_line [] (split_lines event)"
  by (simp add: event_data_def scan_lines_eq)

text \<open>The events complete in a buffer, and what stays in it.\<close>

function drain :: "string \<Rightarrow> string list \<times> string" where
  "drain p = (case find_sub [lf, lf] p of
       None \<Rightarrow> ([], p)
     | Some e \<Rightarrow>
         (let (evs, rest) = drain (drop (e + 2) p); d = event_data (take e p)
          in (if d \<noteq> [] then d # evs else evs, rest)))"
  by pat_completeness auto
termination
  by (relation "measure length") (auto dest!: find_sub_lf_lf_length)

declare drain.simps [simp del]

lemma drain_None: "find_sub [lf, lf] p = None \<Longrightarrow> drain p = ([], p)"
  by (simp add: drain.simps)

lemma drain_rest: "find_sub [lf, lf] (snd (drain p)) = None"
proof (induction p rule: drain.induct)
  case (1 p)
  then show ?case by (subst drain.simps) (auto split: option.splits prod.splits simp: Let_def)
qed

lemma drain_rest_set: "set (snd (drain p)) \<subseteq> set p"
proof (induction p rule: drain.induct)
  case (1 p)
  show ?case
  proof (cases "find_sub [lf, lf] p")
    case None
    then show ?thesis by (simp add: drain_None)
  next
    case (Some e)
    have "snd (drain p) = snd (drain (drop (e + 2) p))"
      by (subst drain.simps) (simp add: Some Let_def split: prod.splits)
    with "1.IH" [OF Some] show ?thesis using set_drop_subset [of "e + 2" p] by auto
  qed
qed

text \<open>Draining a longer buffer drains the shorter one first.\<close>

lemma drain_append:
  "drain (p @ q) = (fst (drain p) @ fst (drain (snd (drain p) @ q)), snd (drain (snd (drain p) @ q)))"
proof (induction p rule: drain.induct)
  case (1 p)
  show ?case
  proof (cases "find_sub [lf, lf] p")
    case None
    then show ?thesis by (simp add: drain_None)
  next
    case (Some e)
    have le: "e + 2 \<le> length p" using Some by (rule find_sub_lf_lf_length)
    have pq: "find_sub [lf, lf] (p @ q) = Some e" using Some by (rule find_sub_append_Some)
    show ?thesis
      using "1.IH" [OF Some] le
      by (simp add: drain.simps [of p] drain.simps [of "p @ q"] Some pq Let_def split: prod.splits)
  qed
qed

text \<open>With a callback that returns, the loop delivers the complete events in order.\<close>

definition returns :: "('a \<Rightarrow> ('w, unit) act) \<Rightarrow> bool" where
  "returns f \<longleftrightarrow> (\<forall>a w. \<exists>w1. f a w = (Ret (), w1))"

lemma returnsE:
  assumes "returns f"
  obtains w1 where "f a w = (Ret (), w1)"
  using assms by (auto simp: returns_def)

lemma forA_returns: "returns f \<Longrightarrow> \<exists>w1. forA xs f w = (Ret (), w1)"
proof (induction xs arbitrary: w)
  case (Cons x xs)
  obtain w1 where "f x w = (Ret (), w1)" using Cons.prems by (rule returnsE)
  with Cons.IH [OF Cons.prems, of w1] show ?case by simp
qed simp

lemma forA_append: "forA (xs @ ys) f = bindA (forA xs f) (\<lambda>_. forA ys f)"
  by (induction xs) (simp_all add: bindA_assoc)

lemma push_loop_drain:
  assumes "returns f"
  shows "push_loop f p w = (case forA (fst (drain p)) f w of (r, w1) \<Rightarrow> (r, snd (drain p), w1))"
  using assms
proof (induction f p w rule: push_loop.induct)
  case (1 f p w)
  show ?case
  proof (cases "find_sub [lf, lf] p")
    case None
    then show ?thesis by (simp add: push_loop.simps [of f p w] drain_None)
  next
    case (Some e)
    let ?d = "event_data (take e p)" and ?q = "drop (e + 2) p"
    have dr: "drain p = (if ?d \<noteq> [] then ?d # fst (drain ?q) else fst (drain ?q), snd (drain ?q))"
      by (subst drain.simps) (simp add: Some Let_def split: prod.splits)
    show ?thesis
    proof (cases "?d = []")
      case True
      then show ?thesis
        using "1.IH"(2) [OF Some refl refl] 1(3) dr
        by (simp add: push_loop.simps [of f p w] Some)
    next
      case False
      obtain w1 where w1: "f ?d w = (Ret (), w1)" using 1(3) by (rule returnsE)
      show ?thesis
        using "1.IH"(1) [OF Some refl refl False w1 [symmetric] refl] 1(3) dr False w1
        by (simp add: push_loop.simps [of f p w] Some)
    qed
  qed
qed

text \<open>A chunk pushed onto a buffer: the events it completes, and the new buffer.\<close>

lemma sse_push_drain:
  assumes "returns f"
  shows "sse_push f bytes (p, w) =
    (case forA (fst (drain (p @ strip_cr bytes))) f w of
       (r, w1) \<Rightarrow> (r, snd (drain (p @ strip_cr bytes)), w1))"
  by (simp add: sse_push_def push_loop_drain [OF assms])

lemma sse_push_append:
  assumes f: "returns f"
  shows "sse_push f (a @ b) s = bindA (sse_push f a) (\<lambda>_. sse_push f b) s"
proof (cases s)
  case (Pair p w)
  let ?da = "drain (p @ strip_cr a)"
  obtain w1 where w1: "forA (fst ?da) f w = (Ret (), w1)" using forA_returns [OF f] by blast
  have "drain (p @ strip_cr (a @ b)) =
      (fst ?da @ fst (drain (snd ?da @ strip_cr b)), snd (drain (snd ?da @ strip_cr b)))"
    using drain_append [of "p @ strip_cr a" "strip_cr b"] by (simp add: strip_cr_def)
  then show ?thesis
    by (simp add: Pair bindA_def sse_push_drain [OF f] forA_append w1)
qed

lemma sse_push_chunks:
  assumes f: "returns f" and p: "find_sub [lf, lf] p = None"
  shows "forA chunks (sse_push f) (p, w) =
    (case forA (fst (drain (p @ strip_cr (concat chunks)))) f w of
       (r, w1) \<Rightarrow> (r, snd (drain (p @ strip_cr (concat chunks))), w1))"
  using p
proof (induction chunks arbitrary: p w)
  case Nil
  then show ?case by (simp add: strip_cr_def drain_None)
next
  case (Cons c cs)
  let ?d = "drain (p @ strip_cr c)"
  obtain w1 where w1: "forA (fst ?d) f w = (Ret (), w1)" using forA_returns [OF f] by blast
  have "drain (p @ strip_cr (concat (c # cs))) =
      (fst ?d @ fst (drain (snd ?d @ strip_cr (concat cs))), snd (drain (snd ?d @ strip_cr (concat cs))))"
    using drain_append [of "p @ strip_cr c" "strip_cr (concat cs)"] by (simp add: strip_cr_def)
  then show ?case
    using Cons.IH [OF drain_rest, of "p @ strip_cr c" w1]
    by (simp add: bindA_def sse_push_drain [OF f] forA_append w1)
qed

section \<open>Frames\<close>

text \<open>
  A frame as servers write it: one \<^verbatim>\<open>data:\<close> line per line of the payload, every line and the
  frame itself ended by the same line ending.
\<close>

definition sse_frame :: "string \<Rightarrow> string list \<Rightarrow> string" where
  "sse_frame eol ls = concat (map (\<lambda>l. ''data: '' @ l @ eol) ls) @ eol"

fun frame_event :: "string list \<Rightarrow> string" where
  "frame_event [] = []"
| "frame_event [l] = ''data: '' @ l"
| "frame_event (l # l' # ls) = ''data: '' @ l @ lf # frame_event (l' # ls)"

definition payload :: "string list \<Rightarrow> string" where
  "payload ls = hd ls @ concat (map (\<lambda>l. lf # l) (tl ls))"

definition plain_line :: "string \<Rightarrow> bool" where
  "plain_line l \<longleftrightarrow> lf \<notin> set l \<and> cr \<notin> set l"

definition frame_ok :: "string list \<Rightarrow> bool" where
  "frame_ok ls \<longleftrightarrow> ls \<noteq> [] \<and> hd ls \<noteq> [] \<and> list_all plain_line ls"

definition eol_ok :: "string \<Rightarrow> bool" where
  "eol_ok eol \<longleftrightarrow> eol = [lf] \<or> eol = [cr, lf]"

lemma lf_neq_cr [simp]: "lf \<noteq> cr" "cr \<noteq> lf"
  by (simp_all add: lf_def cr_def)

lemma strip_cr_append [simp]: "strip_cr (a @ b) = strip_cr a @ strip_cr b"
  by (simp add: strip_cr_def)

lemma strip_cr_plain: "plain_line l \<Longrightarrow> strip_cr l = l"
  by (auto simp: strip_cr_def plain_line_def filter_id_conv)

lemma strip_cr_eol: "eol_ok eol \<Longrightarrow> strip_cr eol = [lf]"
  by (auto simp: eol_ok_def strip_cr_def)

lemma strip_cr_data: "strip_cr ''data: '' = ''data: ''"
  by (simp add: strip_cr_def cr_def)

lemma strip_cr_frame: "list_all plain_line ls \<Longrightarrow> eol_ok eol \<Longrightarrow> strip_cr (sse_frame eol ls) = sse_frame [lf] ls"
proof (induction ls)
  case (Cons l ls)
  then show ?case
    using strip_cr_data by (simp add: sse_frame_def strip_cr_plain strip_cr_eol del: append_Cons)
qed (simp add: sse_frame_def strip_cr_eol)

lemma sse_frame_event: "ls \<noteq> [] \<Longrightarrow> sse_frame [lf] ls = frame_event ls @ [lf, lf]"
  by (induction ls rule: frame_event.induct) (simp_all add: sse_frame_def)

lemma split_lines_data: "lf \<notin> set l \<Longrightarrow> lf \<notin> set (''data: '' @ l)"
  by (simp add: lf_def)

lemma split_frame_event:
  "ls \<noteq> [] \<Longrightarrow> list_all plain_line ls \<Longrightarrow> split_lines (frame_event ls) = map (\<lambda>l. ''data: '' @ l) ls"
proof (induction ls rule: frame_event.induct)
  case (2 l)
  then have "lf \<notin> set (''data: '' @ l)" by (intro split_lines_data) (simp add: plain_line_def)
  then show ?case using split_lines_no_lf [of "''data: '' @ l"] by simp
next
  case (3 l l' ls)
  then have "lf \<notin> set (''data: '' @ l)" by (intro split_lines_data) (simp add: plain_line_def)
  from split_lines_append [OF this, of "frame_event (l' # ls)"] 3 show ?case by simp
qed simp

text \<open>A text without empty lines is ended by the first blank line after it.\<close>

lemma find_blank_line:
  "[] \<notin> set (tl (split_lines e)) \<Longrightarrow> find_sub [lf, lf] (e @ lf # lf # r) = Some (length e)"
proof (induction e)
  case (Cons c e)
  show ?case
  proof (cases "c = lf")
    case True
    with Cons.prems have ne: "[] \<notin> set (split_lines e)" by simp
    then have "e \<noteq> []" "hd e \<noteq> lf" by (cases e; auto)+
    moreover have "[] \<notin> set (tl (split_lines e))" using ne by (cases "split_lines e") auto
    ultimately show ?thesis using Cons.IH True by (cases e) auto
  next
    case False
    with Cons show ?thesis by simp
  qed
qed simp

lemma add_line_data:
  "plain_line l \<Longrightarrow> add_line data (''data: '' @ l) = (if data = [] then l else data @ lf # l)"
proof -
  assume "plain_line l"
  then have "l \<noteq> [] \<Longrightarrow> last l \<noteq> cr" unfolding plain_line_def by (metis last_in_set)
  then have "last (''data: '' @ l) \<noteq> cr" by (cases l) (simp_all add: cr_def)
  then show ?thesis by (simp add: add_line_def Let_def)
qed

lemma foldl_add_line:
  "data \<noteq> [] \<Longrightarrow> list_all plain_line ls \<Longrightarrow>
    foldl add_line data (map (\<lambda>l. ''data: '' @ l) ls) = data @ concat (map (\<lambda>l. lf # l) ls)"
  by (induction ls arbitrary: data) (simp_all add: add_line_data del: append_Cons)

lemma event_data_frame:
  assumes "frame_ok ls"
  shows "event_data (frame_event ls) = payload ls"
proof -
  obtain l ls' where ls: "ls = l # ls'" using assms by (cases ls) (auto simp: frame_ok_def)
  with assms have l: "l \<noteq> []" "plain_line l" "list_all plain_line ls'" by (auto simp: frame_ok_def)
  have "event_data (frame_event ls) = foldl add_line [] (map (\<lambda>l. ''data: '' @ l) ls)"
    using assms by (simp add: event_data_lines split_frame_event frame_ok_def)
  also have "\<dots> = foldl add_line l (map (\<lambda>l. ''data: '' @ l) ls')"
    using l(2) by (simp add: ls add_line_data del: append_Cons)
  also have "\<dots> = payload ls" using foldl_add_line [OF l(1) l(3)] by (simp add: payload_def ls)
  finally show ?thesis .
qed

lemma payload_nonempty: "frame_ok ls \<Longrightarrow> payload ls \<noteq> []"
  by (simp add: payload_def frame_ok_def)

lemma drain_frame:
  assumes "frame_ok ls"
  shows "drain (frame_event ls @ lf # lf # r) = (payload ls # fst (drain r), snd (drain r))"
proof -
  have "[] \<notin> set (tl (split_lines (frame_event ls)))"
    using assms by (cases ls) (auto simp: frame_ok_def split_frame_event)
  then have "find_sub [lf, lf] (frame_event ls @ lf # lf # r) = Some (length (frame_event ls))"
    by (rule find_blank_line)
  then show ?thesis
    using event_data_frame [OF assms] payload_nonempty [OF assms]
    by (subst drain.simps) (simp add: Let_def split: prod.splits)
qed

lemma drain_frames:
  "\<forall>ls \<in> set fs. frame_ok ls \<Longrightarrow>
    drain (concat (map (sse_frame [lf]) fs) @ r) = (map payload fs @ fst (drain r), snd (drain r))"
proof (induction fs)
  case (Cons ls fs)
  then have "ls \<noteq> []" by (auto simp: frame_ok_def)
  with Cons show ?case by (simp add: sse_frame_event drain_frame)
qed simp

lemma drain_open_frame:
  assumes "frame_ok ls"
  shows "drain (frame_event ls) = ([], frame_event ls)"
proof -
  have "[] \<notin> set (tl (split_lines (frame_event ls)))"
    using assms by (cases ls) (auto simp: frame_ok_def split_frame_event)
  then have some: "find_sub [lf, lf] (frame_event ls @ [lf, lf]) = Some (length (frame_event ls))"
    using find_blank_line [of "frame_event ls" "[]"] by simp
  have "find_sub [lf, lf] (take (length (frame_event ls)) (frame_event ls @ [lf, lf])) = None"
    by (rule find_sub_None_take [OF some]) simp_all
  then show ?thesis by (simp add: drain_None)
qed

text \<open>
  A stream: frames, and at its end possibly one whose last line ending and blank line are missing.
\<close>

definition stream_ok :: "(string \<times> string list) list \<Rightarrow> string list option \<Rightarrow> bool" where
  "stream_ok fs open_ls \<longleftrightarrow> list_all (\<lambda>(eol, ls). eol_ok eol \<and> frame_ok ls) fs \<and> pred_option frame_ok open_ls"

definition stream_text :: "(string \<times> string list) list \<Rightarrow> string list option \<Rightarrow> string" where
  "stream_text fs open_ls = concat (map (\<lambda>(eol, ls). sse_frame eol ls) fs)
     @ (case open_ls of None \<Rightarrow> [] | Some ls \<Rightarrow> frame_event ls)"

definition stream_payloads :: "(string \<times> string list) list \<Rightarrow> string list option \<Rightarrow> string list" where
  "stream_payloads fs open_ls = map (\<lambda>(eol, ls). payload ls) fs
     @ (case open_ls of None \<Rightarrow> [] | Some ls \<Rightarrow> [payload ls])"

lemma strip_cr_frames:
  "list_all (\<lambda>(eol, ls). eol_ok eol \<and> frame_ok ls) fs \<Longrightarrow>
    strip_cr (concat (map (\<lambda>(eol, ls). sse_frame eol ls) fs)) = concat (map (sse_frame [lf]) (map snd fs))"
  by (induction fs) (auto simp: strip_cr_frame frame_ok_def, simp add: strip_cr_def)

lemma strip_cr_event:
  assumes "frame_ok ls"
  shows "strip_cr (frame_event ls) = frame_event ls"
proof -
  have "strip_cr (sse_frame [lf] ls) = sse_frame [lf] ls"
    using assms by (simp add: strip_cr_frame frame_ok_def eol_ok_def)
  then show ?thesis using assms by (simp add: sse_frame_event frame_ok_def) (simp add: strip_cr_def)
qed

lemma frame_event_data: "frame_ok ls \<Longrightarrow> frame_event ls \<noteq> [] \<and> prefix ''data:'' (frame_event ls)"
  by (induction ls rule: frame_event.induct) (simp_all add: frame_ok_def)

lemma drain_stream:
  assumes "stream_ok fs open_ls"
  shows "drain (strip_cr (stream_text fs open_ls)) =
    (map (\<lambda>(eol, ls). payload ls) fs, case open_ls of None \<Rightarrow> [] | Some ls \<Rightarrow> frame_event ls)"
proof -
  have fs: "list_all (\<lambda>(eol, ls). eol_ok eol \<and> frame_ok ls) fs" and ls: "pred_option frame_ok open_ls"
    using assms by (simp_all add: stream_ok_def)
  let ?s = "concat (map (sse_frame [lf]) (map snd fs))"
  have main: "drain (?s @ r) = (map payload (map snd fs) @ fst (drain r), snd (drain r))" for r
    by (rule drain_frames) (use fs in \<open>auto simp: list_all_iff\<close>)
  have ps: "map payload (map snd fs) = map (\<lambda>(eol, ls). payload ls) fs" by auto
  show ?thesis
  proof (cases open_ls)
    case None
    then have "strip_cr (stream_text fs open_ls) = ?s"
      by (simp add: stream_text_def strip_cr_frames [OF fs])
    then show ?thesis using main [of "[]"] None ps by (simp add: drain_None)
  next
    case (Some l)
    then have "strip_cr (stream_text fs open_ls) = ?s @ frame_event l"
      using ls by (simp add: stream_text_def strip_cr_frames [OF fs] strip_cr_event)
    then show ?thesis using main [of "frame_event l"] Some ls ps by (simp add: drain_open_frame)
  qed
qed

text \<open>Reading a stream in any chunks and finishing delivers its payloads.\<close>

lemma decode_stream:
  assumes f: "returns f" and ok: "stream_ok fs open_ls" and txt_eq: "concat chunks = stream_text fs open_ls"
  shows "bindA (forA chunks (sse_push f)) (\<lambda>_. sse_finish f) ([], w) =
    (case forA (stream_payloads fs open_ls) f w of (r, w1) \<Rightarrow> (r, [], w1))"
proof -
  let ?ps = "map (\<lambda>(eol, ls). payload ls) fs" and ?rest = "case open_ls of None \<Rightarrow> [] | Some ls \<Rightarrow> frame_event ls"
  obtain w1 where w1: "forA ?ps f w = (Ret (), w1)" using forA_returns [OF f] by blast
  have push: "forA chunks (sse_push f) ([], w) = (Ret (), ?rest, w1)"
    using sse_push_chunks [OF f, of "[]" chunks w] by (simp add: txt_eq drain_stream [OF ok] w1)
  have step: "bindA (forA chunks (sse_push f)) k ([], w) = k () (?rest, w1)" for k
    using push by (simp add: bindA_def)
  show ?thesis
  proof (cases open_ls)
    case None
    then show ?thesis unfolding step by (simp add: sse_finish_def stream_payloads_def w1)
  next
    case (Some ls)
    then have ls: "frame_ok ls" using ok by (simp add: stream_ok_def)
    have "drain (frame_event ls @ [lf, lf]) = ([payload ls], [])"
      using drain_frame [OF ls, of "[]"] by (simp add: drain_None)
    then show ?thesis
      unfolding step using Some frame_event_data [OF ls]
      by (simp add: sse_finish_def stream_payloads_def forA_append w1 sse_push_drain [OF f] strip_cr_def)
  qed
qed

section \<open>Properties\<close>

text \<open>A callback that only collects the events.\<close>

definition collect :: "string \<Rightarrow> (string list, unit) act" where
  "collect ev = (\<lambda>evs. (Ret (), evs @ [ev]))"

lemma returns_collect [simp]: "returns collect"
  by (simp add: returns_def collect_def)

lemma forA_collect [simp]: "forA evs collect acc = (Ret (), acc @ evs)"
  by (induction evs arbitrary: acc) (simp_all add: collect_def)

text \<open>C34: chunking. However the network splits the bytes of a stream into reads, the decoder makes
  the same calls of the event callback in the same order and ends in the same state as if all the
  bytes had arrived in one read (for a callback that returns).\<close>

theorem sse_chunking_irrelevant:
  assumes "returns on_event"
    and "concat chunks = concat chunks'" and "chunks \<noteq> []" and "chunks' \<noteq> []"
  shows "forA chunks (sse_push on_event) s = forA chunks' (sse_push on_event) s"
proof -
  have one: "forA cs (sse_push on_event) s = sse_push on_event (concat cs) s" if "cs \<noteq> []" for cs
    using that
  proof (induction cs arbitrary: s)
    case (Cons c cs)
    show ?case
    proof (cases "cs = []")
      case True
      then show ?thesis
        by (cases "sse_push on_event c s"; cases "fst (sse_push on_event c s)") (auto simp: bindA_def)
    next
      case False
      then have "forA cs (sse_push on_event) = sse_push on_event (concat cs)"
        using Cons.IH by (simp add: fun_eq_iff)
      then show ?thesis using sse_push_append [OF assms(1), of c "concat cs"] by simp
    qed
  qed simp
  show ?thesis using one assms by simp
qed

theorem sse_chunking_irrelevant_witness:
  "forA [''da'', ''ta: x'', [lf], [lf]] (sse_push collect) ([], []) =
   forA [''data: x'' @ [lf, lf]] (sse_push collect) ([], [])"
  by (rule sse_chunking_irrelevant) simp_all

text \<open>C12: decoding is the inverse of framing. For any stream of frames (each a non-empty list of lines
  whose first line is not empty, written as \<^verbatim>\<open>data: <line>\<close> lines with LF or CRLF endings), whose
  last frame may be cut off before its final line ending, split into reads in any way: the pushes
  and the final \<^verbatim>\<open>finish\<close> hand the callback exactly the payloads, the lines joined with line
  feeds, in order and once each, and leave the buffer empty.\<close>

theorem sse_decodes_frames:
  assumes "returns on_event" and "stream_ok fs open_ls" and "concat chunks = stream_text fs open_ls"
  shows "bindA (forA chunks (sse_push on_event)) (\<lambda>_. sse_finish on_event) ([], w) =
    (case forA (stream_payloads fs open_ls) on_event w of (r, w1) \<Rightarrow> (r, [], w1))"
  using assms by (rule decode_stream)

theorem sse_decodes_frames_witness:
  "bindA (forA [''data: he'', ''llo'' @ [cr], [lf] @ ''data: you'' @ [cr, lf, cr, lf] @ ''da'', ''ta: 2'']
     (sse_push collect)) (\<lambda>_. sse_finish collect) ([], []) =
   (Ret (), [], [''hello'' @ [lf] @ ''you'', ''2''])"
  using sse_decodes_frames [of collect "[([cr, lf], [''hello'', ''you''])]" "Some [''2'']"
      "[''data: he'', ''llo'' @ [cr], [lf] @ ''data: you'' @ [cr, lf, cr, lf] @ ''da'', ''ta: 2'']" "[]"]
  by (simp add: stream_ok_def stream_text_def stream_payloads_def eol_ok_def frame_ok_def
      plain_line_def sse_frame_def payload_def lf_def cr_def del: forA.simps)

text \<open>The buffer. After any number of reads the buffer holds no complete event (no blank line)
  and no carriage return, so nothing that was completed is kept back.\<close>

theorem sse_buffer_incomplete:
  assumes "returns on_event" and "sse_push on_event bytes (pending, w) = (r, pending', w1)"
    and "cr \<notin> set pending"
  shows "\<not> contains_sub [lf, lf] pending' \<and> cr \<notin> set pending'"
proof -
  have p: "pending' = snd (drain (pending @ strip_cr bytes))"
    using assms(2) by (simp add: sse_push_drain [OF assms(1)] split: prod.splits)
  have "cr \<notin> set (pending @ strip_cr bytes)" using assms(3) by (simp add: strip_cr_def)
  with p show ?thesis
    using drain_rest [of "pending @ strip_cr bytes"] drain_rest_set [of "pending @ strip_cr bytes"]
    by (auto simp: contains_sub_def)
qed

theorem sse_buffer_incomplete_witness:
  "\<not> contains_sub [lf, lf] ''data: y'' \<and> cr \<notin> set ''data: y''"
proof (rule sse_buffer_incomplete)
  have "drain (''data: x'' @ [lf, lf] @ ''data: y'') = ([''x''], ''data: y'')"
    using drain_frame [of "[''x'']" "''data: y''"] drain_None [of "''data: y''"]
    by (simp add: frame_ok_def plain_line_def payload_def lf_def cr_def)
  then show "sse_push collect (''data: x'' @ [cr, lf, cr, lf] @ ''data: y'') ([], []) =
      (Ret (), ''data: y'', [''x''])"
    by (simp add: sse_push_drain strip_cr_def lf_def cr_def del: forA.simps)
qed (simp_all add: cr_def)

section \<open>Where the decoder leaves the event-stream format\<close>

text \<open>
  The format joins the data lines of an event with line feeds, empty ones included, and discards an
  event the stream ends in the middle of. The decoder drops leading empty data lines, and hands a
  trailing buffer that does not begin with \<^verbatim>\<open>data:\<close> to the callback as raw text.
\<close>

lemma sse_leading_empty_line:
  "event_data (''data:'' @ [lf] @ ''data: x'') = ''x''"
proof -
  have "split_lines (''data:'' @ [lf] @ ''data: x'') = [''data:'', ''data: x'']"
    by (simp add: lf_def)
  then show ?thesis unfolding event_data_lines by (simp add: add_line_def Let_def cr_def)
qed

lemma sse_finish_raw_tail:
  "sse_finish collect (''event: ping'' @ [lf] @ ''data: x'', []) =
    (Ret (), [], [''event: ping'' @ [lf] @ ''data: x''])"
  by (simp add: sse_finish_def collect_def)

end
