(* ===== verification/Http.thy ===== *)
theory Http
  imports Sse
begin

text \<open>
  The network layer, \<^verbatim>\<open>net/http_client.hpp\<close> and \<^verbatim>\<open>net/http_client.cpp\<close>: which responses
  are retried, how long the client waits, the two retry loops, and the streaming request that
  feeds the decoder of \<^theory_text>\<open>Sse\<close>. The HTTP library (\<^verbatim>\<open>cpp-httplib\<close>) is a record of
  operations; the clock, the sleep and the random generator of the standard library act on the
  world. A transfer is what the library reports while it runs: the status, pieces of the body and
  progress calls, any of which the receiver may abort.
\<close>

section \<open>The library and the system\<close>

datatype http_error = Error_Read | Error_Other string

record http_response =
  hr_status :: int
  hr_headers :: "(string \<times> string) list"
  hr_body :: string

datatype http_result = No_response http_error | Response http_response

record http_request =
  hq_method :: string
  hq_path :: string
  hq_headers :: "(string \<times> string) list"
  hq_body :: string

text \<open>What the library calls back while a response arrives.\<close>

datatype transfer_event = Ev_headers int | Ev_data string | Ev_progress

text \<open>
  \<open>h_send\<close> performs a request: the events of the transfer and the final result; \<open>h_aborted\<close> is the
  result when a callback stopped the transfer. \<open>h_get\<close> is a plain GET.
\<close>

record 'w http_lib =
  h_send :: "http_request \<Rightarrow> ('w, transfer_event list \<times> http_result) act"
  h_aborted :: http_result
  h_get :: "string \<Rightarrow> (string \<times> string) list \<Rightarrow> ('w, http_result) act"
  h_has_header :: "http_response \<Rightarrow> string \<Rightarrow> bool"
  h_header_value :: "http_response \<Rightarrow> string \<Rightarrow> string"
  h_error_text :: "http_error \<Rightarrow> string"
  h_stop :: "('w, unit) act"

text \<open>Milliseconds of the steady clock, a sleep, and a uniform number between two bounds.\<close>

record 'w sys =
  steady_now :: "'w \<Rightarrow> nat"
  sleep_for :: "nat \<Rightarrow> 'w \<Rightarrow> 'w"
  uniform_int :: "nat \<Rightarrow> nat \<Rightarrow> 'w \<Rightarrow> nat \<times> 'w"

definition max_request_attempts :: int where
  "max_request_attempts = 3"

section \<open>Classification\<close>

definition hard_quota_markers :: "string list" where
  "hard_quota_markers =
     [''exceeded your current quota'', ''quota exhausted'', ''billing account'',
      ''billing required'', ''insufficient_quota'', ''limit: 0'']"

definition is_hard_quota_response :: "http_result \<Rightarrow> string \<Rightarrow> bool" where
  "is_hard_quota_response response error_body =
     (case response of
        No_response _ \<Rightarrow> False
      | Response r \<Rightarrow>
          if hr_status r \<noteq> 429 then False
          else
            (let detail = to_lower (if error_body = [] then hr_body r else error_body)
             in list_ex (\<lambda>marker. contains_sub marker detail) hard_quota_markers))"

definition should_retry :: "http_result \<Rightarrow> string \<Rightarrow> bool" where
  "should_retry response error_body =
     (case response of
        No_response _ \<Rightarrow> True
      | Response r \<Rightarrow>
          (let status = hr_status r in
           if status = 429 \<and> is_hard_quota_response response error_body then False
           else status = 429 \<or> status = 500 \<or> status = 502 \<or> status = 503 \<or> status = 504))"

text \<open>
  The wait before the next attempt, in milliseconds. \<open>500 * (1 << attempt)\<close> is an \<^verbatim>\<open>int\<close> of 32
  bits: from attempt 23 on it overflows.
\<close>

definition retry_delay :: "'w sys \<Rightarrow> 'w http_lib \<Rightarrow> http_result \<Rightarrow> nat \<Rightarrow> ('w, nat) act" where
  "retry_delay S H response attempt =
     (let backoff =
        (if 23 \<le> attempt then lift_out Undef
         else (\<lambda>w. case uniform_int S 0 250 w of (j, w1) \<Rightarrow> (Ret (500 * 2 ^ attempt + j), w1)))
      in case response of
        No_response _ \<Rightarrow> backoff
      | Response r \<Rightarrow>
          if h_has_header H r ''Retry-After'' then
            (case stoi (h_header_value H r ''Retry-After'') of
               Inr seconds \<Rightarrow> if 0 \<le> seconds \<and> seconds \<le> 60 then ret (nat seconds * 1000) else backoff
             | Inl _ \<Rightarrow> backoff)
          else backoff)"

section \<open>The retry loops\<close>

text \<open>
  \<^verbatim>\<open>while (now < deadline) { if (cancelled) return; sleep_for(20ms); }\<close>: whether the wait was
  cut short. The number of rounds is bounded by \<open>fuel\<close>; \<open>wait_until_returns\<close> below shows that the
  bound the loops pass is enough.
\<close>

fun wait_until :: "'w sys \<Rightarrow> 'w flag_ptr \<Rightarrow> nat \<Rightarrow> nat \<Rightarrow> ('w, bool) act" where
  "wait_until S cancel deadline fuel w =
     (if steady_now S w < deadline then
        (case fuel of
           0 \<Rightarrow> (Hang, w)
         | Suc fuel' \<Rightarrow>
             bindA (load_flag cancel)
               (\<lambda>c. if c then ret True
                 else (\<lambda>w. wait_until S cancel deadline fuel' (sleep_for S 20 w))) w)
      else (Ret False, w))"

declare wait_until.simps [simp del]

text \<open>
  The plain loop, \<^verbatim>\<open>execute_with_retry\<close>. The request may write variables of the caller, the first
  component of the state. The deadline is the clock before the delay is drawn plus the delay.
\<close>

function execute_with_retry_from ::
    "'w sys \<Rightarrow> 'w http_lib \<Rightarrow> ('v \<times> 'w, http_result) act \<Rightarrow> 'w flag_ptr \<Rightarrow> int \<Rightarrow> nat \<Rightarrow>
     ('v \<times> 'w, http_result) act" where
  "execute_with_retry_from S H request cancel max_attempts attempt =
     bindA request (\<lambda>response.
     bindA (on_snd (load_flag cancel)) (\<lambda>c.
       if c \<or> \<not> should_retry response [] \<or> int attempt + 1 \<ge> max_attempts then ret response
       else
         bindA (on_snd (readA (steady_now S))) (\<lambda>now.
         bindA (on_snd (retry_delay S H response attempt)) (\<lambda>delay.
         bindA (on_snd (wait_until S cancel (now + delay) (Suc delay))) (\<lambda>cut.
           if cut then ret response
           else execute_with_retry_from S H request cancel max_attempts (Suc attempt))))))"
  by pat_completeness auto
termination
  by (relation "measure (\<lambda>(S, H, request, cancel, max_attempts, attempt). nat (max_attempts - int attempt))") auto

declare execute_with_retry_from.simps [simp del]

definition execute_with_retry ::
    "'w sys \<Rightarrow> 'w http_lib \<Rightarrow> ('v \<times> 'w, http_result) act \<Rightarrow> 'w flag_ptr \<Rightarrow> int \<Rightarrow> ('v \<times> 'w, http_result) act" where
  "execute_with_retry S H request cancel max_attempts =
     execute_with_retry_from S H request cancel max_attempts 0"

definition delay_text :: "nat \<Rightarrow> string" where
  "delay_text delay_ms =
     (if delay_ms mod 1000 = 0 then dec (delay_ms div 1000) @ ''s'' else dec delay_ms @ ''ms'')"

definition retry_notice :: "http_result \<Rightarrow> nat \<Rightarrow> nat \<Rightarrow> int \<Rightarrow> string" where
  "retry_notice response delay attempt max_attempts =
     (let reason =
        (case response of
           Response r \<Rightarrow> if hr_status r = 429 then ''Rate limited by provider'' else ''Provider temporarily unavailable''
         | No_response _ \<Rightarrow> ''Provider temporarily unavailable'')
      in reason @ ''; retrying in '' @ delay_text delay @ '' (attempt '' @ dec (attempt + 2) @ ''/''
         @ dec_int max_attempts @ '')'')"

text \<open>
  The streaming loop. The request writes the caller's variables (the first component of the state):
  \<open>received\<close> and \<open>error_body\<close> read two of them, as the references in the source do.
\<close>

function execute_stream_from ::
    "'w sys \<Rightarrow> 'w http_lib \<Rightarrow> ('v \<times> 'w, http_result) act \<Rightarrow> ('v \<Rightarrow> bool) \<Rightarrow> ('v \<Rightarrow> string) \<Rightarrow>
     'w flag_ptr \<Rightarrow> (string \<Rightarrow> ('w, unit) act) option \<Rightarrow> int \<Rightarrow> nat \<Rightarrow> ('v \<times> 'w, http_result) act" where
  "execute_stream_from S H request received error_body cancel on_progress max_attempts attempt =
     bindA (on_snd (call_opt on_progress
              (''Waiting for provider response (attempt '' @ dec (attempt + 1) @ '')''))) (\<lambda>_.
     bindA request (\<lambda>response.
     bindA (readA (\<lambda>(v, w). is_hard_quota_response response (error_body v))) (\<lambda>hard_quota.
     bindA (on_snd (load_flag cancel)) (\<lambda>c.
     bindA (readA (\<lambda>(v, w). received v)) (\<lambda>received_event.
     bindA (readA (\<lambda>(v, w). should_retry response (error_body v))) (\<lambda>retry.
       if c \<or> received_event \<or> hard_quota \<or> \<not> retry \<or> int attempt + 1 \<ge> max_attempts
          \<or> response = No_response Error_Read then
         bindA (if hard_quota then
                  on_snd (call_opt on_progress ''Provider quota is exhausted; this request will not be retried'')
                else ret ())
           (\<lambda>_. ret response)
       else
         bindA (on_snd (retry_delay S H response attempt)) (\<lambda>delay.
         bindA (on_snd (call_opt on_progress (retry_notice response delay attempt max_attempts))) (\<lambda>_.
         bindA (on_snd (readA (steady_now S))) (\<lambda>now.
         bindA (on_snd (wait_until S cancel (now + delay) (Suc delay))) (\<lambda>cut.
           if cut then ret response
           else execute_stream_from S H request received error_body cancel on_progress max_attempts
                  (Suc attempt)))))))))))"
  by pat_completeness auto
termination
  by (relation "measure (\<lambda>(S, H, request, received, error_body, cancel, on_progress, max_attempts, attempt).
        nat (max_attempts - int attempt))") auto

declare execute_stream_from.simps [simp del]

definition execute_stream_with_retry ::
    "'w sys \<Rightarrow> 'w http_lib \<Rightarrow> ('v \<times> 'w, http_result) act \<Rightarrow> ('v \<Rightarrow> bool) \<Rightarrow> ('v \<Rightarrow> string) \<Rightarrow>
     'w flag_ptr \<Rightarrow> (string \<Rightarrow> ('w, unit) act) option \<Rightarrow> int \<Rightarrow> ('v \<times> 'w, http_result) act" where
  "execute_stream_with_retry S H request received error_body cancel on_progress max_attempts =
     execute_stream_from S H request received error_body cancel on_progress max_attempts 0"

section \<open>The streaming request\<close>

text \<open>A call of a method of the local decoder object: the new state of the object is the result.\<close>

definition with_decoder :: "('d \<times> 's, unit) act \<Rightarrow> 'd \<Rightarrow> ('s, 'd) act" where
  "with_decoder m d = (\<lambda>s. case m (d, s) of
       (Ret _, d', s1) \<Rightarrow> (Ret d', s1)
     | (Throw e, _, s1) \<Rightarrow> (Throw e, s1)
     | (Hang, _, s1) \<Rightarrow> (Hang, s1)
     | (Undef, _, s1) \<Rightarrow> (Undef, s1))"


text \<open>
  The variables of the caller that \<^verbatim>\<open>stream_post\<close> writes through references; the event callback
  may change what extends them.
\<close>

record stream_vars =
  sv_error_body :: string
  sv_received_event :: bool

text \<open>The event callback of the decoder: note the event, then hand it on.\<close>

definition deliver ::
    "(string \<Rightarrow> ('a stream_vars_scheme \<times> 'w, unit) act) \<Rightarrow> string \<Rightarrow> ('a stream_vars_scheme \<times> 'w, unit) act" where
  "deliver on_event event =
     bindA (modifyA (\<lambda>(v, w). (v\<lparr>sv_received_event := True\<rparr>, w))) (\<lambda>_. on_event event)"

text \<open>
  The handlers of the request, called for each event of the transfer: \<^verbatim>\<open>response_handler\<close> stores
  the status, \<^verbatim>\<open>progress\<close> and \<^verbatim>\<open>content_receiver\<close> stop the transfer when the flag is set. The
  result is whether the transfer was stopped, and the decoder.
\<close>

fun run_transfer ::
    "'w flag_ptr \<Rightarrow> (string \<Rightarrow> ('a stream_vars_scheme \<times> 'w, unit) act) \<Rightarrow> int \<Rightarrow> sse_decoder \<Rightarrow>
     transfer_event list \<Rightarrow> ('a stream_vars_scheme \<times> 'w, bool \<times> sse_decoder) act" where
  "run_transfer cancel on_event status decoder [] = ret (False, decoder)"
| "run_transfer cancel on_event status decoder (Ev_headers st # es) =
     run_transfer cancel on_event st decoder es"
| "run_transfer cancel on_event status decoder (Ev_progress # es) =
     bindA (on_snd (load_flag cancel)) (\<lambda>c.
       if c then ret (True, decoder) else run_transfer cancel on_event status decoder es)"
| "run_transfer cancel on_event status decoder (Ev_data chunk # es) =
     bindA (on_snd (load_flag cancel)) (\<lambda>c.
       if c then ret (True, decoder)
       else if status < 200 \<or> status \<ge> 300 then
         bindA (modifyA (\<lambda>(v, w). (v\<lparr>sv_error_body := sv_error_body v @ chunk\<rparr>, w))) (\<lambda>_.
           run_transfer cancel on_event status decoder es)
       else
         bindA (with_decoder (sse_push (deliver on_event) chunk) decoder) (\<lambda>decoder'.
           run_transfer cancel on_event status decoder' es))"

definition stream_request :: "string \<Rightarrow> (string \<times> string) list \<Rightarrow> string \<Rightarrow> http_request" where
  "stream_request path headers body =
     \<lparr>hq_method = ''POST'', hq_path = path,
      hq_headers = headers @ [(''Accept'', ''text/event-stream''), (''Content-Type'', ''application/json'')],
      hq_body = body\<rparr>"

definition stream_post ::
    "'w http_lib \<Rightarrow> string \<Rightarrow> (string \<times> string) list \<Rightarrow> string \<Rightarrow>
     (string \<Rightarrow> ('a stream_vars_scheme \<times> 'w, unit) act) \<Rightarrow> 'w flag_ptr \<Rightarrow>
     ('a stream_vars_scheme \<times> 'w, http_result) act" where
  "stream_post H path headers body on_event cancel =
     bindA (modifyA (\<lambda>(v, w). (v\<lparr>sv_error_body := []\<rparr>, w))) (\<lambda>_.
     bindA (on_snd (h_send H (stream_request path headers body))) (\<lambda>(events, result).
     bindA (run_transfer cancel on_event 0 [] events) (\<lambda>(aborted, decoder).
     let response = (if aborted then h_aborted H else result) in
     bindA
       (case response of
          Response r \<Rightarrow>
            if hr_status r \<ge> 200 \<and> hr_status r < 300
            then with_decoder (sse_finish (deliver on_event)) decoder
            else ret decoder
        | No_response _ \<Rightarrow> ret decoder)
       (\<lambda>_. ret response))))"

section \<open>The loops end\<close>

text \<open>Induction over the attempts: the next attempt is made only below the bound.\<close>

lemma attempt_induct:
  fixes max_attempts :: int
  assumes "\<And>attempt. (int attempt + 1 < max_attempts \<Longrightarrow> P (Suc attempt)) \<Longrightarrow> P attempt"
  shows "P attempt"
proof (induction "nat (max_attempts - int attempt)" arbitrary: attempt rule: less_induct)
  case less
  show ?case by (rule assms) (rule less, simp)
qed

text \<open>
  What the standard library promises of the clock: a sleep lasts at least as long as asked, and
  the clock never goes back.
\<close>

definition clock_ok :: "'w sys \<Rightarrow> 'w flag_ptr \<Rightarrow> bool" where
  "clock_ok S cancel \<longleftrightarrow>
     (\<forall>n w. steady_now S w + n \<le> steady_now S (sleep_for S n w)) \<and>
     (\<forall>a b w. steady_now S w \<le> steady_now S (snd (uniform_int S a b w))) \<and>
     (\<forall>l w. cancel = Some l \<longrightarrow> steady_now S w \<le> steady_now S (snd (l w)))"

lemma clock_load:
  "clock_ok S cancel \<Longrightarrow> load_flag cancel w = (r, w1) \<Longrightarrow> steady_now S w \<le> steady_now S w1"
  by (cases cancel) (auto simp: clock_ok_def load_flag_def split: prod.splits, metis snd_conv)

lemma clock_sleep: "clock_ok S cancel \<Longrightarrow> steady_now S w + n \<le> steady_now S (sleep_for S n w)"
  by (simp add: clock_ok_def)

lemma wait_until_returns:
  assumes "clock_ok S cancel" and "deadline \<le> steady_now S w + fuel"
  shows "\<exists>b w1. wait_until S cancel deadline fuel w = (Ret b, w1)"
  using assms(2)
proof (induction fuel arbitrary: w)
  case 0
  then show ?case by (subst wait_until.simps) auto
next
  case (Suc fuel)
  obtain c w1 where l: "load_flag cancel w = (Ret c, w1)" by (rule load_flag_cases)
  have "steady_now S w + 20 \<le> steady_now S (sleep_for S 20 w1)"
    using clock_load [OF assms(1) l] clock_sleep [OF assms(1), of w1 20] by linarith
  then have "deadline \<le> steady_now S (sleep_for S 20 w1) + fuel" using Suc.prems by linarith
  from Suc.IH [OF this] show ?case
    by (auto simp: wait_until.simps [of S cancel deadline "Suc fuel"] l)
qed

lemma retry_delay_cases:
  assumes "attempt < 23"
  obtains d w1 where "retry_delay S H response attempt w = (Ret d, w1)"
    and "w1 = w \<and> d \<le> 60000 \<and> 1000 dvd d \<or>
         (\<exists>j. uniform_int S 0 250 w = (j, w1) \<and> d = 500 * 2 ^ attempt + j)"
proof (cases "\<exists>r s. response = Response r \<and> h_has_header H r ''Retry-After'' \<and>
      stoi (h_header_value H r ''Retry-After'') = Inr s \<and> 0 \<le> s \<and> s \<le> 60")
  case True
  then obtain r s where h: "response = Response r" "h_has_header H r ''Retry-After''"
    "stoi (h_header_value H r ''Retry-After'') = Inr s" "0 \<le> s" "s \<le> 60" by blast
  show ?thesis
    by (rule that [of "nat s * 1000" w]) (use h in \<open>auto simp: retry_delay_def Let_def\<close>)
next
  case False
  obtain j w1 where "uniform_int S 0 250 w = (j, w1)" by (cases "uniform_int S 0 250 w")
  with False assms show ?thesis
    by (intro that [of "500 * 2 ^ attempt + j" w1])
      (auto simp: retry_delay_def Let_def split: http_result.splits sum.splits)
qed

lemma completes_retry_delay: "attempt < 23 \<Longrightarrow> completes (retry_delay S H response attempt)"
  unfolding completes_def by (metis retry_delay_cases fst_conv outcome.distinct(3,5))

text \<open>Reading the clock and waiting for a delay from then on completes.\<close>

lemma completes_wait:
  assumes "clock_ok S cancel" and "\<And>b. completes (k b)"
  shows "completes (bindA (on_snd (readA (steady_now S)))
    (\<lambda>now. bindA (on_snd (wait_until S cancel (now + delay) (Suc delay))) k))"
proof (rule completes_pairI)
  fix v w
  obtain b w1 where "wait_until S cancel (steady_now S w + delay) (Suc delay) w = (Ret b, w1)"
    using wait_until_returns [OF assms(1), of "steady_now S w + delay" w "Suc delay"] by auto
  then show "fst (bindA (on_snd (readA (steady_now S)))
      (\<lambda>now. bindA (on_snd (wait_until S cancel (now + delay) (Suc delay))) k) (v, w)) \<noteq> Hang \<and>
    fst (bindA (on_snd (readA (steady_now S)))
      (\<lambda>now. bindA (on_snd (wait_until S cancel (now + delay) (Suc delay))) k) (v, w)) \<noteq> Undef"
    using assms(2) [of b] by (simp add: bindA_def completes_def)
qed

lemma completes_delay_wait:
  assumes "clock_ok S cancel" and "attempt < 23" and "\<And>b. completes (k b)"
  shows "completes (bindA (on_snd (readA (steady_now S)))
    (\<lambda>now. bindA (on_snd (retry_delay S H response attempt))
    (\<lambda>delay. bindA (on_snd (wait_until S cancel (now + delay) (Suc delay))) k)))"
proof (rule completes_pairI)
  fix v w
  obtain d w1 where d: "retry_delay S H response attempt w = (Ret d, w1)"
    and j: "w1 = w \<or> (\<exists>j. uniform_int S 0 250 w = (j, w1))"
    using retry_delay_cases [OF assms(2), of S H response w] by metis
  have "steady_now S w \<le> steady_now S w1"
    using j assms(1) unfolding clock_ok_def by (metis order_refl snd_conv)
  then obtain b w2 where "wait_until S cancel (steady_now S w + d) (Suc d) w1 = (Ret b, w2)"
    using wait_until_returns [OF assms(1), of "steady_now S w + d" w1 "Suc d"] by auto
  with d show "fst (bindA (on_snd (readA (steady_now S)))
      (\<lambda>now. bindA (on_snd (retry_delay S H response attempt))
      (\<lambda>delay. bindA (on_snd (wait_until S cancel (now + delay) (Suc delay))) k)) (v, w)) \<noteq> Hang \<and>
    fst (bindA (on_snd (readA (steady_now S)))
      (\<lambda>now. bindA (on_snd (retry_delay S H response attempt))
      (\<lambda>delay. bindA (on_snd (wait_until S cancel (now + delay) (Suc delay))) k)) (v, w)) \<noteq> Undef"
    using assms(3) [of b] by (simp add: bindA_def completes_def)
qed

lemma completes_with_retry_from:
  assumes "clock_ok S cancel" and "completes request" and "max_attempts \<le> 23"
  shows "completes (execute_with_retry_from S H request cancel max_attempts attempt)"
proof (induction attempt rule: attempt_induct [of max_attempts])
  case (1 attempt)
  show ?case
    unfolding execute_with_retry_from.simps [of S H request cancel max_attempts attempt]
    using assms 1 by (intro completes_bindA completes_on_snd completes_load_flag)
      (auto intro!: completes_delay_wait)
qed

lemma completes_stream_from:
  assumes "clock_ok S cancel" and "completes request" and "max_attempts \<le> 23"
    and "\<And>g a. on_progress = Some g \<Longrightarrow> completes (g a)"
  shows "completes (execute_stream_from S H request received error_body cancel on_progress max_attempts attempt)"
proof (induction attempt rule: attempt_induct [of max_attempts])
  case (1 attempt)
  have progress: "completes (call_opt on_progress a)" for a
    using assms(4) by (auto intro!: completes_call_opt)
  show ?case
    unfolding execute_stream_from.simps [of S H request received error_body cancel on_progress
        max_attempts attempt]
    using assms(1-3) progress 1
    by (intro completes_bindA completes_on_snd completes_load_flag completes_readA)
      (auto intro!: completes_bindA completes_wait completes_on_snd completes_retry_delay)
qed

section \<open>The loops are bounded\<close>

text \<open>
  Counting with a variable of the caller: a request that raises it by at most one is made at most
  \<open>max_attempts\<close> times (once when the bound is not positive).
\<close>

definition attempts_left :: "int \<Rightarrow> nat \<Rightarrow> nat" where
  "attempts_left max_attempts attempt = nat (max 1 (max_attempts - int attempt))"

lemma attempts_left_Suc:
  "int attempt + 1 < max_attempts \<Longrightarrow> attempts_left max_attempts attempt = Suc (attempts_left max_attempts (Suc attempt))"
  by (simp add: attempts_left_def)

lemma attempts_left_pos: "attempts_left max_attempts attempt = Suc (attempts_left max_attempts attempt - 1)"
  by (simp add: attempts_left_def)

text \<open>Nothing around the request raises the counter: the flag, the notices, the clock, the random number.\<close>

definition quiet_waits ::
    "('v \<times> 'w \<Rightarrow> nat) \<Rightarrow> 'w sys \<Rightarrow> 'w http_lib \<Rightarrow> 'w flag_ptr \<Rightarrow> (string \<Rightarrow> ('w, unit) act) option \<Rightarrow> bool" where
  "quiet_waits F S H cancel on_progress \<longleftrightarrow>
     raises F 0 (on_snd (load_flag cancel)) \<and> (\<forall>m. raises F 0 (on_snd (call_opt on_progress m))) \<and>
     (\<forall>r k. raises F 0 (on_snd (retry_delay S H r k))) \<and> (\<forall>d k. raises F 0 (on_snd (wait_until S cancel d k)))"

lemma quiet_waits_caller: "quiet_waits (\<lambda>(v, w). f v) S H cancel on_progress"
  by (simp add: quiet_waits_def)

lemma on_snd_readA [simp]: "on_snd (readA f) = readA (\<lambda>(v, w). f w)"
  by (auto simp: on_snd_def readA_def)

lemma raises_with_retry_from:
  assumes request: "raises F n request" and quiet: "quiet_waits F S H cancel on_progress"
  shows "raises F (n * attempts_left max_attempts attempt)
    (execute_with_retry_from S H request cancel max_attempts attempt)"
proof (induction attempt rule: attempt_induct [of max_attempts])
  case (1 attempt)
  let ?b = "n * (attempts_left max_attempts attempt - 1)"
  have n: "n + ?b \<le> n * attempts_left max_attempts attempt"
    by (subst attempts_left_pos) simp
  have rec: "raises F ?b (execute_with_retry_from S H request cancel max_attempts (Suc attempt))"
    if "int attempt + 1 < max_attempts"
    using 1 [OF that] attempts_left_Suc [OF that] by simp
  show ?case
    unfolding execute_with_retry_from.simps [of S H request cancel max_attempts attempt]
    using rec quiet
    by (intro raises_bindA [OF request _ n])
      (auto simp: quiet_waits_def intro!: raises_bind_quiet)
qed

lemma raises_stream_from:
  assumes request: "raises F n request" and quiet: "quiet_waits F S H cancel on_progress"
  shows "raises F (n * attempts_left max_attempts attempt)
    (execute_stream_from S H request received error_body cancel on_progress max_attempts attempt)"
proof (induction attempt rule: attempt_induct [of max_attempts])
  case (1 attempt)
  let ?b = "n * (attempts_left max_attempts attempt - 1)"
  have n: "n + ?b \<le> n * attempts_left max_attempts attempt"
    by (subst attempts_left_pos) simp
  have rec: "raises F ?b
      (execute_stream_from S H request received error_body cancel on_progress max_attempts (Suc attempt))"
    if "int attempt + 1 < max_attempts"
    using 1 [OF that] attempts_left_Suc [OF that] by simp
  have notice: "raises F 0 (on_snd (call_opt on_progress m))" for m using quiet by (simp add: quiet_waits_def)
  have tail: "raises F ?b (if b then bindA (if c then on_snd (call_opt on_progress msg) else ret ()) (\<lambda>_. ret response) else k)"
    if "\<not> b \<Longrightarrow> raises F ?b k" for b c k msg and response :: http_result
    using that notice by (auto intro!: raises_bind_quiet)
  show ?case
    unfolding execute_stream_from.simps [of S H request received error_body cancel on_progress
        max_attempts attempt]
    using rec quiet
    by (intro raises_bind_quiet [OF notice] raises_bindA [OF request _ n])
      (auto simp: quiet_waits_def intro!: raises_bind_quiet tail)
qed

section \<open>No replay\<close>

text \<open>
  A request that must not start once an event was delivered: starting it then is undefined
  behaviour. If the loop never does so, it cannot tell the difference.
\<close>

definition guard_replay :: "('v \<Rightarrow> bool) \<Rightarrow> ('v \<times> 'w, 'a) act \<Rightarrow> ('v \<times> 'w, 'a) act" where
  "guard_replay received request = (\<lambda>(v, w). if received v then (Undef, (v, w)) else request (v, w))"

lemma stream_from_guarded:
  "\<not> received v \<Longrightarrow>
    execute_stream_from S H (guard_replay received request) received error_body cancel on_progress
      max_attempts attempt (v, w) =
    execute_stream_from S H request received error_body cancel on_progress max_attempts attempt (v, w)"
proof (induction attempt arbitrary: v w rule: attempt_induct [of max_attempts])
  case (1 attempt)
  let ?rec = "\<lambda>request. execute_stream_from S H request received error_body cancel on_progress
      max_attempts (Suc attempt)"
  let ?tail = "\<lambda>request response. bindA (on_snd (retry_delay S H response attempt)) (\<lambda>delay.
         bindA (on_snd (call_opt on_progress (retry_notice response delay attempt max_attempts))) (\<lambda>_.
         bindA (on_snd (readA (steady_now S))) (\<lambda>now.
         bindA (on_snd (wait_until S cancel (now + delay) (Suc delay))) (\<lambda>cut.
           if cut then ret response else ?rec request))))"
  have tail: "?tail (guard_replay received request) response (v1, w1) = ?tail request response (v1, w1)"
    if "\<not> received v1" "int attempt + 1 < max_attempts" for response v1 w1
    using 1(1) [OF that(2) that(1)] by (auto intro!: bindA_cong_at)
  show ?case
    unfolding execute_stream_from.simps [of S H _ received error_body cancel on_progress
        max_attempts attempt]
    apply (rule bindA_cong_at, rule refl)
    apply (rule bindA_cong_at)
    subgoal for a s1 using 1(2) by (auto simp: guard_replay_def)
    apply (rule bindA_cong_at, rule refl)+
    using tail by auto
qed

section \<open>A transfer decodes like the whole body\<close>

fun body_event :: "transfer_event \<Rightarrow> bool" where
  "body_event (Ev_headers st) = False"
| "body_event e = True"

fun body_chunks :: "transfer_event list \<Rightarrow> string list" where
  "body_chunks [] = []"
| "body_chunks (Ev_data chunk # es) = chunk # body_chunks es"
| "body_chunks (e # es) = body_chunks es"

lemma wait_until_waits:
  assumes "clock_ok S cancel" and "never_set cancel" and "deadline \<le> steady_now S w + fuel"
  shows "\<exists>w1. wait_until S cancel deadline fuel w = (Ret False, w1) \<and> deadline \<le> steady_now S w1"
  using assms(3)
proof (induction fuel arbitrary: w)
  case 0
  then show ?case by (subst wait_until.simps) auto
next
  case (Suc fuel)
  have "deadline \<le> steady_now S (sleep_for S 20 w) + fuel"
    using clock_sleep [OF assms(1), of w 20] Suc.prems by linarith
  from Suc.IH [OF this] show ?case
    using assms(2) by (auto simp: wait_until.simps [of S cancel deadline "Suc fuel"] never_set_def bindA_def)
qed

lemma with_decoder_ret [simp]: "with_decoder (ret ()) d = ret d"
  by (simp add: with_decoder_def fun_eq_iff)

lemma with_decoder_bindA:
  "with_decoder (bindA m (\<lambda>_. k)) d = bindA (with_decoder m d) (with_decoder k)"
  by (auto simp: with_decoder_def bindA_def fun_eq_iff split: prod.splits outcome.splits)

lemma run_transfer_ok:
  assumes "never_set cancel" and "list_all body_event es" and "200 \<le> st" and "st < 300"
  shows "run_transfer cancel f st d es =
    bindA (with_decoder (forA (body_chunks es) (sse_push (deliver f))) d) (\<lambda>d'. ret (False, d'))"
  using assms(2)
proof (induction es arbitrary: d)
  case (Cons e es)
  then show ?case using assms
    by (cases e) (simp_all add: bindA_on_snd_load with_decoder_bindA bindA_assoc)
qed (simp add: fun_eq_iff)

lemma run_transfer_error:
  assumes "never_set cancel" and "list_all body_event es" and "st < 200 \<or> 300 \<le> st"
  shows "run_transfer cancel f st d es (v, w) =
    (Ret (False, d), (v\<lparr>sv_error_body := sv_error_body v @ concat (body_chunks es)\<rparr>, w))"
  using assms(2)
proof (induction es arbitrary: v)
  case (Cons e es)
  then show ?case using assms
    by (cases e) (auto simp: bindA_on_snd_load)
qed simp

lemma returns_deliver: "returns f \<Longrightarrow> returns (deliver f)"
  by (auto simp: returns_def deliver_def)

lemma stream_post_ok:
  assumes f: "returns on_event" and c: "never_set cancel"
    and send: "h_send H (stream_request path headers body) w = (Ret (Ev_headers st # es, Response r), w1)"
    and es: "list_all body_event es" and st: "200 \<le> st" "st < 300" "200 \<le> hr_status r" "hr_status r < 300"
    and ok: "stream_ok fs open_ls" "concat (body_chunks es) = stream_text fs open_ls"
  shows "stream_post H path headers body on_event cancel (v, w) =
    (case forA (stream_payloads fs open_ls) (deliver on_event) (v\<lparr>sv_error_body := []\<rparr>, w1) of
       (_, s1) \<Rightarrow> (Ret (Response r), s1))"
proof -
  let ?f = "deliver on_event" and ?s = "(v\<lparr>sv_error_body := []\<rparr>, w1)"
  let ?pushes = "forA (body_chunks es) (sse_push ?f)"
  obtain s1 where s1: "forA (stream_payloads fs open_ls) ?f ?s = (Ret (), s1)"
    using forA_returns [OF returns_deliver [OF f]] by blast
  have "with_decoder (bindA ?pushes (\<lambda>_. sse_finish ?f)) [] ?s = (Ret [], s1)"
    using decode_stream [OF returns_deliver [OF f] ok] s1 by (simp add: with_decoder_def)
  then have dec: "bindA (with_decoder ?pushes []) (with_decoder (sse_finish ?f)) ?s = (Ret [], s1)"
    by (simp add: with_decoder_bindA)
  then obtain d s2 where d: "with_decoder ?pushes [] ?s = (Ret d, s2)"
    "with_decoder (sse_finish ?f) d s2 = (Ret [], s1)"
    by (rule bindA_RetE)
  have run: "run_transfer cancel on_event 0 [] (Ev_headers st # es) ?s = (Ret (False, d), s2)"
    using run_transfer_ok [OF c es st(1,2), of on_event "[]"] d(1) by simp
  show ?thesis
    using run d(2) st s1 by (simp add: stream_post_def send bindA_def)
qed

lemma stream_post_failed:
  assumes c: "never_set cancel"
    and send: "h_send H (stream_request path headers body) w = (Ret (Ev_headers st # es, result), w1)"
    and es: "list_all body_event es" and st: "st < 200 \<or> 300 \<le> st"
    and result: "case result of Response r \<Rightarrow> hr_status r < 200 \<or> 300 \<le> hr_status r | No_response _ \<Rightarrow> True"
  shows "stream_post H path headers body on_event cancel (v, w) =
    (Ret result, (v\<lparr>sv_error_body := concat (body_chunks es)\<rparr>, w1))"
  using run_transfer_error [OF c es st, of on_event "[]" "v\<lparr>sv_error_body := []\<rparr>" w1] result
  by (auto simp: stream_post_def send bindA_def split: http_result.splits)

section \<open>Properties\<close>

text \<open>A world for the witnesses: a clock that a sleep advances, and no randomness.\<close>

definition tick_sys :: "nat sys" where
  "tick_sys = \<lparr>steady_now = (\<lambda>w. w), sleep_for = (\<lambda>n w. w + n), uniform_int = (\<lambda>a b w. (a, w))\<rparr>"

definition plain_http :: "(string \<times> transfer_event list \<times> http_result) list \<Rightarrow> 'w http_lib" where
  "plain_http answers = \<lparr>
     h_send = (\<lambda>req w. (case map_of answers (hq_body req) of
                 Some a \<Rightarrow> Ret a | None \<Rightarrow> Ret ([], No_response (Error_Other ''refused'')), w)),
     h_aborted = No_response (Error_Other ''canceled''),
     h_get = (\<lambda>path hs w. (Ret (No_response (Error_Other ''refused'')), w)),
     h_has_header = (\<lambda>r k. map_of (hr_headers r) k \<noteq> None),
     h_header_value = (\<lambda>r k. case map_of (hr_headers r) k of Some v \<Rightarrow> v | None \<Rightarrow> []),
     h_error_text = (\<lambda>e. ''error''),
     h_stop = ret ()\<rparr>"

definition status_only :: "int \<Rightarrow> http_result" where
  "status_only st = Response \<lparr>hr_status = st, hr_headers = [], hr_body = []\<rparr>"

text \<open>A request that notes how often it was made and answers from a list.\<close>

definition scripted :: "http_result list \<Rightarrow> (nat \<times> nat, http_result) act" where
  "scripted rs = (\<lambda>(n, w). (Ret (if n < length rs then rs ! n else status_only 200), (Suc n, w)))"

text \<open>C22: bounded attempts. Both retry loops make the request at most \<open>max_attempts\<close> times (once when
  the bound is below one), whatever the server answers, however the clock, the cancellation flag and
  the callbacks behave: any quantity a request raises by at most one grows by at most that much.\<close>

theorem retry_loops_bounded:
  assumes "raises (\<lambda>(v, w). f v) 1 request"
  shows "raises (\<lambda>(v, w). f v) (nat (max 1 max_attempts)) (execute_with_retry S H request cancel max_attempts) \<and>
    raises (\<lambda>(v, w). f v) (nat (max 1 max_attempts))
      (execute_stream_with_retry S H request received error_body cancel on_progress max_attempts)"
  using raises_with_retry_from [OF assms quiet_waits_caller, where attempt = 0]
    raises_stream_from [OF assms quiet_waits_caller, where attempt = 0]
  unfolding execute_with_retry_def execute_stream_with_retry_def attempts_left_def by simp

theorem retry_loops_bounded_witness:
  "fst (snd (execute_stream_with_retry tick_sys (plain_http []) (scripted (replicate 9 (status_only 503)))
     (\<lambda>_. False) (\<lambda>_. []) None None 3 (0, 0))) \<le> 3"
proof -
  have "raises (\<lambda>(v, w). v) 1 (scripted (replicate 9 (status_only 503)))"
    by (auto simp: raises_def scripted_def)
  from retry_loops_bounded [OF this, of 3]
  have "raises (\<lambda>(v, w). v) 3 (execute_stream_with_retry tick_sys (plain_http [])
      (scripted (replicate 9 (status_only 503))) (\<lambda>_. False) (\<lambda>_. []) None None 3)" by simp
  then show ?thesis unfolding raises_def by (auto simp: split_def dest!: spec [of _ "0::nat"])
qed

text \<open>C23: termination. If the clock of the system keeps what the standard library promises, and the
  request and the progress callback themselves complete, then both retry loops complete for every
  bound up to 23 attempts (the library uses 3): the waits end, and the delay never overflows.\<close>

theorem retry_loops_complete:
  assumes "clock_ok S cancel" and "completes request" and "max_attempts \<le> 23"
    and "\<And>g a. on_progress = Some g \<Longrightarrow> completes (g a)"
  shows "completes (execute_with_retry S H request cancel max_attempts) \<and>
    completes (execute_stream_with_retry S H request received error_body cancel on_progress max_attempts)"
  using completes_with_retry_from [OF assms(1-3)] completes_stream_from [OF assms(1-3), of on_progress] assms(4)
  by (simp add: execute_with_retry_def execute_stream_with_retry_def)

theorem retry_loops_complete_witness:
  "completes (execute_with_retry tick_sys (plain_http []) (scripted [status_only 503]) None max_request_attempts) \<and>
   completes (execute_stream_with_retry tick_sys (plain_http []) (scripted [status_only 503]) (\<lambda>_. False)
     (\<lambda>_. []) None None max_request_attempts)"
  by (rule retry_loops_complete)
    (auto simp: clock_ok_def tick_sys_def completes_def scripted_def max_request_attempts_def)

text \<open>C11: no replay. Once an event has been handed to the consumer the streaming loop never starts the
  request again: a request for which starting after an event is undefined behaviour gives the same
  execution as the request itself.\<close>

theorem stream_never_replays:
  assumes "\<not> received v"
  shows "execute_stream_with_retry S H (guard_replay received request) received error_body cancel
      on_progress max_attempts (v, w) =
    execute_stream_with_retry S H request received error_body cancel on_progress max_attempts (v, w)"
  unfolding execute_stream_with_retry_def using assms by (rule stream_from_guarded)

theorem stream_never_replays_witness:
  "execute_stream_with_retry tick_sys (plain_http []) (guard_replay (\<lambda>n. 2 \<le> n) (scripted [status_only 503, status_only 503]))
     (\<lambda>n. 2 \<le> n) (\<lambda>_. []) None None 3 (0, 0) =
   execute_stream_with_retry tick_sys (plain_http []) (scripted [status_only 503, status_only 503])
     (\<lambda>n. 2 \<le> n) (\<lambda>_. []) None None 3 (0, 0)"
  by (rule stream_never_replays) simp

text \<open>Final answers. A streaming response is returned after exactly one request when an event was
  delivered, when it reports an exhausted quota, when its status is not a transient one, or when the
  read timed out; the variables of the caller are as that request left them.\<close>

theorem stream_final_answer:
  assumes "request (v, w) = (Ret response, (v1, w1))"
    and "received v1 \<or> is_hard_quota_response response (error_body v1) \<or>
         \<not> should_retry response (error_body v1) \<or> response = No_response Error_Read"
  shows "\<exists>w2. execute_stream_with_retry S H request received error_body cancel None max_attempts (v, w) =
    (Ret response, (v1, w2))"
proof -
  obtain c w2 where "load_flag cancel w1 = (Ret c, w2)" by (rule load_flag_cases)
  then show ?thesis
    using assms unfolding execute_stream_with_retry_def
    by (subst execute_stream_from.simps) (auto simp: bindA_def)
qed

theorem stream_final_answer_witness:
  "\<exists>w2. execute_stream_with_retry tick_sys (plain_http []) (scripted [status_only 404, status_only 200])
     (\<lambda>_. False) (\<lambda>_. []) None None 3 (0, 0) = (Ret (status_only 404), (1, w2))"
  by (rule stream_final_answer [where ?w1.0 = 0])
    (auto simp: scripted_def status_only_def should_retry_def)

text \<open>
  A service that recovers: from the time \<open>t\<close> on, the request fails \<open>n\<close> times in a way that passes (no
  response other than a read timeout, a rate limit that is not an exhausted quota, or a status 500, 502,
  503 or 504, each before any event) when the delay the loop announces is kept between two attempts, and
  then gives \<open>answer\<close>, which is not to be retried, and leaves the caller's variables as \<open>v'\<close>.
\<close>

fun recovers ::
    "'w sys \<Rightarrow> 'w http_lib \<Rightarrow> ('v \<times> 'w, http_result) act \<Rightarrow> ('v \<Rightarrow> bool) \<Rightarrow> ('v \<Rightarrow> string) \<Rightarrow> http_result \<Rightarrow> 'v \<Rightarrow>
     nat \<Rightarrow> nat \<Rightarrow> 'v \<Rightarrow> nat \<Rightarrow> bool" where
  "recovers S H request received error_body answer v' attempt 0 v t \<longleftrightarrow>
     (received v' \<or> is_hard_quota_response answer (error_body v') \<or> \<not> should_retry answer (error_body v') \<or>
      answer = No_response Error_Read) \<and>
     (\<forall>w. t \<le> steady_now S w \<longrightarrow> (\<exists>w1. request (v, w) = (Ret answer, (v', w1))))"
| "recovers S H request received error_body answer v' attempt (Suc n) v t \<longleftrightarrow>
     (\<forall>w. t \<le> steady_now S w \<longrightarrow> (\<exists>response v1 w1 delay.
        request (v, w) = (Ret response, (v1, w1)) \<and> should_retry response (error_body v1) \<and> \<not> received v1 \<and>
        response \<noteq> No_response Error_Read \<and> fst (retry_delay S H response attempt w1) = Ret delay \<and>
        recovers S H request received error_body answer v' (Suc attempt) n v1 (steady_now S w1 + delay)))"

text \<open>A progress callback that returns; it may take time.\<close>

definition patient :: "'w sys \<Rightarrow> (string \<Rightarrow> ('w, unit) act) option \<Rightarrow> bool" where
  "patient S on_progress \<longleftrightarrow>
     (\<forall>m w. \<exists>w1. call_opt on_progress m w = (Ret (), w1) \<and> steady_now S w \<le> steady_now S w1)"

lemma patientE:
  assumes "patient S on_progress"
  obtains w1 where "call_opt on_progress m w = (Ret (), w1)" and "steady_now S w \<le> steady_now S w1"
  using assms unfolding patient_def by blast

text \<open>One attempt that fails in passing, at any index.\<close>

lemma stream_attempt_retried:
  assumes "request (v, w) = (Ret response, (v1, w1))" and "call_opt on_progress notice w0 = (Ret (), w)"
    and "notice = ''Waiting for provider response (attempt '' @ dec (attempt + 1) @ '')''"
    and "should_retry response (error_body v1)" and "\<not> received v1" and "response \<noteq> No_response Error_Read"
    and "int attempt + 1 < max_attempts" and "attempt < 23"
    and "never_set cancel" and "clock_ok S cancel" and "patient S on_progress"
  shows "\<exists>delay w2. execute_stream_from S H request received error_body cancel on_progress max_attempts attempt (v, w0) =
      execute_stream_from S H request received error_body cancel on_progress max_attempts (Suc attempt) (v1, w2) \<and>
    steady_now S w1 + delay \<le> steady_now S w2 \<and> fst (retry_delay S H response attempt w1) = Ret delay"
proof -
  have hq: "\<not> is_hard_quota_response response (error_body v1)"
    using assms(4) by (auto simp: should_retry_def is_hard_quota_response_def split: http_result.splits if_splits)
  obtain d w2 where d: "retry_delay S H response attempt w1 = (Ret d, w2)"
    and j: "w2 = w1 \<or> (\<exists>j. uniform_int S 0 250 w1 = (j, w2))"
    using assms(8) by (rule retry_delay_cases [of attempt S H response w1]) auto
  have le: "steady_now S w1 \<le> steady_now S w2"
    using j assms(10) unfolding clock_ok_def by (metis order_refl snd_conv)
  obtain w3 where said: "call_opt on_progress (retry_notice response d attempt max_attempts) w2 = (Ret (), w3)"
    and le3: "steady_now S w2 \<le> steady_now S w3"
    using assms(11) by (rule patientE)
  obtain w4 where wait: "wait_until S cancel (steady_now S w3 + d) (Suc d) w3 = (Ret False, w4)"
    and w4: "steady_now S w3 + d \<le> steady_now S w4"
    using wait_until_waits [OF assms(10,9), of "steady_now S w3 + d" w3 "Suc d"] by auto
  have "execute_stream_from S H request received error_body cancel on_progress max_attempts attempt (v, w0) =
      execute_stream_from S H request received error_body cancel on_progress max_attempts (Suc attempt) (v1, w4)"
    using assms(1-7) assms(9) hq d said wait
    by (subst execute_stream_from.simps) (auto simp: bindA_def never_set_def)
  with w4 le le3 d show ?thesis by (intro exI [of _ d] exI [of _ w4]) auto
qed

lemma stream_outlasts:
  assumes "never_set cancel" and "clock_ok S cancel" and "patient S on_progress"
    and "recovers S H request received error_body answer v' attempt n v t" and "t \<le> steady_now S w"
    and "int (attempt + n) < max_attempts" and "attempt + n \<le> 23"
  shows "\<exists>w'. execute_stream_from S H request received error_body cancel on_progress max_attempts attempt (v, w) =
    (Ret answer, (v', w'))"
  using assms(4-7)
proof (induction n arbitrary: attempt v t w)
  case 0
  obtain w0 where said: "call_opt on_progress (''Waiting for provider response (attempt '' @ dec (attempt + 1) @ '')'') w =
      (Ret (), w0)" and "steady_now S w \<le> steady_now S w0"
    using assms(3) by (rule patientE)
  with 0 obtain w1 where run: "request (v, w0) = (Ret answer, (v', w1))" by fastforce
  obtain w2 where quota: "call_opt on_progress ''Provider quota is exhausted; this request will not be retried'' w1 = (Ret (), w2)"
    using assms(3) by (rule patientE)
  show ?case
    using 0(1) said run quota assms(1) by (subst execute_stream_from.simps) (auto simp: bindA_def never_set_def)
next
  case (Suc n)
  obtain w0 where said: "call_opt on_progress (''Waiting for provider response (attempt '' @ dec (attempt + 1) @ '')'') w =
      (Ret (), w0)" and "steady_now S w \<le> steady_now S w0"
    using assms(3) by (rule patientE)
  with Suc.prems(2) have late: "t \<le> steady_now S w0" by simp
  obtain response v1 w1 delay where
      run: "request (v, w0) = (Ret response, (v1, w1))" "should_retry response (error_body v1)" "\<not> received v1"
        "response \<noteq> No_response Error_Read"
      and delay: "fst (retry_delay S H response attempt w1) = Ret delay"
      and rest: "recovers S H request received error_body answer v' (Suc attempt) n v1 (steady_now S w1 + delay)"
    using Suc.prems(1) [unfolded recovers.simps, rule_format, OF late] by blast
  have "int attempt + 1 < max_attempts" "attempt < 23" using Suc.prems(3,4) by simp_all
  from stream_attempt_retried [where H = H and request = request and error_body = error_body and received = received, OF run(1) said refl run(2-4) this assms(1-3)] delay obtain w2 where
      next_attempt: "execute_stream_from S H request received error_body cancel on_progress max_attempts attempt (v, w) =
        execute_stream_from S H request received error_body cancel on_progress max_attempts (Suc attempt) (v1, w2)"
      and "steady_now S w1 + delay \<le> steady_now S w2" by auto
  from Suc.IH [OF rest this(2)] Suc.prems(3,4) next_attempt show ?case by auto
qed

text \<open>C32: transient failures are outlasted. Nobody cancels, and the callbacks of the host return. If a service
  fails in passing fewer times than there are attempts, before any event and with the delay the loop
  announces kept between two attempts, and then gives an answer, the call returns that answer and leaves
  the variables of the caller as the attempt that got it did: no attempt is given up early, and none is
  made too soon.\<close>

theorem stream_transient_retried:
  assumes "recovers S H request received error_body answer v' 0 n v (steady_now S w)"
    and "int n < max_attempts" and "n \<le> 23"
    and "never_set cancel" and "clock_ok S cancel" and "patient S on_progress"
  shows "\<exists>w'. execute_stream_with_retry S H request received error_body cancel on_progress max_attempts (v, w) =
    (Ret answer, (v', w'))"
  unfolding execute_stream_with_retry_def by (rule stream_outlasts [OF assms(4-6,1)]) (use assms(2,3) in auto)

theorem stream_transient_retried_witness:
  "\<exists>w'. execute_stream_with_retry tick_sys (plain_http []) (scripted [status_only 503, status_only 429]) (\<lambda>_. False) (\<lambda>_. [])
      None (Some (\<lambda>_ w. (Ret (), w + 1))) max_request_attempts (0, 0) = (Ret (status_only 200), (3, w'))"
proof -
  have attempts: "recovers tick_sys (plain_http []) (scripted [status_only 503, status_only 429]) (\<lambda>_. False) (\<lambda>_. [])
      (status_only 200) 3 0 2 0 (steady_now tick_sys 0)"
    by (simp add: numeral_2_eq_2 scripted_def status_only_def should_retry_def is_hard_quota_response_def
        retry_delay_def plain_http_def tick_sys_def hard_quota_markers_def to_lower_def contains_sub_def)
  show ?thesis
    by (rule stream_transient_retried [OF attempts])
      (auto simp: max_request_attempts_def clock_ok_def tick_sys_def patient_def)
qed

text \<open>The delay. Before attempt \<open>attempt + 1\<close> the client waits either a whole number of seconds up to
  60 that the server asked for, or \<open>500 * 2^attempt\<close> milliseconds plus at most 250: never more than a
  minute for the attempts the library makes.\<close>

theorem retry_delay_bounds:
  assumes "retry_delay S H response attempt w = (Ret d, w1)" and "attempt < 23"
    and "\<And>w. fst (uniform_int S 0 250 w) \<le> 250"
  shows "(1000 dvd d \<and> d \<le> 60000 \<or> 500 * 2 ^ attempt \<le> d \<and> d \<le> 500 * 2 ^ attempt + 250) \<and>
    (int attempt < max_request_attempts \<longrightarrow> d \<le> 60000)"
proof -
  obtain d' w' where d: "retry_delay S H response attempt w = (Ret d', w')"
    and or: "w' = w \<and> d' \<le> 60000 \<and> 1000 dvd d' \<or>
         (\<exists>j. uniform_int S 0 250 w = (j, w') \<and> d' = 500 * 2 ^ attempt + j)"
    using assms(2) by (rule retry_delay_cases)
  have "d' = d" using d assms(1) by simp
  have j: "j \<le> 250" if "uniform_int S 0 250 w = (j, w')" for j using assms(3) [of w] that by simp
  have "(2::nat) ^ attempt \<le> 2 ^ 2" if "int attempt < max_request_attempts"
    by (rule power_increasing) (use that in \<open>simp_all add: max_request_attempts_def\<close>)
  with or j \<open>d' = d\<close> show ?thesis by fastforce
qed

theorem retry_delay_bounds_witness:
  "\<exists>d. retry_delay tick_sys (plain_http [])
      (Response \<lparr>hr_status = 429, hr_headers = [(''Retry-After'', ''7'')], hr_body = []\<rparr>) 0 0 = (Ret d, 0) \<and>
    d \<le> 60000"
proof -
  let ?r = "Response \<lparr>hr_status = 429, hr_headers = [(''Retry-After'', ''7'')], hr_body = []\<rparr>"
  have d: "retry_delay tick_sys (plain_http []) ?r 0 0 = (Ret 7000, 0)"
    by (simp add: retry_delay_def plain_http_def stoi_def Let_def space_char_def is_digit_char_def)
  from retry_delay_bounds [OF d] have "(7000::nat) \<le> 60000"
    by (simp add: tick_sys_def max_request_attempts_def)
  with d show ?thesis by blast
qed

text \<open>C33: a successful stream. When the server answers with a success status and a body made of frames,
  the last of which may be cut off, then however the library splits the body, mixes in progress
  calls, and whatever the request was, the event callback gets exactly the payloads of the frames
  in order, the error body is empty, and the response of the library is returned.\<close>

theorem stream_post_delivers_payloads:
  assumes "returns on_event" and "never_set cancel"
    and "h_send H (stream_request path headers body) w = (Ret (Ev_headers st # es, Response r), w1)"
    and "list_all body_event es" and "200 \<le> st" and "st < 300" and "200 \<le> hr_status r" and "hr_status r < 300"
    and "stream_ok fs open_ls" and "concat (body_chunks es) = stream_text fs open_ls"
  shows "stream_post H path headers body on_event cancel (v, w) =
    (case forA (stream_payloads fs open_ls) (deliver on_event) (v\<lparr>sv_error_body := []\<rparr>, w1) of
       (_, s1) \<Rightarrow> (Ret (Response r), s1))"
  using assms by (rule stream_post_ok)

definition collect_event :: "string \<Rightarrow> (stream_vars \<times> string list, unit) act" where
  "collect_event ev = on_snd (collect ev)"

theorem stream_post_delivers_payloads_witness:
  "stream_post (plain_http [(''q'', [Ev_headers 200, Ev_data ''da'', Ev_progress, Ev_data (''ta: x'' @ [lf, lf])],
      status_only 200)]) ''/p'' [] ''q'' collect_event None (\<lparr>sv_error_body = ''old'', sv_received_event = False\<rparr>, []) =
    (Ret (status_only 200), (\<lparr>sv_error_body = [], sv_received_event = True\<rparr>, [''x'']))"
proof -
  have "returns collect_event" by (auto simp: returns_def collect_event_def collect_def)
  from stream_post_delivers_payloads [OF this, where cancel = None and st = 200
      and H = "plain_http [(''q'', [Ev_headers 200, Ev_data ''da'', Ev_progress, Ev_data (''ta: x'' @ [lf, lf])],
        status_only 200)]"
      and path = "''/p''" and headers = "[]" and body = "''q''" and w = "[]"
      and es = "[Ev_data ''da'', Ev_progress, Ev_data (''ta: x'' @ [lf, lf])]"
      and r = "\<lparr>hr_status = 200, hr_headers = [], hr_body = []\<rparr>" and ?w1.0 = "[]"
      and fs = "[([lf], [''x''])]" and open_ls = None
      and v = "\<lparr>sv_error_body = ''old'', sv_received_event = False\<rparr>"]
  show ?thesis
    by (simp add: plain_http_def stream_request_def status_only_def stream_ok_def stream_text_def
        stream_payloads_def eol_ok_def frame_ok_def plain_line_def sse_frame_def payload_def lf_def cr_def
        deliver_def collect_event_def collect_def bindA_def)
qed

text \<open>A failed stream. When the server answers with another status, the event callback is never
  called, no event is noted, and the error body is the whole body of the answer.\<close>

theorem stream_post_keeps_error_body:
  assumes "never_set cancel"
    and "h_send H (stream_request path headers body) w = (Ret (Ev_headers st # es, result), w1)"
    and "list_all body_event es" and "st < 200 \<or> 300 \<le> st"
    and "case result of Response r \<Rightarrow> hr_status r < 200 \<or> 300 \<le> hr_status r | No_response _ \<Rightarrow> True"
  shows "stream_post H path headers body on_event cancel (v, w) =
    (Ret result, (v\<lparr>sv_error_body := concat (body_chunks es)\<rparr>, w1))"
  using assms by (rule stream_post_failed)

theorem stream_post_keeps_error_body_witness:
  "stream_post (plain_http [(''q'', [Ev_headers 429, Ev_data ''slow '', Ev_data ''down''], status_only 429)])
     ''/p'' [] ''q'' collect_event None (\<lparr>sv_error_body = ''old'', sv_received_event = False\<rparr>, []) =
   (Ret (status_only 429), (\<lparr>sv_error_body = ''slow down'', sv_received_event = False\<rparr>, []))"
  using stream_post_keeps_error_body [where cancel = None and st = 429 and path = "''/p''" and headers = "[]"
      and H = "plain_http [(''q'', [Ev_headers 429, Ev_data ''slow '', Ev_data ''down''], status_only 429)]"
      and body = "''q''" and w = "[]" and es = "[Ev_data ''slow '', Ev_data ''down'']"
      and result = "status_only 429" and ?w1.0 = "[]" and on_event = collect_event
      and v = "\<lparr>sv_error_body = ''old'', sv_received_event = False\<rparr>"]
  by (simp add: plain_http_def stream_request_def status_only_def)

end
