(* ===== verification/Provider_Utils.thy ===== *)
theory Provider_Utils
  imports Http Provider "HOL-Library.Multiset"
begin

text \<open>
  The wire formats of the three providers, \<^verbatim>\<open>providers/provider_utils.cpp\<close>, and the lists of
  models, \<^verbatim>\<open>net/model_parser.cpp\<close>: request payloads, tool declarations, the parsers of the
  events of a streamed answer, error texts, trimming. A history is the list of elements of the
  JSON array the source keeps. Both parsers of the OpenAI format assemble tool calls from
  fragments; \<open>fragments\<close> are the abstract data they refine.
\<close>

section \<open>Outcomes without a state\<close>

definition bind_out :: "'a outcome \<Rightarrow> ('a \<Rightarrow> 'b outcome) \<Rightarrow> 'b outcome" where
  "bind_out r k = (case r of Ret a \<Rightarrow> k a | Throw e \<Rightarrow> Throw e | Hang \<Rightarrow> Hang | Undef \<Rightarrow> Undef)"

lemma bind_out_simps [simp]:
  "bind_out (Ret a) k = k a" "bind_out (Throw e) k = Throw e"
  "bind_out Hang k = Hang" "bind_out Undef k = Undef"
  by (simp_all add: bind_out_def)

lemma bind_out_std: "ret_or_std r \<Longrightarrow> (\<And>a. r = Ret a \<Longrightarrow> ret_or_std (k a)) \<Longrightarrow> ret_or_std (bind_out r k)"
  by (erule ret_or_stdE) auto

lemma bind_out_Ret: "bind_out r k = Ret b \<longleftrightarrow> (\<exists>a. r = Ret a \<and> k a = Ret b)"
  by (cases r) auto

text \<open>A call with local variables of its own, which start as \<open>v\<close> and end with the call.\<close>

definition with_local :: "'v \<Rightarrow> ('v \<times> 'w, 'a) act \<Rightarrow> ('w, 'a) act" where
  "with_local v m = (\<lambda>w. case m (v, w) of (r, _, w1) \<Rightarrow> (r, w1))"

section \<open>Errors and history\<close>

definition max_history_entries :: nat where
  "max_history_entries = 40"

definition error_message :: "json_lib \<Rightarrow> json \<Rightarrow> string outcome" where
  "error_message J body =
     (case j_find J body ''error'' of
        Some (JStr s) \<Rightarrow> Ret s
      | Some (JObj kvs) \<Rightarrow> bind_out (j_dump J (JObj kvs)) (j_value_string J (JObj kvs) ''message'')
      | _ \<Rightarrow> j_value_string J body ''message'' ''Unknown API error'')"

definition parse_error :: "json_lib \<Rightarrow> int \<Rightarrow> string \<Rightarrow> string \<Rightarrow> ('w, api_result) act" where
  "parse_error J status provider response_body =
     try_std
       (bindA (lift_out (bind_out (j_parse J response_body) (error_message J))) (\<lambda>m.
          ret (api_failure (provider @ '' returned HTTP '' @ dec_int status @ '': '' @ m))))
       (\<lambda>_. ret (api_failure (provider @ '' returned HTTP '' @ dec_int status)))"

definition erase_at :: "nat \<Rightarrow> 'a list \<Rightarrow> 'a list" where
  "erase_at i xs = take i xs @ drop (Suc i) xs"

text \<open>
  \<^verbatim>\<open>while (history.size() > max) history.erase(history.begin() + keep_from)\<close>; to erase at the end
  of the array is undefined.
\<close>

function erase_excess :: "nat \<Rightarrow> nat \<Rightarrow> 'a list \<Rightarrow> 'a list outcome" where
  "erase_excess keep_from max_entries history =
     (if length history > max_entries then
        (if keep_from < length history
         then erase_excess keep_from max_entries (erase_at keep_from history) else Undef)
      else Ret history)"
  by pat_completeness auto
termination
  by (relation "measure (\<lambda>(k, m, h). length h)") (auto simp: erase_at_def)

declare erase_excess.simps [simp del]

definition detail_trim_history :: "json list \<Rightarrow> nat \<Rightarrow> json list outcome" where
  "detail_trim_history history keep_from = erase_excess keep_from max_history_entries history"

lemma erase_excess_eq:
  assumes "keep \<le> m"
  shows "erase_excess keep m h = Ret (if length h > m then take keep h @ drop (keep + (length h - m)) h else h)"
  using assms
proof (induction keep m h rule: erase_excess.induct)
  case (1 keep m h)
  show ?case
  proof (cases "length h > m")
    case True
    with "1.prems" have k: "keep < length h" by simp
    have len: "length (erase_at keep h) = length h - 1" using k by (simp add: erase_at_def)
    have "erase_excess keep m h = erase_excess keep m (erase_at keep h)"
      using True k by (simp add: erase_excess.simps [of keep m h])
    moreover have "erase_excess keep m (erase_at keep h) = Ret (take keep h @ drop (keep + (length h - m)) h)"
    proof (cases "m < length h - 1")
      case True
      then have "Suc (keep + length h - Suc m) = keep + length h - m" by simp
      with True "1.IH" [OF \<open>m < length h\<close> k "1.prems"] k len "1.prems" show ?thesis
        by (simp add: erase_at_def add.commute)
    next
      case False
      with \<open>m < length h\<close> have "keep + (length h - m) = Suc keep" by simp
      with False "1.IH" [OF \<open>m < length h\<close> k "1.prems"] len show ?thesis
        by (simp add: erase_at_def)
    qed
    ultimately show ?thesis using True by simp
  qed (simp add: erase_excess.simps [of keep m h])
qed

lemma erase_excess_bad: "m < keep \<Longrightarrow> m < length h \<Longrightarrow> length h \<le> keep \<Longrightarrow> erase_excess keep m h = Undef"
  by (simp add: erase_excess.simps [of keep m h])

definition lower_ascii :: "string \<Rightarrow> string" where
  "lower_ascii value = to_lower value"

section \<open>Lists of models\<close>

text \<open>\<^verbatim>\<open>parse_model_list\<close>: the loop over the entries, then the sort.\<close>

fun model_names :: "json_lib \<Rightarrow> bool \<Rightarrow> json list \<Rightarrow> string list outcome" where
  "model_names J gemini [] = Ret []"
| "model_names J gemini (model # rest) =
     bind_out
       (if gemini then
          bind_out (j_value_strings J model ''supportedGenerationMethods'' []) (\<lambda>methods.
          bind_out (j_value_strings J model ''supportedActions'' []) (\<lambda>actions.
          Ret (''generateContent'' \<in> set methods \<or> ''generateContent'' \<in> set actions)))
        else Ret True)
       (\<lambda>usable.
          if \<not> usable then model_names J gemini rest
          else
            bind_out (j_at J model (if gemini then ''name'' else ''id'')) (\<lambda>n.
            bind_out (j_get_string J n) (\<lambda>name.
            bind_out (model_names J gemini rest) (\<lambda>names.
            Ret ((if gemini \<and> prefix ''models/'' name then drop 7 name else name) # names)))))"

definition parse_model_list :: "json_lib \<Rightarrow> string \<Rightarrow> bool \<Rightarrow> string list outcome" where
  "parse_model_list J body gemini =
     bind_out (j_parse J body) (\<lambda>document.
     bind_out (j_at J document (if gemini then ''models'' else ''data'')) (\<lambda>entries.
     bind_out (model_names J gemini (j_iter J entries)) (\<lambda>models.
     Ret (sort models))))"

record model_entry =
  me_id :: string
  me_name :: string
  me_description :: string
  me_capabilities :: model_capabilities

text \<open>A string member of an object, if the library finds one.\<close>

definition string_member :: "json_lib \<Rightarrow> json \<Rightarrow> string \<Rightarrow> string option" where
  "string_member J j k = (case j_find J j k of Some (JStr s) \<Rightarrow> Some s | _ \<Rightarrow> None)"

text \<open>The modality that excludes a model, and the tool support the catalog announces.\<close>

definition wrong_modality :: "json_lib \<Rightarrow> json \<Rightarrow> bool" where
  "wrong_modality J item =
     (case j_find J item ''architecture'' of
        Some (JObj arch) \<Rightarrow>
          (case string_member J (JObj arch) ''modality'' of
             Some modality \<Rightarrow> contains_sub ''embeddings'' modality \<or> contains_sub ''image->image'' modality
           | None \<Rightarrow> False)
      | _ \<Rightarrow> False)"

definition catalog_capabilities :: "json_lib \<Rightarrow> json \<Rightarrow> model_capabilities" where
  "catalog_capabilities J item =
     (case j_find J item ''supported_parameters'' of
        Some (JArr params) \<Rightarrow>
          if params \<noteq> [] then
            default_capabilities\<lparr>mc_supports_tools := list_ex (\<lambda>p. p = JStr ''tools'') params\<rparr>
          else default_capabilities
      | _ \<Rightarrow> default_capabilities)"

text \<open>One entry of the catalog: \<open>None\<close> where the loop continues with the next one.\<close>

definition catalog_entry :: "json_lib \<Rightarrow> json \<Rightarrow> model_entry option outcome" where
  "catalog_entry J item =
     (if \<not> is_JObj item then Ret None
      else case string_member J item ''id'' of
        None \<Rightarrow> Ret None
      | Some mid \<Rightarrow>
          if mid = [] \<or> wrong_modality J item then Ret None
          else
            bind_out (j_value_string J item ''name'' mid) (\<lambda>name.
            bind_out (j_value_string J item ''description'' []) (\<lambda>desc.
            Ret (Some \<lparr>me_id = mid, me_name = name, me_description = desc,
              me_capabilities = catalog_capabilities J item\<rparr>))))"

fun catalog_entries :: "json_lib \<Rightarrow> json list \<Rightarrow> model_entry list outcome" where
  "catalog_entries J [] = Ret []"
| "catalog_entries J (item # items) =
     bind_out (catalog_entry J item) (\<lambda>e.
     bind_out (catalog_entries J items) (\<lambda>es.
     Ret (case e of None \<Rightarrow> es | Some e \<Rightarrow> e # es)))"

text \<open>
  \<^verbatim>\<open>std::ranges::sort\<close> leaves open in which order entries of the same identifier end up, so that
  the sort is an argument; \<open>sorts_entries\<close> is what the standard promises of it.
\<close>

definition sorts_entries :: "(model_entry list \<Rightarrow> model_entry list) \<Rightarrow> bool" where
  "sorts_entries srt \<longleftrightarrow> (\<forall>es. mset (srt es) = mset es \<and> sorted (map me_id (srt es)))"

definition parse_openrouter_model_catalog ::
    "json_lib \<Rightarrow> (model_entry list \<Rightarrow> model_entry list) \<Rightarrow> string \<Rightarrow> model_entry list outcome" where
  "parse_openrouter_model_catalog J srt body =
     bind_out (j_parse J body) (\<lambda>document.
     case j_find J document ''data'' of
       Some (JArr items) \<Rightarrow> bind_out (catalog_entries J items) (\<lambda>es. Ret (srt es))
     | _ \<Rightarrow> Ret [])"

definition join_api_path :: "string \<Rightarrow> string \<Rightarrow> string" where
  "join_api_path pre path =
     (if pre = [] then path
      else if path = [] then pre
      else if last pre = CHR ''/'' \<and> hd path = CHR ''/'' then butlast pre @ path
      else if last pre \<noteq> CHR ''/'' \<and> hd path \<noteq> CHR ''/'' then pre @ ''/'' @ path
      else pre @ path)"

section \<open>Payloads\<close>

text \<open>
  The schema of a function for Gemini: the keyword \<^verbatim>\<open>additionalProperties\<close> goes from the node
  and from every schema below it. \<open>gemini_entry\<close> is what the three loops over keys do to one
  member; no key is in two of their lists.
\<close>

definition schema_map_keys :: "string list" where
  "schema_map_keys = [''properties'', ''$defs'', ''defs'', ''definitions'']"

definition schema_node_keys :: "string list" where
  "schema_node_keys = [''items'', ''not'']"

definition schema_list_keys :: "string list" where
  "schema_list_keys = [''prefixItems'', ''anyOf'', ''oneOf'', ''allOf'']"

lemma size_snd_pair [simp]: "(k, v :: json) \<in> set kvs \<Longrightarrow> size v < size (JObj kvs)"
  by (induction kvs) auto

lemma size_element [simp]: "v \<in> set xs \<Longrightarrow> size v < size (JArr xs)"
  by (induction xs) auto

function (sequential) gemini_function_schema :: "json \<Rightarrow> json"
  and gemini_entry :: "string \<Rightarrow> json \<Rightarrow> json" where
  "gemini_function_schema (JObj kvs) =
     JObj (map (\<lambda>(k, v). (k, gemini_entry k v)) (filter (\<lambda>(k, v). k \<noteq> ''additionalProperties'') kvs))"
| "gemini_function_schema schema = schema"
| "gemini_entry k v =
     (if k \<in> set schema_map_keys then
        (case v of JObj children \<Rightarrow> JObj (map (\<lambda>(a, child). (a, gemini_function_schema child)) children) | _ \<Rightarrow> v)
      else if k \<in> set schema_node_keys then
        (case v of JObj kvs \<Rightarrow> gemini_function_schema (JObj kvs) | _ \<Rightarrow> v)
      else if k \<in> set schema_list_keys then
        (case v of JArr children \<Rightarrow> JArr (map gemini_function_schema children) | _ \<Rightarrow> v)
      else v)"
  by pat_completeness auto
termination
proof (relation "measure (\<lambda>x. case x of Inl s \<Rightarrow> 2 * size s | Inr (k, v) \<Rightarrow> Suc (2 * size v))")
qed (auto split: prod.splits dest!: size_snd_pair size_element)

declare gemini_entry.simps [simp del]

definition serialize_gemini_tools :: "'w tool_registry \<Rightarrow> json" where
  "serialize_gemini_tools tools =
     (if registry_empty tools then JArr []
      else
        JArr [JObj [(''functionDeclarations'',
          JArr (map (\<lambda>declaration. case declaration of
              JObj kvs \<Rightarrow> JObj (map (\<lambda>(k, v). (k, if k = ''parameters'' then gemini_function_schema v else v)) kvs)
            | _ \<Rightarrow> declaration) (definitions_json tools)))]])"

definition text_part :: "string \<Rightarrow> json" where
  "text_part s = JObj [(''text'', JStr s)]"

definition build_gemini_payload :: "string \<Rightarrow> json list \<Rightarrow> 'w tool_registry \<Rightarrow> json" where
  "build_gemini_payload system_instruction contents tools =
     JObj ([(''contents'', JArr contents)]
       @ (if system_instruction \<noteq> [] then
            [(''systemInstruction'', JObj [(''parts'', JArr [text_part system_instruction])])] else [])
       @ (if \<not> registry_empty tools then [(''tools'', serialize_gemini_tools tools)] else []))"

definition openai_tool :: "json \<Rightarrow> json" where
  "openai_tool definition = JObj [(''type'', JStr ''function''), (''function'', definition)]"

definition serialize_deepseek_tools :: "'w tool_registry \<Rightarrow> json" where
  "serialize_deepseek_tools tools = JArr (map openai_tool (definitions_json tools))"

definition build_deepseek_payload :: "string \<Rightarrow> json list \<Rightarrow> 'w tool_registry \<Rightarrow> json" where
  "build_deepseek_payload model messages tools =
     JObj ([(''model'', JStr model), (''messages'', JArr messages), (''max_tokens'', JInt 2048),
         (''stream'', JBool True)]
       @ (if \<not> registry_empty tools then
            [(''tools'', serialize_deepseek_tools tools), (''tool_choice'', JStr ''auto'')] else []))"

definition serialize_openrouter_tools :: "'w tool_registry \<Rightarrow> json" where
  "serialize_openrouter_tools tools = JArr (map openai_tool (definitions_json tools))"

definition build_openrouter_payload :: "string \<Rightarrow> json list \<Rightarrow> 'w tool_registry \<Rightarrow> bool \<Rightarrow> json" where
  "build_openrouter_payload model messages tools supports_tools =
     JObj ([(''model'', JStr model), (''messages'', JArr messages), (''stream'', JBool True)]
       @ (if supports_tools \<and> \<not> registry_empty tools then
            [(''tools'', serialize_openrouter_tools tools), (''tool_choice'', JStr ''auto'')] else []))"

section \<open>The events of a streamed answer\<close>

text \<open>
  The local variables of \<^verbatim>\<open>execute_turn_request\<close> that the parsers write: the text, the tool
  calls (\<^verbatim>\<open>calls\<close>, \<^verbatim>\<open>function_calls\<close>) and, for Gemini, the parts.
\<close>

record turn_vars = stream_vars +
  tv_text :: string
  tv_calls :: "json list"
  tv_parts :: "json list"

definition packets_of :: "json_lib \<Rightarrow> json \<Rightarrow> json list" where
  "packets_of J parsed = j_iter J (if is_JArr parsed then parsed else JArr [parsed])"

text \<open>Append a piece of text, then hand it to the consumer.\<close>

definition take_text ::
    "json_lib \<Rightarrow> (string \<Rightarrow> ('w, unit) act) option \<Rightarrow> json \<Rightarrow> ('a turn_vars_scheme \<times> 'w, unit) act" where
  "take_text J on_text value =
     bindA (lift_out (j_get_string J value)) (\<lambda>chunk.
     bindA (modifyA (\<lambda>(v, w). (v\<lparr>tv_text := tv_text v @ chunk\<rparr>, w))) (\<lambda>_.
     on_snd (call_opt on_text chunk)))"

subsection \<open>Gemini\<close>

definition gemini_part ::
    "json_lib \<Rightarrow> (string \<Rightarrow> ('w, unit) act) option \<Rightarrow> json \<Rightarrow> ('a turn_vars_scheme \<times> 'w, unit) act" where
  "gemini_part J on_text part =
     bindA (modifyA (\<lambda>(v, w). (v\<lparr>tv_parts := tv_parts v @ [part]\<rparr>, w))) (\<lambda>_.
     bindA (if j_contains J part ''text''
            then bindA (lift_out (j_at J part ''text'')) (take_text J on_text) else ret ()) (\<lambda>_.
     if j_contains J part ''functionCall'' then
       bindA (lift_out (j_at J part ''functionCall'')) (\<lambda>fc.
         modifyA (\<lambda>(v, w). (v\<lparr>tv_calls := tv_calls v @ [fc]\<rparr>, w)))
     else ret ()))"

definition gemini_packet ::
    "json_lib \<Rightarrow> (string \<Rightarrow> ('w, unit) act) option \<Rightarrow> json \<Rightarrow> ('a turn_vars_scheme \<times> 'w, unit) act" where
  "gemini_packet J on_text packet =
     (case j_find J packet ''candidates'' of
        Some (JArr (c # cs)) \<Rightarrow>
          bindA (lift_out (j_index J (JArr (c # cs)) 0)) (\<lambda>first_candidate.
          case j_find J first_candidate ''content'' of
            Some (JObj content) \<Rightarrow>
              (case j_find J (JObj content) ''parts'' of
                 Some (JArr parts) \<Rightarrow> forA (j_iter J (JArr parts)) (gemini_part J on_text)
               | _ \<Rightarrow> ret ())
          | _ \<Rightarrow> ret ())
      | _ \<Rightarrow> ret ())"

definition parse_gemini_stream_chunk ::
    "json_lib \<Rightarrow> (string \<Rightarrow> ('w, unit) act) option \<Rightarrow> string \<Rightarrow> ('a turn_vars_scheme \<times> 'w, unit) act" where
  "parse_gemini_stream_chunk J on_text event =
     try_std
       (bindA (lift_out (j_parse J event)) (\<lambda>parsed. forA (packets_of J parsed) (gemini_packet J on_text)))
       (\<lambda>_. ret ())"

subsection \<open>DeepSeek and OpenRouter\<close>

definition blank_call :: json where
  "blank_call = JObj [(''id'', JStr []), (''type'', JStr ''function''),
     (''function'', JObj [(''name'', JStr []), (''arguments'', JStr [])])]"

text \<open>\<^verbatim>\<open>while (tool_calls.size() <= index) tool_calls.push_back(...)\<close>.\<close>

definition grow_calls :: "nat \<Rightarrow> ('a turn_vars_scheme \<times> 'w, unit) act" where
  "grow_calls index =
     modifyA (\<lambda>(v, w). (v\<lparr>tv_calls := tv_calls v @ replicate (Suc index - length (tv_calls v)) blank_call\<rparr>, w))"

text \<open>An assignment into the call \<^verbatim>\<open>tool_calls.at(index)\<close>.\<close>

definition edit_call :: "nat \<Rightarrow> (json \<Rightarrow> json outcome) \<Rightarrow> ('a turn_vars_scheme \<times> 'w, unit) act" where
  "edit_call index f =
     bindA (readA (\<lambda>(v, w). tv_calls v)) (\<lambda>calls.
     bindA (lift_out (if index < length calls then f (calls ! index) else Throw (Std_exception ''at''))) (\<lambda>call.
     modifyA (\<lambda>(v, w). (v\<lparr>tv_calls := calls[index := call]\<rparr>, w))))"

text \<open>\<^verbatim>\<open>call[key]\<close>; the entries have every key the code reads.\<close>

definition sub_value :: "json_lib \<Rightarrow> json \<Rightarrow> string \<Rightarrow> json" where
  "sub_value J call key = (case j_find J call key of Some v \<Rightarrow> v | None \<Rightarrow> JNull)"

definition set_function_member :: "json_lib \<Rightarrow> string \<Rightarrow> json \<Rightarrow> json \<Rightarrow> json outcome" where
  "set_function_member J key value call =
     bind_out (j_assign J (sub_value J call ''function'') key value) (\<lambda>f. j_assign J call ''function'' f)"

definition append_arguments :: "json_lib \<Rightarrow> json \<Rightarrow> json \<Rightarrow> json outcome" where
  "append_arguments J fn call =
     bind_out (j_get_string J (sub_value J (sub_value J call ''function'') ''arguments'')) (\<lambda>old.
     bind_out (j_at J fn ''arguments'') (\<lambda>a.
     bind_out (j_get_string J a) (\<lambda>new.
     set_function_member J ''arguments'' (JStr (old @ new)) call)))"

text \<open>\<^verbatim>\<open>if (change.contains(key)) ... change.at(key)\<close>.\<close>

definition if_member :: "json_lib \<Rightarrow> json \<Rightarrow> string \<Rightarrow> (json \<Rightarrow> ('s, unit) act) \<Rightarrow> ('s, unit) act" where
  "if_member J j key k =
     (if j_contains J j key then bindA (lift_out (j_at J j key)) k else ret ())"

definition apply_change :: "json_lib \<Rightarrow> json \<Rightarrow> ('a turn_vars_scheme \<times> 'w, unit) act" where
  "apply_change J change =
     bindA (lift_out (j_value_uint J change ''index'' 0)) (\<lambda>index.
     bindA (grow_calls index) (\<lambda>_.
     bindA (if_member J change ''id'' (\<lambda>x. edit_call index (\<lambda>call. j_assign J call ''id'' x))) (\<lambda>_.
     bindA (if_member J change ''type'' (\<lambda>x. edit_call index (\<lambda>call. j_assign J call ''type'' x))) (\<lambda>_.
     if_member J change ''function'' (\<lambda>fn.
       bindA (if_member J fn ''name'' (\<lambda>x. edit_call index (set_function_member J ''name'' x))) (\<lambda>_.
       if j_contains J fn ''arguments'' then edit_call index (append_arguments J fn) else ret ()))))))"

definition apply_delta ::
    "json_lib \<Rightarrow> (string \<Rightarrow> ('w, unit) act) option \<Rightarrow> json \<Rightarrow> ('a turn_vars_scheme \<times> 'w, unit) act" where
  "apply_delta J on_text delta =
     bindA (if_member J delta ''content'' (\<lambda>c. if c = JNull then ret () else take_text J on_text c)) (\<lambda>_.
     bindA (lift_out (j_value_json J delta ''tool_calls'' (JArr []))) (\<lambda>changes.
     forA (j_iter J changes) (apply_change J)))"

definition apply_packet ::
    "json_lib \<Rightarrow> (string \<Rightarrow> ('w, unit) act) option \<Rightarrow> json \<Rightarrow> ('a turn_vars_scheme \<times> 'w, unit) act" where
  "apply_packet J on_text packet =
     (case j_find J packet ''choices'' of
        Some (JArr (c # cs)) \<Rightarrow>
          bindA (lift_out (j_index J (JArr (c # cs)) 0)) (\<lambda>first.
          case j_find J first ''delta'' of
            Some (JObj delta) \<Rightarrow> apply_delta J on_text (JObj delta)
          | _ \<Rightarrow> ret ())
      | _ \<Rightarrow> ret ())"

definition parse_deepseek_stream_chunk ::
    "json_lib \<Rightarrow> (string \<Rightarrow> ('w, unit) act) option \<Rightarrow> string \<Rightarrow> ('a turn_vars_scheme \<times> 'w, unit) act" where
  "parse_deepseek_stream_chunk J on_text event =
     (if event = ''[DONE]'' then ret ()
      else
        try_std
          (bindA (lift_out (j_parse J event)) (\<lambda>parsed. forA (packets_of J parsed) (apply_packet J on_text)))
          (\<lambda>_. ret ()))"

definition parse_openrouter_stream_chunk ::
    "json_lib \<Rightarrow> (string \<Rightarrow> ('w, unit) act) option \<Rightarrow> string \<Rightarrow> ('a turn_vars_scheme \<times> 'w, unit) act" where
  "parse_openrouter_stream_chunk J on_text event =
     (if event = ''[DONE]'' then ret ()
      else
        try_std
          (bindA (lift_out (j_parse J event)) (\<lambda>parsed.
           forA (packets_of J parsed) (\<lambda>packet.
             if j_contains J packet ''error'' then ret () else apply_packet J on_text packet)))
          (\<lambda>_. ret ()))"

end
