(* ===== verification/Objects.thy ===== *)
theory Objects
  imports Provider_Utils
begin

text \<open>
  Provider objects. A C++ object that others hold by pointer is a part of the world, reached through a
  reference: how to read it and how to replace it. \<open>object_ref\<close> are the laws of a reference. The file
  also holds what the three provider classes share: the code around a streamed request and the one
  around a list of models, which each class repeats.
\<close>

section \<open>References to objects\<close>

record ('w, 's) ref_to =
  obj_get :: "'w \<Rightarrow> 's"
  obj_put :: "'s \<Rightarrow> 'w \<Rightarrow> 'w"

definition read_obj :: "('w, 's) ref_to \<Rightarrow> ('s \<Rightarrow> 'a) \<Rightarrow> ('w, 'a) act" where
  "read_obj self f = readA (\<lambda>w. f (obj_get self w))"

definition modify_obj :: "('w, 's) ref_to \<Rightarrow> ('s \<Rightarrow> 's) \<Rightarrow> ('w, unit) act" where
  "modify_obj self f = modifyA (\<lambda>w. obj_put self (f (obj_get self w)) w)"

locale object_ref =
  fixes self :: "('w, 's) ref_to"
  assumes get_put [simp]: "obj_get self (obj_put self s w) = s"
    and put_put [simp]: "obj_put self s (obj_put self t w) = obj_put self s w"
    and put_get [simp]: "obj_put self (obj_get self w) w = w"
begin

lemma get_after_modify: "modify_obj self f w = (r, w1) \<Longrightarrow> obj_get self w1 = f (obj_get self w)"
  by (auto simp: modify_obj_def)

lemma modify_twice:
  "bindA (modify_obj self f) (\<lambda>_. modify_obj self g) = modify_obj self (\<lambda>s. g (f s))"
  by (simp add: modify_obj_def bindA_def modifyA_def)

end

text \<open>An object next to the rest of the world.\<close>

definition first_obj :: "('s \<times> 'w, 's) ref_to" where
  "first_obj = \<lparr>obj_get = fst, obj_put = (\<lambda>s w. (s, snd w))\<rparr>"

interpretation first_obj: object_ref first_obj
  by unfold_locales (simp_all add: first_obj_def)

text \<open>Two objects that do not overlap.\<close>

locale separate_refs = one: object_ref one + other: object_ref other
  for one :: "('w, 's) ref_to" and other :: "('w, 't) ref_to" +
  assumes put_commute: "obj_put one s (obj_put other t w) = obj_put other t (obj_put one s w)"
begin

lemma other_kept [simp]: "obj_get other (obj_put one s w) = obj_get other w"
  by (metis other.get_put other.put_get put_commute)

lemma one_kept [simp]: "obj_get one (obj_put other t w) = obj_get one w"
  by (metis one.get_put one.put_get put_commute)

lemma other_after_modify [simp]: "obj_get other (snd (modify_obj one f w)) = obj_get other w"
  by (simp add: modify_obj_def)

lemma one_after_modify [simp]: "obj_get one (snd (modify_obj other f w)) = obj_get one w"
  by (simp add: modify_obj_def)

end

definition second_obj :: "('a \<times> 's \<times> 'w, 's) ref_to" where
  "second_obj = \<lparr>obj_get = (\<lambda>(a, s, w). s), obj_put = (\<lambda>s (a, t, w). (a, s, w))\<rparr>"

interpretation neighbours: separate_refs first_obj second_obj
  by unfold_locales (auto simp: first_obj_def second_obj_def)

section \<open>The platform\<close>

text \<open>
  What a provider needs and does not own: the JSON library, the clock, the HTTP library (a client is
  built for an endpoint) and the sort of the standard library.
\<close>

record 'w platform =
  pf_json :: json_lib
  pf_sys :: "'w sys"
  pf_client :: "string \<Rightarrow> 'w http_lib"
  pf_sort :: "model_entry list \<Rightarrow> model_entry list"

section \<open>A streamed turn\<close>

definition new_turn_vars :: turn_vars where
  "new_turn_vars = \<lparr>sv_error_body = [], sv_received_event = False, tv_text = [], tv_calls = [], tv_parts = []\<rparr>"

definition cancelled_turn :: model_turn where
  "cancelled_turn = failed_turn ''Request cancelled.'' True"

definition good_turn :: "string \<Rightarrow> tool_call list \<Rightarrow> model_turn" where
  "good_turn answer calls =
     \<lparr>mt_ok = True, mt_text = answer, mt_tool_calls = calls, mt_error_message = [], mt_cancelled = False\<rparr>"

text \<open>
  The end of \<^verbatim>\<open>execute_turn_request\<close>: the streamed request with its retries, then cancellation, a
  failed connection, an error status, and the block that reads the collected answer.
\<close>

definition stream_request_body ::
    "'w platform \<Rightarrow> 'w http_lib \<Rightarrow> string \<Rightarrow> (string \<times> string) list \<Rightarrow> json \<Rightarrow>
     (string \<Rightarrow> (turn_vars \<times> 'w, unit) act) \<Rightarrow> 'w flag_ptr \<Rightarrow> (turn_vars \<times> 'w, http_result) act" where
  "stream_request_body P H path headers request_json parse cancel =
     bindA (lift_out (j_dump (pf_json P) request_json)) (\<lambda>body. stream_post H path headers body parse cancel)"

definition read_answer ::
    "'w platform \<Rightarrow> 'w http_lib \<Rightarrow> string \<Rightarrow> 'w flag_ptr \<Rightarrow> (turn_vars \<times> 'w, model_turn) act \<Rightarrow> http_result \<Rightarrow>
     (turn_vars \<times> 'w, model_turn) act" where
  "read_answer P H name cancel finish response =
     bindA (on_snd (load_flag cancel)) (\<lambda>c.
       if c then ret cancelled_turn
       else case response of
         No_response e \<Rightarrow> ret (failed_turn (''Network request failed: '' @ h_error_text H e) False)
       | Response r \<Rightarrow>
           if hr_status r < 200 \<or> hr_status r \<ge> 300 then
             bindA (readA (\<lambda>(v, w). sv_error_body v)) (\<lambda>error_body.
             bindA (on_snd (parse_error (pf_json P) (hr_status r) name error_body)) (\<lambda>parsed_err.
             ret (failed_turn (res_message parsed_err) False)))
           else
             try_std finish (\<lambda>what. ret (failed_turn (''Could not read the API response: '' @ what) False)))"

definition stream_turn ::
    "'w platform \<Rightarrow> 'w http_lib \<Rightarrow> string \<Rightarrow> string \<Rightarrow> (string \<times> string) list \<Rightarrow> json \<Rightarrow>
     (string \<Rightarrow> (turn_vars \<times> 'w, unit) act) \<Rightarrow> 'w stream_callbacks \<Rightarrow> 'w flag_ptr \<Rightarrow>
     (turn_vars \<times> 'w, model_turn) act \<Rightarrow> ('w, model_turn) act" where
  "stream_turn P H name path headers request_json parse callbacks cancel finish =
     with_local new_turn_vars
       (bindA (execute_stream_with_retry (pf_sys P) H
                 (stream_request_body P H path headers request_json parse cancel)
                 sv_received_event sv_error_body cancel (cb_on_progress callbacks) max_request_attempts)
         (read_answer P H name cancel finish))"

text \<open>\<^verbatim>\<open>"Bearer " + api_key\<close>.\<close>

definition bearer :: "string \<Rightarrow> string \<times> string" where
  "bearer api_key = (''Authorization'', ''Bearer '' @ api_key)"

section \<open>Answers in the format of OpenAI\<close>

definition or_std :: "'a outcome \<Rightarrow> 'a \<Rightarrow> 'a outcome" where
  "or_std r d = (case r of Throw (Std_exception m) \<Rightarrow> Ret d | _ \<Rightarrow> r)"

fun map_out :: "('a \<Rightarrow> 'b outcome) \<Rightarrow> 'a list \<Rightarrow> 'b list outcome" where
  "map_out f [] = Ret []"
| "map_out f (x # xs) = bind_out (f x) (\<lambda>y. bind_out (map_out f xs) (\<lambda>ys. Ret (y # ys)))"

definition openai_call :: "json_lib \<Rightarrow> json \<Rightarrow> tool_call outcome" where
  "openai_call J call =
     bind_out
       (or_std
         (bind_out (j_at J call ''function'') (\<lambda>f.
          bind_out (j_at J f ''arguments'') (\<lambda>a.
          bind_out (j_get_string J a) (j_parse J)))) (JObj [])) (\<lambda>arguments.
     bind_out (j_value_string J call ''id'' []) (\<lambda>call_id.
     bind_out (j_at J call ''function'') (\<lambda>f.
     bind_out (j_at J f ''name'') (\<lambda>n.
     bind_out (j_get_string J n) (\<lambda>name.
     Ret \<lparr>cl_id = call_id, cl_name = name, cl_arguments = arguments\<rparr>)))))"

definition assistant_message :: "string \<Rightarrow> json list \<Rightarrow> json" where
  "assistant_message answer calls =
     JObj ([(''role'', JStr ''assistant''), (''content'', if answer = [] then JNull else JStr answer)]
       @ (if calls \<noteq> [] then [(''tool_calls'', JArr calls)] else []))"

definition system_message :: "string \<Rightarrow> json" where
  "system_message s = JObj [(''role'', JStr ''system''), (''content'', JStr s)]"

definition user_message :: "string \<Rightarrow> json" where
  "user_message s = JObj [(''role'', JStr ''user''), (''content'', JStr s)]"

definition tool_message :: "string \<Rightarrow> string \<Rightarrow> json" where
  "tool_message call_id content = JObj [(''role'', JStr ''tool''), (''tool_call_id'', JStr call_id), (''content'', JStr content)]"

text \<open>The \<^verbatim>\<open>try\<close> block of the two providers: \<open>push\<close> appends to the history.\<close>

definition openai_finish ::
    "'w platform \<Rightarrow> (json \<Rightarrow> ('w, unit) act) \<Rightarrow> (turn_vars \<times> 'w, model_turn) act" where
  "openai_finish P push =
     bindA (readA (\<lambda>(v, w). (tv_text v, tv_calls v))) (\<lambda>(answer, calls).
     bindA (on_snd (push (assistant_message answer calls))) (\<lambda>_.
     bindA (lift_out (map_out (openai_call (pf_json P)) calls)) (\<lambda>tool_calls.
     ret (good_turn answer tool_calls))))"

text \<open>
  The loop of \<^verbatim>\<open>continue_turn\<close>; the result of a tool is printed before its message is appended.
\<close>

definition push_tool_response ::
    "json_lib \<Rightarrow> (json \<Rightarrow> ('w, unit) act) \<Rightarrow> tool_response \<Rightarrow> ('w, unit) act" where
  "push_tool_response J push resp =
     bindA (lift_out (j_dump J (rp_result resp))) (\<lambda>content.
       push (tool_message (rp_call_id resp) content))"

text \<open>\<^verbatim>\<open>keep_from\<close>: a system message in front stays.\<close>

definition history_keep_from :: "json_lib \<Rightarrow> json list \<Rightarrow> nat outcome" where
  "history_keep_from J messages =
     (if messages = [] then Ret 0
      else bind_out (j_value_string J (hd messages) ''role'' []) (\<lambda>role.
        Ret (if role = ''system'' then 1 else 0)))"

section \<open>A list of models\<close>

definition get_models ::
    "'w platform \<Rightarrow> 'w http_lib \<Rightarrow> string \<Rightarrow> (string \<times> string) list \<Rightarrow> 'w flag_ptr \<Rightarrow> ('w, http_result) act" where
  "get_models P H path headers cancel =
     with_local ()
       (execute_with_retry (pf_sys P) H (on_snd (h_get H path headers)) cancel max_request_attempts)"

definition read_models ::
    "'w platform \<Rightarrow> 'w http_lib \<Rightarrow> string \<Rightarrow> (string \<Rightarrow> ('w, string list) act) \<Rightarrow> http_result \<Rightarrow> ('w, api_result) act" where
  "read_models P H name parse response =
     (case response of
        No_response e \<Rightarrow> ret (api_failure (''Network request failed: '' @ h_error_text H e))
      | Response r \<Rightarrow>
          if hr_status r < 200 \<or> hr_status r \<ge> 300 then parse_error (pf_json P) (hr_status r) name (hr_body r)
          else
            try_std
              (bindA (parse (hr_body r)) (\<lambda>models.
                 ret \<lparr>res_ok = True, res_message = name @ '' key verified.'', res_models = models, res_cancelled = False\<rparr>))
              (\<lambda>what. ret (api_failure (''Could not read the model list: '' @ what))))"

end
