(* ===== verification/Deepseek_Provider.thy ===== *)
theory Deepseek_Provider
  imports Objects
begin

text \<open>
  \<^verbatim>\<open>providers/deepseek_provider.cpp\<close>: the object keeps the endpoint, the HTTP client (none after
  the object was moved from) and the history of messages.
\<close>

record deepseek_object =
  ds_endpoint :: string
  ds_client :: "string option"
  ds_messages :: "json list"

definition new_deepseek :: "string \<Rightarrow> deepseek_object" where
  "new_deepseek endpoint = \<lparr>ds_endpoint = endpoint, ds_client = Some endpoint, ds_messages = []\<rparr>"

definition deepseek_endpoint :: string where
  "deepseek_endpoint = ''https://api.deepseek.com''"

definition first_or_empty :: "string list \<Rightarrow> string" where
  "first_or_empty models = (case models of [] \<Rightarrow> [] | m # _ \<Rightarrow> m)"

definition deepseek_preferred_model :: "string list \<Rightarrow> string" where
  "deepseek_preferred_model models =
     (case find (\<lambda>candidate. candidate \<in> set models) [''deepseek-chat'', ''deepseek-reasoner''] of
        Some candidate \<Rightarrow> candidate
      | None \<Rightarrow> first_or_empty models)"

definition deepseek_list_models ::
    "'w platform \<Rightarrow> ('w, deepseek_object) ref_to \<Rightarrow> string \<Rightarrow> 'w flag_ptr \<Rightarrow> ('w, api_result) act" where
  "deepseek_list_models P self api_key cancel =
     bindA (read_obj self ds_client) (\<lambda>client.
     case client of
       None \<Rightarrow> ret (api_failure ''Client not initialized.'')
     | Some endpoint \<Rightarrow>
         (let H = pf_client P endpoint in
          bindA (get_models P H ''/models'' [bearer api_key] cancel)
            (read_models P H ''DeepSeek'' (\<lambda>body. lift_out (parse_model_list (pf_json P) body False)))))"

definition deepseek_push :: "('w, deepseek_object) ref_to \<Rightarrow> json \<Rightarrow> ('w, unit) act" where
  "deepseek_push self message = modify_obj self (\<lambda>s. s\<lparr>ds_messages := ds_messages s @ [message]\<rparr>)"

definition deepseek_trim_history ::
    "'w platform \<Rightarrow> ('w, deepseek_object) ref_to \<Rightarrow> nat \<Rightarrow> ('w, unit) act" where
  "deepseek_trim_history P self max_entries =
     bindA (read_obj self ds_messages) (\<lambda>messages.
     bindA (lift_out (history_keep_from (pf_json P) messages)) (\<lambda>keep_from.
     bindA (lift_out (erase_excess keep_from max_entries messages)) (\<lambda>messages'.
     modify_obj self (\<lambda>s. s\<lparr>ds_messages := messages'\<rparr>))))"

definition deepseek_execute_turn_request ::
    "'w platform \<Rightarrow> ('w, deepseek_object) ref_to \<Rightarrow> string \<Rightarrow> string \<Rightarrow> 'w tool_registry \<Rightarrow>
     'w stream_callbacks \<Rightarrow> 'w flag_ptr \<Rightarrow> ('w, model_turn) act" where
  "deepseek_execute_turn_request P self api_key model tools callbacks cancel =
     bindA (read_obj self ds_client) (\<lambda>client.
     case client of
       None \<Rightarrow> ret (failed_turn ''Client not initialized.'' False)
     | Some endpoint \<Rightarrow>
         bindA (load_flag cancel) (\<lambda>c.
         if c then ret cancelled_turn
         else
           bindA (read_obj self ds_messages) (\<lambda>messages.
           stream_turn P (pf_client P endpoint) ''DeepSeek'' ''/chat/completions'' [bearer api_key]
             (build_deepseek_payload model messages tools)
             (parse_deepseek_stream_chunk (pf_json P) (cb_on_text callbacks)) callbacks cancel
             (openai_finish P (deepseek_push self)))))"

definition deepseek_start_turn ::
    "'w platform \<Rightarrow> ('w, deepseek_object) ref_to \<Rightarrow> string \<Rightarrow> string \<Rightarrow> string \<Rightarrow> string \<Rightarrow> 'w tool_registry \<Rightarrow>
     'w stream_callbacks \<Rightarrow> 'w flag_ptr \<Rightarrow> ('w, model_turn) act" where
  "deepseek_start_turn P self api_key model system_instruction user_prompt tools callbacks cancel =
     bindA (read_obj self ds_messages) (\<lambda>messages.
     bindA (if messages = [] \<and> system_instruction \<noteq> [] then deepseek_push self (system_message system_instruction)
            else ret ()) (\<lambda>_.
     bindA (deepseek_push self (user_message user_prompt)) (\<lambda>_.
     deepseek_execute_turn_request P self api_key model tools callbacks cancel)))"

definition deepseek_continue_turn ::
    "'w platform \<Rightarrow> ('w, deepseek_object) ref_to \<Rightarrow> string \<Rightarrow> string \<Rightarrow> string \<Rightarrow> tool_response list \<Rightarrow>
     'w tool_registry \<Rightarrow> 'w stream_callbacks \<Rightarrow> 'w flag_ptr \<Rightarrow> ('w, model_turn) act" where
  "deepseek_continue_turn P self api_key model system_instruction tool_responses tools callbacks cancel =
     bindA (forA tool_responses (push_tool_response (pf_json P) (deepseek_push self))) (\<lambda>_.
     deepseek_execute_turn_request P self api_key model tools callbacks cancel)"

definition deepseek_cancel_active_request ::
    "'w platform \<Rightarrow> ('w, deepseek_object) ref_to \<Rightarrow> ('w, unit) act" where
  "deepseek_cancel_active_request P self =
     bindA (read_obj self ds_client) (\<lambda>client.
       case client of None \<Rightarrow> ret () | Some endpoint \<Rightarrow> h_stop (pf_client P endpoint))"

definition deepseek_reset_session :: "('w, deepseek_object) ref_to \<Rightarrow> ('w, unit) act" where
  "deepseek_reset_session self = modify_obj self (\<lambda>s. s\<lparr>ds_messages := []\<rparr>)"

definition deepseek_session_entries :: "('w, deepseek_object) ref_to \<Rightarrow> ('w, nat) act" where
  "deepseek_session_entries self = read_obj self (\<lambda>s. length (ds_messages s))"

text \<open>The object behind the interface; \<^verbatim>\<open>model_capabilities\<close> is the one of the base class.\<close>

definition deepseek_provider :: "'w platform \<Rightarrow> ('w, deepseek_object) ref_to \<Rightarrow> 'w provider" where
  "deepseek_provider P self = \<lparr>
     p_type = Deepseek,
     p_name = ''DeepSeek'',
     p_preferred_model = (\<lambda>models. ret (deepseek_preferred_model models)),
     p_model_capabilities = (\<lambda>_. ret default_capabilities),
     p_list_models = deepseek_list_models P self,
     p_start_turn = deepseek_start_turn P self,
     p_continue_turn = deepseek_continue_turn P self,
     p_trim_history = deepseek_trim_history P self,
     p_cancel_active_request = deepseek_cancel_active_request P self,
     p_reset_session = deepseek_reset_session self,
     p_session_entries = deepseek_session_entries self\<rparr>"

end
