(* ===== verification/Gemini_Provider.thy ===== *)
theory Gemini_Provider
  imports Deepseek_Provider
begin

text \<open>
  \<^verbatim>\<open>providers/gemini_provider.cpp\<close>: the history is a list of contents, the system instruction is sent
  with every request, and the answer keeps the parts of the model as they arrived.
\<close>

record gemini_object =
  gm_endpoint :: string
  gm_client :: "string option"
  gm_contents :: "json list"

definition new_gemini :: "string \<Rightarrow> gemini_object" where
  "new_gemini endpoint = \<lparr>gm_endpoint = endpoint, gm_client = Some endpoint, gm_contents = []\<rparr>"

definition gemini_endpoint :: string where
  "gemini_endpoint = ''https://generativelanguage.googleapis.com''"

definition gemini_candidates :: "string list" where
  "gemini_candidates = [''gemini-flash-latest'', ''gemini-3.5-flash-lite'', ''gemini-3.5-flash'',
     ''gemini-3.1-flash-lite'', ''gemini-3.1-flash'', ''gemini-2.5-flash'']"

definition gemini_text_model :: "string \<Rightarrow> bool" where
  "gemini_text_model candidate =
     (let model = lower_ascii candidate in
      contains_sub ''gemini'' model \<and> contains_sub ''flash'' model \<and> \<not> contains_sub ''image'' model
      \<and> \<not> contains_sub ''tts'' model \<and> \<not> contains_sub ''transcribe'' model)"

definition gemini_preferred_model :: "string list \<Rightarrow> string" where
  "gemini_preferred_model models =
     (case find (\<lambda>candidate. candidate \<in> set models) gemini_candidates of
        Some candidate \<Rightarrow> candidate
      | None \<Rightarrow>
          (case find gemini_text_model models of
             Some candidate \<Rightarrow> candidate
           | None \<Rightarrow> first_or_empty models))"

definition gemini_key :: "string \<Rightarrow> string \<times> string" where
  "gemini_key api_key = (''x-goog-api-key'', api_key)"

definition gemini_list_models ::
    "'w platform \<Rightarrow> ('w, gemini_object) ref_to \<Rightarrow> string \<Rightarrow> 'w flag_ptr \<Rightarrow> ('w, api_result) act" where
  "gemini_list_models P self api_key cancel =
     bindA (read_obj self gm_client) (\<lambda>client.
     case client of
       None \<Rightarrow> ret (api_failure ''Client not initialized.'')
     | Some endpoint \<Rightarrow>
         (let H = pf_client P endpoint in
          bindA (get_models P H ''/v1beta/models?pageSize=1000'' [gemini_key api_key] cancel)
            (read_models P H ''Gemini'' (\<lambda>body. lift_out (parse_model_list (pf_json P) body True)))))"

definition gemini_push :: "('w, gemini_object) ref_to \<Rightarrow> json \<Rightarrow> ('w, unit) act" where
  "gemini_push self content = modify_obj self (\<lambda>s. s\<lparr>gm_contents := gm_contents s @ [content]\<rparr>)"

definition gemini_trim_history :: "('w, gemini_object) ref_to \<Rightarrow> nat \<Rightarrow> ('w, unit) act" where
  "gemini_trim_history self max_entries =
     bindA (read_obj self gm_contents) (\<lambda>contents.
     bindA (lift_out (erase_excess 0 max_entries contents)) (\<lambda>contents'.
     modify_obj self (\<lambda>s. s\<lparr>gm_contents := contents'\<rparr>)))"

definition gemini_call :: "json_lib \<Rightarrow> json \<Rightarrow> tool_call outcome" where
  "gemini_call J fc =
     bind_out (j_value_string J fc ''id'' []) (\<lambda>call_id.
     bind_out (j_at J fc ''name'') (\<lambda>n.
     bind_out (j_get_string J n) (\<lambda>name.
     bind_out (j_value_json J fc ''args'' (JObj [])) (\<lambda>arguments.
     Ret \<lparr>cl_id = call_id, cl_name = name, cl_arguments = arguments\<rparr>))))"

definition gemini_content :: "string \<Rightarrow> json list \<Rightarrow> json" where
  "gemini_content role parts = JObj [(''role'', JStr role), (''parts'', JArr parts)]"

text \<open>The \<^verbatim>\<open>try\<close> block: an answer without parts is an error and leaves no trace in the history.\<close>

definition gemini_finish ::
    "'w platform \<Rightarrow> ('w, gemini_object) ref_to \<Rightarrow> (turn_vars \<times> 'w, model_turn) act" where
  "gemini_finish P self =
     bindA (readA fst) (\<lambda>v.
     if tv_parts v = [] then ret (failed_turn ''Gemini returned an empty streamed response.'' False)
     else
       bindA (on_snd (gemini_push self (gemini_content ''model'' (tv_parts v)))) (\<lambda>_.
       bindA (lift_out (map_out (gemini_call (pf_json P)) (tv_calls v))) (\<lambda>calls.
       ret (good_turn (tv_text v) calls))))"

definition gemini_execute_turn_request ::
    "'w platform \<Rightarrow> ('w, gemini_object) ref_to \<Rightarrow> string \<Rightarrow> string \<Rightarrow> string \<Rightarrow> 'w tool_registry \<Rightarrow>
     'w stream_callbacks \<Rightarrow> 'w flag_ptr \<Rightarrow> ('w, model_turn) act" where
  "gemini_execute_turn_request P self api_key model system_instruction tools callbacks cancel =
     bindA (read_obj self gm_client) (\<lambda>client.
     case client of
       None \<Rightarrow> ret (failed_turn ''Client not initialized.'' False)
     | Some endpoint \<Rightarrow>
         bindA (load_flag cancel) (\<lambda>c.
         if c then ret cancelled_turn
         else
           bindA (read_obj self gm_contents) (\<lambda>contents.
           stream_turn P (pf_client P endpoint) ''Gemini''
             (''/v1beta/models/'' @ model @ '':streamGenerateContent?alt=sse'') [gemini_key api_key]
             (build_gemini_payload system_instruction contents tools)
             (parse_gemini_stream_chunk (pf_json P) (cb_on_text callbacks)) callbacks cancel
             (gemini_finish P self))))"

definition gemini_start_turn ::
    "'w platform \<Rightarrow> ('w, gemini_object) ref_to \<Rightarrow> string \<Rightarrow> string \<Rightarrow> string \<Rightarrow> string \<Rightarrow> 'w tool_registry \<Rightarrow>
     'w stream_callbacks \<Rightarrow> 'w flag_ptr \<Rightarrow> ('w, model_turn) act" where
  "gemini_start_turn P self api_key model system_instruction user_prompt tools callbacks cancel =
     bindA (gemini_push self (gemini_content ''user'' [text_part user_prompt])) (\<lambda>_.
     gemini_execute_turn_request P self api_key model system_instruction tools callbacks cancel)"

definition gemini_response_part :: "tool_response \<Rightarrow> json" where
  "gemini_response_part resp =
     JObj [(''functionResponse'', JObj [(''name'', JStr (rp_name resp)), (''id'', JStr (rp_call_id resp)),
       (''response'', rp_result resp)])]"

definition gemini_continue_turn ::
    "'w platform \<Rightarrow> ('w, gemini_object) ref_to \<Rightarrow> string \<Rightarrow> string \<Rightarrow> string \<Rightarrow> tool_response list \<Rightarrow>
     'w tool_registry \<Rightarrow> 'w stream_callbacks \<Rightarrow> 'w flag_ptr \<Rightarrow> ('w, model_turn) act" where
  "gemini_continue_turn P self api_key model system_instruction tool_responses tools callbacks cancel =
     bindA (gemini_push self (gemini_content ''user'' (map gemini_response_part tool_responses))) (\<lambda>_.
     gemini_execute_turn_request P self api_key model system_instruction tools callbacks cancel)"

definition gemini_cancel_active_request ::
    "'w platform \<Rightarrow> ('w, gemini_object) ref_to \<Rightarrow> ('w, unit) act" where
  "gemini_cancel_active_request P self =
     bindA (read_obj self gm_client) (\<lambda>client.
       case client of None \<Rightarrow> ret () | Some endpoint \<Rightarrow> h_stop (pf_client P endpoint))"

definition gemini_reset_session :: "('w, gemini_object) ref_to \<Rightarrow> ('w, unit) act" where
  "gemini_reset_session self = modify_obj self (\<lambda>s. s\<lparr>gm_contents := []\<rparr>)"

definition gemini_session_entries :: "('w, gemini_object) ref_to \<Rightarrow> ('w, nat) act" where
  "gemini_session_entries self = read_obj self (\<lambda>s. length (gm_contents s))"

definition gemini_provider :: "'w platform \<Rightarrow> ('w, gemini_object) ref_to \<Rightarrow> 'w provider" where
  "gemini_provider P self = \<lparr>
     p_type = Gemini,
     p_name = ''Gemini'',
     p_preferred_model = (\<lambda>models. ret (gemini_preferred_model models)),
     p_model_capabilities = (\<lambda>_. ret default_capabilities),
     p_list_models = gemini_list_models P self,
     p_start_turn = gemini_start_turn P self,
     p_continue_turn = gemini_continue_turn P self,
     p_trim_history = gemini_trim_history self,
     p_cancel_active_request = gemini_cancel_active_request P self,
     p_reset_session = gemini_reset_session self,
     p_session_entries = gemini_session_entries self\<rparr>"

end
