(* ===== verification/Openrouter_Provider.thy ===== *)
theory Openrouter_Provider
  imports Gemini_Provider
begin

text \<open>
  \<^verbatim>\<open>providers/openrouter_provider.cpp\<close>: besides its history the object keeps its configuration and the
  capabilities of the models it last listed; a model without system instructions gets them in
  front of the first prompt.
\<close>

record openrouter_config =
  oc_endpoint :: string
  oc_api_path_prefix :: string
  oc_http_referer :: string
  oc_app_title :: string

definition default_openrouter_config :: openrouter_config where
  "default_openrouter_config = \<lparr>oc_endpoint = ''https://openrouter.ai'', oc_api_path_prefix = ''/api/v1'',
     oc_http_referer = [], oc_app_title = []\<rparr>"

record openrouter_object =
  or_config :: openrouter_config
  or_client :: "string option"
  or_messages :: "json list"
  or_model_capabilities :: "(string \<times> model_capabilities) list"

definition init_client :: "openrouter_object \<Rightarrow> openrouter_object" where
  "init_client s = s\<lparr>or_client := Some (oc_endpoint (or_config s))\<rparr>"

definition new_openrouter :: "openrouter_config \<Rightarrow> openrouter_object" where
  "new_openrouter config =
     init_client \<lparr>or_config = config, or_client = None, or_messages = [], or_model_capabilities = []\<rparr>"

definition new_openrouter_at :: "string \<Rightarrow> string \<Rightarrow> openrouter_object" where
  "new_openrouter_at endpoint api_path_prefix =
     new_openrouter (default_openrouter_config\<lparr>oc_endpoint := endpoint, oc_api_path_prefix := api_path_prefix\<rparr>)"

definition openrouter_set_config ::
    "('w, openrouter_object) ref_to \<Rightarrow> openrouter_config \<Rightarrow> ('w, unit) act" where
  "openrouter_set_config self config = modify_obj self (\<lambda>s. init_client (s\<lparr>or_config := config\<rparr>))"

definition openrouter_candidates :: "string list" where
  "openrouter_candidates = [''anthropic/claude-3.7-sonnet'', ''anthropic/claude-3.5-sonnet'', ''openai/gpt-4o'',
     ''deepseek/deepseek-chat'', ''openai/gpt-4o-mini'', ''google/gemini-2.0-flash-001'',
     ''meta-llama/llama-3.3-70b-instruct'', ''meta-llama/llama-3.1-70b-instruct'']"

text \<open>The nested loop: the first pattern that some model contains, in the first such model.\<close>

fun first_containing :: "string list \<Rightarrow> string list \<Rightarrow> string option" where
  "first_containing [] models = None"
| "first_containing (pat # pats) models =
     (case find (contains_sub pat) models of Some m \<Rightarrow> Some m | None \<Rightarrow> first_containing pats models)"

definition openrouter_preferred_model :: "string list \<Rightarrow> string" where
  "openrouter_preferred_model models =
     (case find (\<lambda>candidate. candidate \<in> set models) openrouter_candidates of
        Some candidate \<Rightarrow> candidate
      | None \<Rightarrow>
          (case first_containing [''claude-3.5-sonnet'', ''gpt-4o'', ''deepseek-chat''] models of
             Some model \<Rightarrow> model
           | None \<Rightarrow> first_or_empty models))"

definition capabilities_in :: "(string \<times> model_capabilities) list \<Rightarrow> string \<Rightarrow> model_capabilities" where
  "capabilities_in m model = (case map_of m model of Some c \<Rightarrow> c | None \<Rightarrow> default_capabilities)"

definition openrouter_model_capabilities ::
    "('w, openrouter_object) ref_to \<Rightarrow> string \<Rightarrow> ('w, model_capabilities) act" where
  "openrouter_model_capabilities self model =
     read_obj self (\<lambda>s. capabilities_in (or_model_capabilities s) model)"

definition openrouter_headers :: "openrouter_config \<Rightarrow> string \<Rightarrow> (string \<times> string) list" where
  "openrouter_headers config api_key =
     [bearer api_key]
     @ (if oc_http_referer config \<noteq> [] then [(''HTTP-Referer'', oc_http_referer config)] else [])
     @ (if oc_app_title config \<noteq> [] then [(''X-Title'', oc_app_title config)] else [])"

text \<open>The \<^verbatim>\<open>try\<close> block of \<^verbatim>\<open>list_models\<close>: a readable catalog replaces the capabilities.\<close>

definition store_catalog :: "model_entry list \<Rightarrow> (string \<times> model_capabilities) list" where
  "store_catalog entries = foldl (\<lambda>m e. map_emplace (me_id e) (me_capabilities e) m) [] entries"

definition openrouter_read_catalog ::
    "'w platform \<Rightarrow> ('w, openrouter_object) ref_to \<Rightarrow> string \<Rightarrow> ('w, string list) act" where
  "openrouter_read_catalog P self body =
     bindA (lift_out (parse_openrouter_model_catalog (pf_json P) (pf_sort P) body)) (\<lambda>entries.
     bindA (modify_obj self (\<lambda>s. s\<lparr>or_model_capabilities := store_catalog entries\<rparr>)) (\<lambda>_.
     ret (map me_id entries)))"

definition openrouter_list_models ::
    "'w platform \<Rightarrow> ('w, openrouter_object) ref_to \<Rightarrow> string \<Rightarrow> 'w flag_ptr \<Rightarrow> ('w, api_result) act" where
  "openrouter_list_models P self api_key cancel =
     bindA (load_flag cancel) (\<lambda>c.
     if c then ret api_cancelled
     else
       bindA (read_obj self (\<lambda>s. (or_client s, or_config s))) (\<lambda>(client, config).
       case client of
         None \<Rightarrow> ret (api_failure ''Client not initialized.'')
       | Some endpoint \<Rightarrow>
           (let H = pf_client P endpoint; models_path = join_api_path (oc_api_path_prefix config) ''/models'' in
            bindA (get_models P H models_path (openrouter_headers config api_key) cancel) (\<lambda>response.
            bindA (load_flag cancel) (\<lambda>c.
            if c then ret api_cancelled
            else read_models P H ''OpenRouter'' (openrouter_read_catalog P self) response)))))"

definition openrouter_push :: "('w, openrouter_object) ref_to \<Rightarrow> json \<Rightarrow> ('w, unit) act" where
  "openrouter_push self message = modify_obj self (\<lambda>s. s\<lparr>or_messages := or_messages s @ [message]\<rparr>)"

definition openrouter_trim_history ::
    "'w platform \<Rightarrow> ('w, openrouter_object) ref_to \<Rightarrow> nat \<Rightarrow> ('w, unit) act" where
  "openrouter_trim_history P self max_entries =
     bindA (read_obj self or_messages) (\<lambda>messages.
     bindA (lift_out (history_keep_from (pf_json P) messages)) (\<lambda>keep_from.
     bindA (lift_out (erase_excess keep_from max_entries messages)) (\<lambda>messages'.
     modify_obj self (\<lambda>s. s\<lparr>or_messages := messages'\<rparr>))))"

definition openrouter_execute_turn_request ::
    "'w platform \<Rightarrow> ('w, openrouter_object) ref_to \<Rightarrow> string \<Rightarrow> string \<Rightarrow> 'w tool_registry \<Rightarrow>
     'w stream_callbacks \<Rightarrow> 'w flag_ptr \<Rightarrow> ('w, model_turn) act" where
  "openrouter_execute_turn_request P self api_key model tools callbacks cancel =
     bindA (read_obj self or_client) (\<lambda>client.
     case client of
       None \<Rightarrow> ret (failed_turn ''Client not initialized.'' False)
     | Some endpoint \<Rightarrow>
         bindA (load_flag cancel) (\<lambda>c.
         if c then ret cancelled_turn
         else
           bindA (openrouter_model_capabilities self model) (\<lambda>caps.
           bindA (read_obj self (\<lambda>s. (or_messages s, or_config s))) (\<lambda>(messages, config).
           stream_turn P (pf_client P endpoint) ''OpenRouter''
             (join_api_path (oc_api_path_prefix config) ''/chat/completions'') (openrouter_headers config api_key)
             (build_openrouter_payload model messages tools (mc_supports_tools caps))
             (parse_openrouter_stream_chunk (pf_json P) (cb_on_text callbacks)) callbacks cancel
             (openai_finish P (openrouter_push self))))))"

definition openrouter_start_turn ::
    "'w platform \<Rightarrow> ('w, openrouter_object) ref_to \<Rightarrow> string \<Rightarrow> string \<Rightarrow> string \<Rightarrow> string \<Rightarrow> 'w tool_registry \<Rightarrow>
     'w stream_callbacks \<Rightarrow> 'w flag_ptr \<Rightarrow> ('w, model_turn) act" where
  "openrouter_start_turn P self api_key model system_instruction user_prompt tools callbacks cancel =
     bindA (load_flag cancel) (\<lambda>c.
     if c then ret cancelled_turn
     else
       bindA (openrouter_model_capabilities self model) (\<lambda>caps.
       bindA (read_obj self or_messages) (\<lambda>messages.
       bindA (if messages = [] \<and> system_instruction \<noteq> [] \<and> mc_supports_system_instruction caps
              then openrouter_push self (system_message system_instruction) else ret ()) (\<lambda>_.
       bindA (read_obj self or_messages) (\<lambda>messages'.
       let prompt_text =
         (if \<not> mc_supports_system_instruction caps \<and> system_instruction \<noteq> [] \<and> messages' = []
          then system_instruction @ [CHR 0x0A, CHR 0x0A] @ user_prompt else user_prompt) in
       bindA (openrouter_push self (user_message prompt_text)) (\<lambda>_.
       openrouter_execute_turn_request P self api_key model tools callbacks cancel))))))"

definition openrouter_continue_turn ::
    "'w platform \<Rightarrow> ('w, openrouter_object) ref_to \<Rightarrow> string \<Rightarrow> string \<Rightarrow> string \<Rightarrow> tool_response list \<Rightarrow>
     'w tool_registry \<Rightarrow> 'w stream_callbacks \<Rightarrow> 'w flag_ptr \<Rightarrow> ('w, model_turn) act" where
  "openrouter_continue_turn P self api_key model system_instruction tool_responses tools callbacks cancel =
     bindA (load_flag cancel) (\<lambda>c.
     if c then ret cancelled_turn
     else
       bindA (forA tool_responses (push_tool_response (pf_json P) (openrouter_push self))) (\<lambda>_.
       openrouter_execute_turn_request P self api_key model tools callbacks cancel))"

definition openrouter_cancel_active_request ::
    "'w platform \<Rightarrow> ('w, openrouter_object) ref_to \<Rightarrow> ('w, unit) act" where
  "openrouter_cancel_active_request P self =
     bindA (read_obj self or_client) (\<lambda>client.
       case client of None \<Rightarrow> ret () | Some endpoint \<Rightarrow> h_stop (pf_client P endpoint))"

definition openrouter_reset_session :: "('w, openrouter_object) ref_to \<Rightarrow> ('w, unit) act" where
  "openrouter_reset_session self = modify_obj self (\<lambda>s. s\<lparr>or_messages := []\<rparr>)"

definition openrouter_session_entries :: "('w, openrouter_object) ref_to \<Rightarrow> ('w, nat) act" where
  "openrouter_session_entries self = read_obj self (\<lambda>s. length (or_messages s))"

definition openrouter_provider :: "'w platform \<Rightarrow> ('w, openrouter_object) ref_to \<Rightarrow> 'w provider" where
  "openrouter_provider P self = \<lparr>
     p_type = Openrouter,
     p_name = ''OpenRouter'',
     p_preferred_model = (\<lambda>models. ret (openrouter_preferred_model models)),
     p_model_capabilities = openrouter_model_capabilities self,
     p_list_models = openrouter_list_models P self,
     p_start_turn = openrouter_start_turn P self,
     p_continue_turn = openrouter_continue_turn P self,
     p_trim_history = openrouter_trim_history P self,
     p_cancel_active_request = openrouter_cancel_active_request P self,
     p_reset_session = openrouter_reset_session self,
     p_session_entries = openrouter_session_entries self\<rparr>"

section \<open>The factory\<close>

text \<open>
  \<^verbatim>\<open>create_provider\<close>: a new object of the class of the type, at the place the caller keeps for it.
\<close>

record 'w provider_slots =
  sl_gemini :: "('w, gemini_object) ref_to"
  sl_deepseek :: "('w, deepseek_object) ref_to"
  sl_openrouter :: "('w, openrouter_object) ref_to"

definition create_provider ::
    "'w platform \<Rightarrow> 'w provider_slots \<Rightarrow> provider_type \<Rightarrow> ('w, 'w provider option) act" where
  "create_provider P slots ty =
     (case ty of
        Gemini \<Rightarrow>
          bindA (modify_obj (sl_gemini slots) (\<lambda>_. new_gemini gemini_endpoint)) (\<lambda>_.
            ret (Some (gemini_provider P (sl_gemini slots))))
      | Deepseek \<Rightarrow>
          bindA (modify_obj (sl_deepseek slots) (\<lambda>_. new_deepseek deepseek_endpoint)) (\<lambda>_.
            ret (Some (deepseek_provider P (sl_deepseek slots))))
      | Openrouter \<Rightarrow>
          bindA (modify_obj (sl_openrouter slots) (\<lambda>_. new_openrouter default_openrouter_config)) (\<lambda>_.
            ret (Some (openrouter_provider P (sl_openrouter slots))))
      | No_provider \<Rightarrow> ret None
      | Custom \<Rightarrow> ret None)"

end
