(* ===== verification/Fragments.thy ===== *)
theory Fragments
  imports Provider_Utils
begin

text \<open>
  What the parsers of the OpenAI format compute, stated on abstract data: the pieces of text and the
  fragments of tool calls an event carries, and calls as records. The parsers of
  \<open>Provider_Utils\<close> refine \<open>apply_fragment\<close>, so that the arguments of a call are the fragments
  sent for its index, joined in order.
\<close>

section \<open>Abstract calls and fragments\<close>

record call_state =
  cs_id :: json
  cs_type :: json
  cs_name :: json
  cs_arguments :: string

definition blank_state :: call_state where
  "blank_state = \<lparr>cs_id = JStr [], cs_type = JStr ''function'', cs_name = JStr [], cs_arguments = []\<rparr>"

definition call_json :: "call_state \<Rightarrow> json" where
  "call_json c = JObj [(''id'', cs_id c), (''type'', cs_type c),
     (''function'', JObj [(''name'', cs_name c), (''arguments'', JStr (cs_arguments c))])]"

record fragment =
  fr_index :: nat
  fr_id :: "json option"
  fr_type :: "json option"
  fr_name :: "json option"
  fr_arguments :: "string option"

definition or_keep :: "'a option \<Rightarrow> 'a \<Rightarrow> 'a" where
  "or_keep new old = (case new of None \<Rightarrow> old | Some a \<Rightarrow> a)"

definition the_text :: "string option \<Rightarrow> string" where
  "the_text s = or_keep s []"

definition update_call :: "fragment \<Rightarrow> call_state \<Rightarrow> call_state" where
  "update_call fr c = c\<lparr>cs_id := or_keep (fr_id fr) (cs_id c), cs_type := or_keep (fr_type fr) (cs_type c),
     cs_name := or_keep (fr_name fr) (cs_name c), cs_arguments := cs_arguments c @ the_text (fr_arguments fr)\<rparr>"

definition grown :: "nat \<Rightarrow> call_state list \<Rightarrow> call_state list" where
  "grown i cs = cs @ replicate (Suc i - length cs) blank_state"

definition apply_fragment :: "fragment \<Rightarrow> call_state list \<Rightarrow> call_state list" where
  "apply_fragment fr cs =
     (grown (fr_index fr) cs)[fr_index fr := update_call fr (grown (fr_index fr) cs ! fr_index fr)]"

text \<open>The data of a change, of a delta, of a packet and of an event; \<open>None\<close> where a type is wrong.\<close>

definition fragment_index :: "json \<Rightarrow> nat option" where
  "fragment_index change = (case field change ''index'' of
       None \<Rightarrow> Some 0
     | Some (JInt i) \<Rightarrow> if 0 \<le> i \<and> i < 2 ^ 32 then Some (nat i) else None
     | _ \<Rightarrow> None)"

definition fragment_of :: "json \<Rightarrow> fragment option" where
  "fragment_of change =
     (let fn = field change ''function''; get = (\<lambda>k. Option.bind fn (\<lambda>f. field f k)) in
      case (fragment_index change, get ''arguments'') of
        (Some i, None) \<Rightarrow> Some \<lparr>fr_index = i, fr_id = field change ''id'', fr_type = field change ''type'',
            fr_name = get ''name'', fr_arguments = None\<rparr>
      | (Some i, Some (JStr s)) \<Rightarrow> Some \<lparr>fr_index = i, fr_id = field change ''id'', fr_type = field change ''type'',
            fr_name = get ''name'', fr_arguments = Some s\<rparr>
      | _ \<Rightarrow> None)"

fun all_some :: "'a option list \<Rightarrow> 'a list option" where
  "all_some [] = Some []"
| "all_some (x # xs) = (case x of None \<Rightarrow> None | Some a \<Rightarrow> map_option ((#) a) (all_some xs))"

type_synonym content = "string list \<times> fragment list"

definition delta_content :: "(string \<times> json) list \<Rightarrow> content option" where
  "delta_content delta =
     (case (case map_of delta ''content'' of None \<Rightarrow> Some [] | Some JNull \<Rightarrow> Some []
              | Some (JStr s) \<Rightarrow> Some [s] | _ \<Rightarrow> None) of
        None \<Rightarrow> None
      | Some ps \<Rightarrow>
          map_option (Pair ps)
            (case map_of delta ''tool_calls'' of
               None \<Rightarrow> Some [] | Some JNull \<Rightarrow> Some []
             | Some (JArr changes) \<Rightarrow>
                 if list_all is_JObj changes then all_some (map fragment_of changes) else None
             | _ \<Rightarrow> None))"

definition packet_content :: "json \<Rightarrow> content option" where
  "packet_content packet =
     (case field packet ''choices'' of
        Some (JArr (c # cs)) \<Rightarrow>
          (case field c ''delta'' of Some (JObj delta) \<Rightarrow> delta_content delta | _ \<Rightarrow> Some ([], []))
      | _ \<Rightarrow> Some ([], []))"

text \<open>OpenRouter reports errors inside the stream; its parser skips those packets.\<close>

definition openrouter_content :: "json \<Rightarrow> content option" where
  "openrouter_content packet =
     (if field packet ''error'' \<noteq> None then Some ([], []) else packet_content packet)"

definition join_content :: "content list \<Rightarrow> content" where
  "join_content cs = (concat (map fst cs), concat (map snd cs))"

lemma join_content_simps [simp]:
  "join_content [] = ([], [])"
  "join_content (c # cs) = (fst c @ fst (join_content cs), snd c @ snd (join_content cs))"
  by (simp_all add: join_content_def)

definition event_content :: "json_lib \<Rightarrow> (json \<Rightarrow> content option) \<Rightarrow> string \<Rightarrow> content option" where
  "event_content J view event =
     (if event = ''[DONE]'' then Some ([], [])
      else case j_parse J event of
        Ret (JArr packets) \<Rightarrow> map_option join_content (all_some (map view packets))
      | Ret packet \<Rightarrow> view packet
      | _ \<Rightarrow> Some ([], []))"

definition events_content :: "json_lib \<Rightarrow> (json \<Rightarrow> content option) \<Rightarrow> string list \<Rightarrow> content option" where
  "events_content J view events = map_option join_content (all_some (map (event_content J view) events))"

section \<open>What assembling the fragments gives\<close>

lemma length_apply_fragment [simp]: "length (apply_fragment fr cs) = max (length cs) (Suc (fr_index fr))"
  by (simp add: apply_fragment_def grown_def max_def)

lemma nth_apply_fragment:
  "i < length (apply_fragment fr cs) \<Longrightarrow>
    apply_fragment fr cs ! i =
      (let c = if i < length cs then cs ! i else blank_state in if i = fr_index fr then update_call fr c else c)"
  by (auto simp: apply_fragment_def grown_def nth_append nth_list_update Let_def)

definition of_call :: "nat \<Rightarrow> fragment list \<Rightarrow> fragment list" where
  "of_call i frs = filter (\<lambda>fr. fr_index fr = i) frs"

lemma fold_fragments_nth:
  "i < length (fold apply_fragment frs cs) \<Longrightarrow>
    fold apply_fragment frs cs ! i =
      fold update_call (of_call i frs) (if i < length cs then cs ! i else blank_state)"
  by (induction frs arbitrary: cs) (auto simp: of_call_def nth_apply_fragment Let_def)

lemma length_fold_fragments:
  "length (fold apply_fragment frs cs) = fold (\<lambda>fr n. max n (Suc (fr_index fr))) frs (length cs)"
  by (induction frs arbitrary: cs) simp_all

lemma fold_update_arguments:
  "cs_arguments (fold update_call frs c) = cs_arguments c @ concat (map (\<lambda>fr. the_text (fr_arguments fr)) frs)"
  by (induction frs arbitrary: c) (simp_all add: update_call_def)

lemma fold_update_id: "cs_id (fold update_call frs c) = fold or_keep (map fr_id frs) (cs_id c)"
  and fold_update_name: "cs_name (fold update_call frs c) = fold or_keep (map fr_name frs) (cs_name c)"
  by (induction frs arbitrary: c) (simp_all add: update_call_def)

section \<open>The parsers refine it\<close>

lemma call_json_blank [simp]: "call_json blank_state = blank_call"
  by (simp add: call_json_def blank_state_def blank_call_def)

lemma edit_call_ok:
  assumes "i < length cs" and "f (call_json (cs ! i)) = Ret (call_json c)"
  shows "edit_call i f (v\<lparr>tv_calls := map call_json cs\<rparr>, w) =
    (Ret (), v\<lparr>tv_calls := map call_json (cs[i := c])\<rparr>, w)"
  using assms by (simp add: edit_call_def map_update)

lemma grow_calls_ok:
  "grow_calls i (v\<lparr>tv_calls := map call_json cs\<rparr>, w) =
    (Ret (), v\<lparr>tv_calls := map call_json (grown i cs)\<rparr>, w)"
  by (simp add: grow_calls_def grown_def)

lemma grown_index [simp]: "i < length (grown i cs)"
  by (simp add: grown_def)

lemma all_some_Some: "all_some xs = Some ys \<longleftrightarrow> xs = map Some ys"
  by (induction xs arbitrary: ys) (auto split: option.splits)

text \<open>
  What the consumer does with the pieces of text, and an action that has exactly the effect of some
  content: the text grows by the pieces, the calls by the fragments, the consumer gets the pieces.
\<close>

definition consume :: "(string \<Rightarrow> ('w, unit) act) option \<Rightarrow> string list \<Rightarrow> 'w \<Rightarrow> 'w" where
  "consume on_text pieces w = snd (forA pieces (call_opt on_text) w)"

definition absorbs ::
    "(string \<Rightarrow> ('w, unit) act) option \<Rightarrow> content \<Rightarrow> ('a turn_vars_scheme \<times> 'w, unit) act \<Rightarrow> bool" where
  "absorbs on_text c m \<longleftrightarrow> (\<forall>v cs w. m (v\<lparr>tv_calls := map call_json cs\<rparr>, w) =
     (Ret (), v\<lparr>tv_text := tv_text v @ concat (fst c), tv_calls := map call_json (fold apply_fragment (snd c) cs)\<rparr>,
      consume on_text (fst c) w))"

lemma consume_Nil [simp]: "consume on_text [] w = w"
  by (simp add: consume_def)

lemma consume_Cons:
  "returns (call_opt on_text) \<Longrightarrow> consume on_text (p # ps) w = consume on_text ps (snd (call_opt on_text p w))"
  unfolding consume_def by (erule returnsE [where a = p and w = w]) simp

lemma consume_append:
  "returns (call_opt on_text) \<Longrightarrow> consume on_text (ps @ qs) w = consume on_text qs (consume on_text ps w)"
  by (induction ps arbitrary: w) (simp_all add: consume_Cons)

lemma absorbs_ret [simp]: "absorbs on_text ([], []) (ret ())"
  and absorbs_Pair [simp]: "absorbs on_text ([], []) (Pair (Ret ()))"
  by (simp_all add: absorbs_def)

lemma absorbs_bind:
  assumes "returns (call_opt on_text)" and "absorbs on_text c m" and "absorbs on_text d k"
  shows "absorbs on_text (fst c @ fst d, snd c @ snd d) (bindA m (\<lambda>_. k))"
  unfolding absorbs_def
proof (intro allI)
  fix v :: "'b turn_vars_scheme" and cs w
  let ?v = "v\<lparr>tv_text := tv_text v @ concat (fst c)\<rparr>" and ?cs = "fold apply_fragment (snd c) cs"
  have "m (v\<lparr>tv_calls := map call_json cs\<rparr>, w) =
      (Ret (), ?v\<lparr>tv_calls := map call_json ?cs\<rparr>, consume on_text (fst c) w)"
    using assms(2) by (simp add: absorbs_def)
  moreover have "k (?v\<lparr>tv_calls := map call_json ?cs\<rparr>, consume on_text (fst c) w) =
      (Ret (), ?v\<lparr>tv_text := tv_text ?v @ concat (fst d), tv_calls := map call_json (fold apply_fragment (snd d) ?cs)\<rparr>,
       consume on_text (fst d) (consume on_text (fst c) w))"
    using assms(3) unfolding absorbs_def by blast
  ultimately show "bindA m (\<lambda>_. k) (v\<lparr>tv_calls := map call_json cs\<rparr>, w) =
      (Ret (), v\<lparr>tv_text := tv_text v @ concat (fst (fst c @ fst d, snd c @ snd d)),
         tv_calls := map call_json (fold apply_fragment (snd (fst c @ fst d, snd c @ snd d)) cs)\<rparr>,
       consume on_text (fst (fst c @ fst d, snd c @ snd d)) w)"
    by (simp add: consume_append [OF assms(1)])
qed

lemma absorbs_forA:
  assumes "returns (call_opt on_text)" and "list_all2 (\<lambda>x c. absorbs on_text c (f x)) xs cs"
  shows "absorbs on_text (join_content cs) (forA xs f)"
  using assms(2)
proof (induction xs cs rule: list_all2_induct)
  case Nil
  then show ?case by simp
next
  case (Cons x xs c cs)
  then show ?case using absorbs_bind [OF assms(1)] by simp
qed

lemma map_Some_list_all2:
  "map g xs = map Some cs \<Longrightarrow> (\<And>x c. g x = Some c \<Longrightarrow> P x c) \<Longrightarrow> list_all2 P xs cs"
  by (induction xs arbitrary: cs) auto

context json_laws
begin

lemma if_member_eq: "if_member J j k f = (case field j k of None \<Rightarrow> ret () | Some x \<Rightarrow> f x)"
  by (auto simp: if_member_def contains_field at_found split: option.splits)

lemma assign_call:
  "j_assign J (call_json c) ''id'' x = Ret (call_json (c\<lparr>cs_id := x\<rparr>))"
  "j_assign J (call_json c) ''type'' x = Ret (call_json (c\<lparr>cs_type := x\<rparr>))"
  "set_function_member J ''name'' x (call_json c) = Ret (call_json (c\<lparr>cs_name := x\<rparr>))"
  "set_function_member J ''arguments'' (JStr s) (call_json c) = Ret (call_json (c\<lparr>cs_arguments := s\<rparr>))"
  by (simp_all add: call_json_def assign_object set_function_member_def sub_value_def find_field)

lemma append_arguments_ok:
  "field fn ''arguments'' = Some (JStr s) \<Longrightarrow>
    append_arguments J fn (call_json c) = Ret (call_json (c\<lparr>cs_arguments := cs_arguments c @ s\<rparr>))"
  by (simp add: append_arguments_def at_found get_string_str assign_call)
    (simp add: call_json_def sub_value_def find_field get_string_str)

lemma edit_id: "i < length cs \<Longrightarrow>
    if_member J j ''id'' (\<lambda>x. edit_call i (\<lambda>call. j_assign J call ''id'' x)) (v\<lparr>tv_calls := map call_json cs\<rparr>, w) =
    (Ret (), v\<lparr>tv_calls := map call_json (cs[i := (cs ! i)\<lparr>cs_id := or_keep (field j ''id'') (cs_id (cs ! i))\<rparr>])\<rparr>, w)"
  and edit_type: "i < length cs \<Longrightarrow>
    if_member J j ''type'' (\<lambda>x. edit_call i (\<lambda>call. j_assign J call ''type'' x)) (v\<lparr>tv_calls := map call_json cs\<rparr>, w) =
    (Ret (), v\<lparr>tv_calls := map call_json (cs[i := (cs ! i)\<lparr>cs_type := or_keep (field j ''type'') (cs_type (cs ! i))\<rparr>])\<rparr>, w)"
  and edit_name: "i < length cs \<Longrightarrow>
    if_member J j ''name'' (\<lambda>x. edit_call i (set_function_member J ''name'' x)) (v\<lparr>tv_calls := map call_json cs\<rparr>, w) =
    (Ret (), v\<lparr>tv_calls := map call_json (cs[i := (cs ! i)\<lparr>cs_name := or_keep (field j ''name'') (cs_name (cs ! i))\<rparr>])\<rparr>, w)"
  by (auto simp: if_member_eq or_keep_def assign_call edit_call_ok split: option.splits)

lemma edit_arguments:
  assumes "i < length cs"
    and "case field fn ''arguments'' of None \<Rightarrow> a = None | Some j \<Rightarrow> \<exists>s. j = JStr s \<and> a = Some s"
  shows "(if j_contains J fn ''arguments'' then edit_call i (append_arguments J fn) else ret ())
      (v\<lparr>tv_calls := map call_json cs\<rparr>, w) =
    (Ret (), v\<lparr>tv_calls := map call_json (cs[i := (cs ! i)\<lparr>cs_arguments := cs_arguments (cs ! i) @ the_text a\<rparr>])\<rparr>, w)"
  using assms
  by (auto simp: contains_field the_text_def or_keep_def append_arguments_ok edit_call_ok split: option.splits)

lemma value_index:
  assumes "is_JObj change" and "fragment_index change = Some i"
  shows "j_value_uint J change ''index'' 0 = Ret i"
proof (cases "field change ''index''")
  case None
  with assms show ?thesis by (simp add: fragment_index_def value_uint_missing)
next
  case (Some v)
  with assms(2) obtain k where "v = JInt k" "0 \<le> k" "k < 2 ^ 32" "i = nat k"
    by (auto simp: fragment_index_def split: json.splits if_splits)
  with Some show ?thesis using value_uint_small [of change "''index''" "nat k" 0] by simp
qed

lemma apply_change_refines:
  assumes "is_JObj change" and "fragment_of change = Some fr"
  shows "apply_change J change (v\<lparr>tv_calls := map call_json cs\<rparr>, w) =
    (Ret (), v\<lparr>tv_calls := map call_json (apply_fragment fr cs)\<rparr>, w)"
proof -
  let ?i = "fr_index fr" and ?fn = "field change ''function''"
  have i: "fragment_index change = Some ?i"
    and ids: "fr_id fr = field change ''id''" "fr_type fr = field change ''type''"
    and name: "fr_name fr = Option.bind ?fn (\<lambda>f. field f ''name'')"
    and args: "case Option.bind ?fn (\<lambda>f. field f ''arguments'') of None \<Rightarrow> fr_arguments fr = None
        | Some j \<Rightarrow> \<exists>s. j = JStr s \<and> fr_arguments fr = Some s"
    using assms(2) by (auto simp: fragment_of_def Let_def split: option.splits json.splits)
  define c0 where "c0 = grown ?i cs ! ?i"
  define c1 where "c1 = c0\<lparr>cs_id := or_keep (fr_id fr) (cs_id c0), cs_type := or_keep (fr_type fr) (cs_type c0)\<rparr>"
  have heads: "apply_change J change (v\<lparr>tv_calls := map call_json cs\<rparr>, w) =
      if_member J change ''function'' (\<lambda>fn.
        bindA (if_member J fn ''name'' (\<lambda>x. edit_call ?i (set_function_member J ''name'' x))) (\<lambda>_.
        if j_contains J fn ''arguments'' then edit_call ?i (append_arguments J fn) else ret ()))
      (v\<lparr>tv_calls := map call_json ((grown ?i cs)[?i := c1])\<rparr>, w)"
    unfolding apply_change_def value_index [OF assms(1) i]
    by (simp add: grow_calls_ok edit_id edit_type ids c1_def c0_def)
  show ?thesis
  proof (cases ?fn)
    case None
    with heads name args show ?thesis
      by (simp add: if_member_eq apply_fragment_def update_call_def c1_def c0_def or_keep_def the_text_def)
  next
    case (Some fn)
    with args have a: "case field fn ''arguments'' of None \<Rightarrow> fr_arguments fr = None
        | Some j \<Rightarrow> \<exists>s. j = JStr s \<and> fr_arguments fr = Some s" by simp
    show ?thesis
      using Some name
      by (simp add: heads if_member_eq [of change] edit_name edit_arguments [OF _ a]
          apply_fragment_def update_call_def c1_def c0_def)
  qed
qed

lemma absorbs_changes:
  assumes "list_all is_JObj changes" and "map fragment_of changes = map Some frs"
  shows "absorbs on_text ([], frs) (forA changes (apply_change J) :: ('b turn_vars_scheme \<times> 'c, unit) act)"
proof -
  have "forA changes (apply_change J) (v\<lparr>tv_calls := map call_json cs\<rparr>, w) =
      (Ret (), v\<lparr>tv_calls := map call_json (fold apply_fragment frs cs)\<rparr>, w)"
    for v :: "'b turn_vars_scheme" and cs and w :: 'c
    using assms
  proof (induction changes arbitrary: frs cs)
    case (Cons change changes)
    then obtain fr frs' where "frs = fr # frs'" by (cases frs) auto
    with Cons show ?case by (simp add: apply_change_refines)
  qed simp
  then show ?thesis by (simp add: absorbs_def)
qed

lemma absorbs_text:
  assumes "returns (call_opt on_text)"
  shows "absorbs on_text ([s], []) (take_text J on_text (JStr s))"
proof -
  have "\<exists>w1. call_opt on_text s w = (Ret (), w1)" for w using assms by (auto simp: returns_def)
  then have "fst (call_opt on_text s w) = Ret ()" for w by (metis fst_conv)
  then show ?thesis
    by (simp add: absorbs_def take_text_def get_string_str consume_Cons [OF assms])
qed

lemma absorbs_delta:
  assumes r: "returns (call_opt on_text)" and d: "delta_content delta = Some c"
  shows "absorbs on_text c (apply_delta J on_text (JObj delta))"
proof -
  obtain ps frs where c: "c = (ps, frs)" by (cases c)
  have content: "absorbs on_text (ps, [])
      (if_member J (JObj delta) ''content'' (\<lambda>c. if c = JNull then ret () else take_text J on_text c))"
    using d c
    by (auto simp: delta_content_def if_member_eq intro!: absorbs_text [OF r] split: option.splits json.splits if_splits)
  obtain changes where ch: "j_value_json J (JObj delta) ''tool_calls'' (JArr []) = Ret changes"
    and all: "list_all is_JObj (j_iter J changes)" "map fragment_of (j_iter J changes) = map Some frs"
    using d c
    by (auto simp: delta_content_def value_json_obj iter_array iter_null all_some_Some
        split: option.splits json.splits if_splits)
  show ?thesis
    unfolding apply_delta_def ch bindA_lift_Ret c
    by (rule absorbs_bind [OF r content absorbs_changes [OF all], simplified])
qed

lemma absorbs_packet:
  assumes r: "returns (call_opt on_text)" and d: "packet_content packet = Some c"
  shows "absorbs on_text c (apply_packet J on_text packet)"
proof -
  have index: "j_index J (JArr (x # xs)) 0 = Ret x" for x xs using index_array [of 0 "x # xs"] by simp
  show ?thesis
    using d
    by (auto simp: packet_content_def apply_packet_def find_field index intro!: absorbs_delta [OF r]
        split: option.splits json.splits list.splits)
qed

lemma absorbs_event:
  assumes r: "returns (call_opt on_text)" and not_done: "event \<noteq> ''[DONE]''"
    and step: "\<And>packet c. view packet = Some c \<Longrightarrow> absorbs on_text c (handle packet)"
    and content: "event_content J view event = Some c"
  shows "absorbs on_text c (try_std
      (bindA (lift_out (j_parse J event)) (\<lambda>parsed. forA (packets_of J parsed) handle)) (\<lambda>_. ret ()))"
  using parse_std [of event]
proof (cases rule: ret_or_stdE)
  case (1 parsed)
  have packets: "absorbs on_text c (forA (packets_of J parsed) handle)"
  proof (cases "is_JArr parsed")
    case True
    then obtain ps where ps: "parsed = JArr ps" by (cases parsed) auto
    with content not_done 1 obtain cs where "map view ps = map Some cs" "c = join_content cs"
      by (auto simp: event_content_def all_some_Some)
    have "absorbs on_text (join_content cs) (forA ps handle)"
      by (rule absorbs_forA [OF r map_Some_list_all2 [OF \<open>map view ps = map Some cs\<close>]]) (rule step)
    with ps \<open>c = join_content cs\<close> show ?thesis by (simp add: packets_of_def iter_array)
  next
    case False
    with content not_done 1 have "view parsed = Some c"
      by (cases parsed) (auto simp: event_content_def)
    with step have "absorbs on_text (join_content [c]) (forA [parsed] handle)"
      by (intro absorbs_forA [OF r]) simp
    with False show ?thesis by (simp add: packets_of_def iter_array)
  qed
  then show ?thesis using 1 by (simp add: absorbs_def try_std_def)
next
  case (2 m)
  with content not_done have "c = ([], [])" by (simp add: event_content_def)
  with 2 show ?thesis by (simp add: absorbs_def try_std_def bindA_def)
qed

lemma absorbs_deepseek_event:
  assumes "returns (call_opt on_text)" and "event_content J packet_content event = Some c"
  shows "absorbs on_text c (parse_deepseek_stream_chunk J on_text event)"
proof (cases "event = ''[DONE]''")
  case True
  with assms(2) have "c = ([], [])" by (simp add: event_content_def)
  with True show ?thesis by (simp add: parse_deepseek_stream_chunk_def)
next
  case False
  with absorbs_event [OF assms(1) False absorbs_packet [OF assms(1)] assms(2)] show ?thesis
    by (simp add: parse_deepseek_stream_chunk_def)
qed

lemma absorbs_openrouter_event:
  assumes "returns (call_opt on_text)" and "event_content J openrouter_content event = Some c"
  shows "absorbs on_text c (parse_openrouter_stream_chunk J on_text event)"
proof (cases "event = ''[DONE]''")
  case True
  with assms(2) have "c = ([], [])" by (simp add: event_content_def)
  with True show ?thesis by (simp add: parse_openrouter_stream_chunk_def)
next
  case False
  have "absorbs on_text c (if j_contains J packet ''error'' then ret () else apply_packet J on_text packet)"
    if "openrouter_content packet = Some c" for packet c
    using that absorbs_packet [OF assms(1), of packet c]
    by (cases c) (auto simp: openrouter_content_def contains_field split: if_splits)
  from absorbs_event [OF assms(1) False this assms(2)] show ?thesis
    using False by (simp add: parse_openrouter_stream_chunk_def)
qed

lemma absorbs_events:
  assumes r: "returns (call_opt on_text)"
    and step: "\<And>event c. event_content J view event = Some c \<Longrightarrow> absorbs on_text c (parse event)"
    and content: "events_content J view events = Some c"
  shows "absorbs on_text c (forA events parse)"
proof -
  obtain cs where cs: "map (event_content J view) events = map Some cs" and c: "c = join_content cs"
    using content by (auto simp: events_content_def all_some_Some)
  show ?thesis unfolding c by (rule absorbs_forA [OF r map_Some_list_all2 [OF cs]]) (rule step)
qed

lemmas absorbs_deepseek_stream = absorbs_events [OF _ absorbs_deepseek_event]
lemmas absorbs_openrouter_stream = absorbs_events [OF _ absorbs_openrouter_event]

end
section \<open>No event breaks the stream\<close>

text \<open>
  The action returns or throws a \<^verbatim>\<open>std::exception\<close>, and what was received before it stays: the text
  and the parts only grow at their end, no call is lost, and the variables of the transfer are untouched.
\<close>

definition std_only :: "('s, 'a) act \<Rightarrow> bool" where
  "std_only m \<longleftrightarrow> (\<forall>s. ret_or_std (fst (m s)))"

definition extends :: "'a turn_vars_scheme \<times> 'w \<Rightarrow> 'a turn_vars_scheme \<times> 'w \<Rightarrow> bool" where
  "extends s s' \<longleftrightarrow> prefix (tv_text (fst s)) (tv_text (fst s')) \<and> prefix (tv_parts (fst s)) (tv_parts (fst s')) \<and>
     length (tv_calls (fst s)) \<le> length (tv_calls (fst s')) \<and>
     sv_received_event (fst s') = sv_received_event (fst s) \<and> sv_error_body (fst s') = sv_error_body (fst s)"

interpretation extends: step_relation extends
  by unfold_locales (auto simp: extends_def)

definition harmless :: "('a turn_vars_scheme \<times> 'w, 'b) act \<Rightarrow> bool" where
  "harmless m \<longleftrightarrow> std_only m \<and> within extends m"

lemma std_only_bindA:
  assumes "std_only m" and "\<And>a. std_only (k a)"
  shows "std_only (bindA m k)"
  unfolding std_only_def
proof
  fix s
  obtain r s1 where m: "m s = (r, s1)" by (cases "m s")
  with assms(1) have "ret_or_std r" unfolding std_only_def by (metis fst_conv)
  then show "ret_or_std (fst (bindA m k s))"
    using m assms(2) by (cases rule: ret_or_stdE) (auto simp: std_only_def)
qed

lemma harmless_bindA: "harmless m \<Longrightarrow> (\<And>a. harmless (k a)) \<Longrightarrow> harmless (bindA m k)"
  unfolding harmless_def by (auto intro: std_only_bindA extends.within_bindA)

lemma harmless_ret [simp]: "harmless (ret a)"
  and harmless_Pair [simp]: "harmless (Pair (Ret a))"
  and harmless_lift_out: "ret_or_std r \<Longrightarrow> harmless (lift_out r)"
  by (simp_all add: harmless_def std_only_def)

lemma harmless_forA: "(\<And>x. harmless (f x)) \<Longrightarrow> harmless (forA xs f)"
  by (induction xs) (simp_all add: harmless_bindA)

lemma harmless_read [simp]: "harmless (readA f)"
  by (simp add: harmless_def std_only_def)

lemma harmless_modify:
  "(\<And>v. extends (v, undefined) (f v, undefined)) \<Longrightarrow> harmless (modifyA (\<lambda>(v, w). (f v, w)))"
  by (auto simp: harmless_def std_only_def within_def extends_def)

lemma harmless_on_snd: "std_only m \<Longrightarrow> harmless (on_snd m)"
  by (auto simp: harmless_def std_only_def within_def extends_def)

definition std_callback :: "(string \<Rightarrow> ('w, unit) act) option \<Rightarrow> bool" where
  "std_callback on_text \<longleftrightarrow> (\<forall>s. std_only (call_opt on_text s))"

lemma harmless_if: "harmless m \<Longrightarrow> harmless k \<Longrightarrow> harmless (if b then m else k)"
  by simp

text \<open>The calls may change, but none goes away.\<close>

lemma harmless_edit_call: "(\<And>c. ret_or_std (f c)) \<Longrightarrow> harmless (edit_call i f)"
  unfolding harmless_def std_only_def within_def
proof (intro conjI allI)
  fix s :: "'a turn_vars_scheme \<times> 'w"
  assume f: "\<And>c. ret_or_std (f c)"
  obtain v w where s: "s = (v, w)" by (cases s)
  define r where "r = (if i < length (tv_calls v) then f (tv_calls v ! i) else Throw (Std_exception ''at''))"
  have e: "edit_call i f s = bindA (lift_out r)
      (\<lambda>call. modifyA (\<lambda>(v', w). (v'\<lparr>tv_calls := (tv_calls v)[i := call]\<rparr>, w))) s"
    by (simp add: edit_call_def r_def s)
  have "ret_or_std r" using f by (simp add: r_def)
  then show "ret_or_std (fst (edit_call i f s))" "extends s (snd (edit_call i f s))"
    unfolding e by (cases rule: ret_or_stdE; simp add: bindA_def extends_def s)+
qed

lemma harmless_grow: "harmless (grow_calls i)"
  unfolding grow_calls_def by (rule harmless_modify) (simp add: extends_def)

context json_laws
begin

lemma harmless_member: "(\<And>x. harmless (k x)) \<Longrightarrow> harmless (if_member J j key k)"
  unfolding if_member_def by (intro harmless_if harmless_bindA harmless_lift_out at_std) auto

lemma set_function_std: "ret_or_std (set_function_member J key x call)"
  unfolding set_function_member_def by (intro bind_out_std assign_std)

lemma append_arguments_std: "ret_or_std (append_arguments J fn call)"
  unfolding append_arguments_def by (intro bind_out_std get_string_std at_std set_function_std)

lemma harmless_change: "harmless (apply_change J change)"
  unfolding apply_change_def
  by (intro harmless_bindA harmless_lift_out value_uint_std harmless_grow harmless_member harmless_edit_call
      harmless_if assign_std set_function_std append_arguments_std harmless_ret)

lemma harmless_text: "std_callback on_text \<Longrightarrow> harmless (take_text J on_text j)"
  unfolding take_text_def
  by (intro harmless_bindA harmless_lift_out get_string_std harmless_modify harmless_on_snd)
    (simp_all add: extends_def std_callback_def)

lemma harmless_packet:
  assumes "std_callback on_text"
  shows "harmless (apply_packet J on_text packet)"
proof -
  have index: "j_index J (JArr (x # xs)) 0 = Ret x" for x xs using index_array [of 0 "x # xs"] by simp
  have delta: "harmless (apply_delta J on_text d)" for d
    unfolding apply_delta_def
    by (intro harmless_bindA harmless_member harmless_if harmless_ret harmless_text [OF assms] harmless_lift_out
        value_json_std harmless_forA harmless_change)
  show ?thesis
    unfolding apply_packet_def
    by (auto simp: index delta split: option.splits json.splits list.splits)
qed

lemma harmless_part:
  assumes "std_callback on_text"
  shows "harmless (gemini_part J on_text part)"
  unfolding gemini_part_def
  by (intro harmless_bindA harmless_modify harmless_if harmless_lift_out at_std harmless_text [OF assms] harmless_ret)
    (simp_all add: extends_def)

lemma harmless_gemini_packet:
  assumes "std_callback on_text"
  shows "harmless (gemini_packet J on_text packet)"
proof -
  have index: "j_index J (JArr (x # xs)) 0 = Ret x" for x xs using index_array [of 0 "x # xs"] by simp
  show ?thesis
    unfolding gemini_packet_def
    by (auto simp: index harmless_forA [OF harmless_part [OF assms]] split: option.splits json.splits list.splits)
qed

text \<open>A parser: the loop over the packets with every \<^verbatim>\<open>std::exception\<close> dropped.\<close>

lemma parser_total:
  assumes "\<And>packet. harmless (handle packet)"
  shows "let m = try_std (bindA (lift_out (j_parse J event)) (\<lambda>parsed. forA (packets_of J parsed) handle)) (\<lambda>_. ret ())
    in fst (m s) = Ret () \<and> extends s (snd (m s))"
proof -
  let ?m = "bindA (lift_out (j_parse J event)) (\<lambda>parsed. forA (packets_of J parsed) handle)"
  have h: "harmless ?m" by (intro harmless_bindA harmless_lift_out parse_std harmless_forA assms)
  obtain r s1 where m: "?m s = (r, s1)" by (cases "?m s")
  with h have "ret_or_std r" "extends s s1"
    unfolding harmless_def std_only_def within_def by (metis fst_conv, metis snd_conv)
  then show ?thesis using m by (cases rule: ret_or_stdE) (simp_all add: Let_def try_std_def)
qed

end

lemma parsers_return_aux:
  assumes "json_laws J" and "std_callback on_text"
  shows "fst (parse_gemini_stream_chunk J on_text event s) = Ret () \<and>
      extends s (snd (parse_gemini_stream_chunk J on_text event s))"
    and "fst (parse_deepseek_stream_chunk J on_text event s) = Ret () \<and>
      extends s (snd (parse_deepseek_stream_chunk J on_text event s))"
    and "fst (parse_openrouter_stream_chunk J on_text event s) = Ret () \<and>
      extends s (snd (parse_openrouter_stream_chunk J on_text event s))"
proof -
  note total = json_laws.parser_total [OF assms(1), where s = s and event = event, unfolded Let_def]
  have refl: "extends s s" by (rule extends.step_refl)
  have "harmless (if j_contains J p ''error'' then ret () else apply_packet J on_text p)" for p
    by (intro harmless_if harmless_ret json_laws.harmless_packet [OF assms(1,2)])
  with total [OF this] total [OF json_laws.harmless_packet [OF assms(1,2)]]
    total [OF json_laws.harmless_gemini_packet [OF assms(1,2)]] refl
  show "fst (parse_gemini_stream_chunk J on_text event s) = Ret () \<and>
      extends s (snd (parse_gemini_stream_chunk J on_text event s))"
    and "fst (parse_deepseek_stream_chunk J on_text event s) = Ret () \<and>
      extends s (snd (parse_deepseek_stream_chunk J on_text event s))"
    and "fst (parse_openrouter_stream_chunk J on_text event s) = Ret () \<and>
      extends s (snd (parse_openrouter_stream_chunk J on_text event s))"
    by (simp_all add: parse_gemini_stream_chunk_def parse_deepseek_stream_chunk_def parse_openrouter_stream_chunk_def)
qed

text \<open>C31: robustness. No event of a streamed answer can stop the stream: whatever bytes the server sends as
  an event, whatever JSON they are and whatever is missing or has the wrong type in it, each of the
  three parsers returns normally, provided the text callback only throws \<^verbatim>\<open>std::exception\<close>s. What
  was received before stays: the text and the parts only grow at their end, no tool call is lost, and
  the variables of the transfer are not touched.\<close>

theorem stream_parsers_total:
  assumes "json_laws J" and "std_callback on_text"
    and "parse \<in> {parse_gemini_stream_chunk J on_text, parse_deepseek_stream_chunk J on_text,
      parse_openrouter_stream_chunk J on_text}"
  shows "fst (parse event s) = Ret () \<and> extends s (snd (parse event s))"
  using assms(3) parsers_return_aux [OF assms(1,2), of event s] by auto

theorem stream_parsers_total_witness:
  "fst (parse_openrouter_stream_chunk (json_ref [(''x'', JObj [(''choices'', JArr [JNull])])] (\<lambda>_. [])) None ''x''
     (\<lparr>sv_error_body = [], sv_received_event = True, tv_text = ''so far'', tv_calls = [], tv_parts = []\<rparr>, ())) = Ret ()"
proof -
  have "std_callback None" by (simp add: std_callback_def std_only_def)
  from stream_parsers_total [OF json_ref.json_laws_axioms this] show ?thesis by blast
qed

end
