(* ===== verification/Turns.thy ===== *)
theory Turns
  imports Openrouter_Provider Fragments
begin

text \<open>
  A whole turn of a provider: the request, the stream, the parser and the history together. The
  server's side is one hypothesis, \<open>answers_with\<close>; the rest is what the code does with the answer.
\<close>

section \<open>A successful exchange\<close>

text \<open>The request is answered with a success status and a body made of the given events.\<close>

definition answers_with :: "'w http_lib \<Rightarrow> http_request \<Rightarrow> 'w \<Rightarrow> string list \<Rightarrow> 'w \<Rightarrow> bool" where
  "answers_with H request w events w1 \<longleftrightarrow>
     (\<exists>st es r fs open_ls. h_send H request w = (Ret (Ev_headers st # es, Response r), w1) \<and>
        list_all body_event es \<and> 200 \<le> st \<and> st < 300 \<and> 200 \<le> hr_status r \<and> hr_status r < 300 \<and>
        stream_ok fs open_ls \<and> concat (body_chunks es) = stream_text fs open_ls \<and>
        stream_payloads fs open_ls = events)"

lemma stream_post_answers:
  assumes "returns on_event" and "never_set cancel"
    and "answers_with H (stream_request path headers body) w events w1"
  shows "\<exists>r. stream_post H path headers body on_event cancel (v, w) =
      (Ret (Response r), snd (forA events (deliver on_event) (v\<lparr>sv_error_body := []\<rparr>, w1))) \<and>
    200 \<le> hr_status r \<and> hr_status r < 300"
proof -
  from assms(3) obtain st es r fs open_ls where
    a: "h_send H (stream_request path headers body) w = (Ret (Ev_headers st # es, Response r), w1)"
      "list_all body_event es" "200 \<le> st" "st < 300" "200 \<le> hr_status r" "hr_status r < 300"
      "stream_ok fs open_ls" "concat (body_chunks es) = stream_text fs open_ls"
    and ev: "stream_payloads fs open_ls = events"
    unfolding answers_with_def by blast
  from stream_post_ok [OF assms(1,2) a, of v] a(5,6) show ?thesis
    unfolding ev by (auto split: prod.splits intro: exI [of _ r])
qed

lemma stream_success:
  assumes "request (v, w) = (Ret (Response r), (v1, w1))" and "200 \<le> hr_status r" and "hr_status r < 300"
    and "never_set cancel"
  shows "execute_stream_with_retry S H request received error_body cancel None m (v, w) = (Ret (Response r), (v1, w1))"
proof -
  have "\<not> should_retry (Response r) (error_body v1)" "\<not> is_hard_quota_response (Response r) (error_body v1)"
    using assms(2,3) by (auto simp: should_retry_def is_hard_quota_response_def Let_def)
  then show ?thesis
    unfolding execute_stream_with_retry_def
    by (subst execute_stream_from.simps) (simp add: assms(1) bindA_on_snd_load [OF assms(4)])
qed

lemma received_first:
  "v\<lparr>tv_calls := c, sv_received_event := b\<rparr> = v\<lparr>sv_received_event := b, tv_calls := c\<rparr>"
  by (cases v) simp

text \<open>The events through the callback of the decoder.\<close>

lemma forA_deliver:
  assumes "returns (call_opt on_text)"
    and "list_all2 (\<lambda>ev c. absorbs on_text c (parse ev)) events cs"
  shows "forA events (deliver parse) (v\<lparr>tv_calls := map call_json calls\<rparr>, w) =
    (Ret (), v\<lparr>sv_received_event := sv_received_event v \<or> events \<noteq> [],
       tv_text := tv_text v @ concat (fst (join_content cs)),
       tv_calls := map call_json (fold apply_fragment (snd (join_content cs)) calls)\<rparr>,
     consume on_text (fst (join_content cs)) w)"
  using assms(2)
proof (induction events cs arbitrary: v calls w rule: list_all2_induct)
  case Nil
  then show ?case by simp
next
  case (Cons ev events c cs)
  let ?v = "v\<lparr>sv_received_event := True\<rparr>"
  have "parse ev (?v\<lparr>tv_calls := map call_json calls\<rparr>, w) =
      (Ret (), ?v\<lparr>tv_text := tv_text ?v @ concat (fst c), tv_calls := map call_json (fold apply_fragment (snd c) calls)\<rparr>,
       consume on_text (fst c) w)"
    using Cons(1) unfolding absorbs_def by blast
  then have "deliver parse ev (v\<lparr>tv_calls := map call_json calls\<rparr>, w) =
      (Ret (), (?v\<lparr>tv_text := tv_text v @ concat (fst c)\<rparr>)\<lparr>tv_calls := map call_json (fold apply_fragment (snd c) calls)\<rparr>,
       consume on_text (fst c) w)"
    by (simp add: deliver_def received_first)
  then show ?case
    by (simp add: Cons.IH consume_append [OF assms(1)])
qed

section \<open>From the events to the turn\<close>

lemma with_local_at: "m (v, w) = (r, (v1, w1)) \<Longrightarrow> with_local v m w = (r, w1)"
  by (simp add: with_local_def)

lemma parsers_return:
  assumes "json_laws J" and "returns (call_opt on_text)"
  shows "returns (parse_deepseek_stream_chunk J on_text :: string \<Rightarrow> ('a turn_vars_scheme \<times> 'w, unit) act)"
    and "returns (parse_openrouter_stream_chunk J on_text :: string \<Rightarrow> ('a turn_vars_scheme \<times> 'w, unit) act)"
proof -
  have "std_callback on_text"
    using assms(2) unfolding std_callback_def std_only_def returns_def by (metis fst_conv ret_or_std_simps(1))
  note total = parsers_return_aux [OF assms(1) this]
  show "returns (parse_deepseek_stream_chunk J on_text :: string \<Rightarrow> ('a turn_vars_scheme \<times> 'w, unit) act)"
    and "returns (parse_openrouter_stream_chunk J on_text :: string \<Rightarrow> ('a turn_vars_scheme \<times> 'w, unit) act)"
    unfolding returns_def using total by (metis prod.collapse)+
qed

text \<open>A turn whose events leave the variables \<open>v1\<close> when they are read.\<close>

lemma stream_turn_collected:
  assumes c: "never_set cancel" and p: "cb_on_progress callbacks = None" and r: "returns parse"
    and dump: "j_dump (pf_json P) request_json = Ret body"
    and answer: "answers_with H (stream_request path headers body) w events w1"
    and events: "forA events (deliver parse) (new_turn_vars, w1) = (Ret (), (v1, w2))"
    and finish: "finish (v1, w2) = (Ret turn, (v2, w3))"
  shows "stream_turn P H name path headers request_json parse callbacks cancel finish w = (Ret turn, w3)"
proof -
  have start: "new_turn_vars\<lparr>sv_error_body := []\<rparr> = new_turn_vars" by (simp add: new_turn_vars_def)
  obtain resp where post: "stream_request_body P H path headers request_json parse cancel (new_turn_vars, w) =
      (Ret (Response resp), (v1, w2))" "200 \<le> hr_status resp" "hr_status resp < 300"
    using stream_post_answers [OF r c answer, where v = new_turn_vars] events
    by (auto simp: stream_request_body_def dump start)
  note ok = stream_success [where received = sv_received_event and error_body = sv_error_body and
      S = "pf_sys P" and H = H and m = max_request_attempts and
      request = "stream_request_body P H path headers request_json parse cancel", OF post c]
  have "read_answer P H name cancel finish (Response resp) (v1, w2) = (Ret turn, (v2, w3))"
    using post(2,3) finish by (simp add: read_answer_def bindA_on_snd_load [OF c] try_std_def)
  with ok show ?thesis
    unfolding stream_turn_def p by (intro with_local_at) simp
qed

lemma stream_turn_answers:
  assumes j: "json_laws (pf_json P)" and c: "never_set cancel" and p: "cb_on_progress callbacks = None"
    and r: "returns (call_opt on_text)" "returns parse"
    and dump: "j_dump (pf_json P) request_json = Ret body"
    and answer: "answers_with H (stream_request path headers body) w events w1"
    and step: "\<And>ev c. event_content (pf_json P) view ev = Some c \<Longrightarrow> absorbs on_text c (parse ev)"
    and content: "events_content (pf_json P) view events = Some (pieces, frs)"
    and finish: "finish (new_turn_vars\<lparr>sv_received_event := events \<noteq> [], tv_text := concat pieces,
        tv_calls := map call_json (fold apply_fragment frs [])\<rparr>, consume on_text pieces w1) = (Ret turn, (v2, w2))"
  shows "stream_turn P H name path headers request_json parse callbacks cancel finish w = (Ret turn, w2)"
proof -
  obtain cs where cs: "map (event_content (pf_json P) view) events = map Some cs"
      "join_content cs = (pieces, frs)"
    using content by (auto simp: events_content_def all_some_Some)
  have start: "new_turn_vars = new_turn_vars\<lparr>tv_calls := map call_json []\<rparr>"
    by (simp add: new_turn_vars_def)
  have "forA events (deliver parse) (new_turn_vars, w1) =
      (Ret (), new_turn_vars\<lparr>sv_received_event := events \<noteq> [], tv_text := concat pieces,
        tv_calls := map call_json (fold apply_fragment frs [])\<rparr>, consume on_text pieces w1)"
    by (subst start) (use forA_deliver [OF r(1) map_Some_list_all2 [OF cs(1) step],
        where v = new_turn_vars and calls = "[]" and w = w1] cs(2) in \<open>simp add: new_turn_vars_def\<close>)
  from stream_turn_collected [OF c p r(2) dump answer this, of finish] finish show ?thesis by blast
qed

text \<open>A call whose identifier and name are strings becomes a tool call; arguments that do not parse are empty.\<close>

definition named_call :: "call_state \<Rightarrow> bool" where
  "named_call c \<longleftrightarrow> is_JStr (cs_id c) \<and> is_JStr (cs_name c)"

definition parsed_arguments :: "json_lib \<Rightarrow> string \<Rightarrow> json" where
  "parsed_arguments J s = (case j_parse J s of Ret j \<Rightarrow> j | _ \<Rightarrow> JObj [])"

definition call_of :: "json_lib \<Rightarrow> call_state \<Rightarrow> tool_call" where
  "call_of J c = \<lparr>cl_id = the (as_string (cs_id c)), cl_name = the (as_string (cs_name c)),
     cl_arguments = parsed_arguments J (cs_arguments c)\<rparr>"

context json_laws
begin

lemma openai_call_of:
  assumes "named_call c"
  shows "openai_call J (call_json c) = Ret (call_of J c)"
proof -
  obtain i n where "cs_id c = JStr i" "cs_name c = JStr n"
    using assms by (auto simp: named_call_def is_JStr_def)
  moreover have "or_std (j_parse J s) (JObj []) = Ret (parsed_arguments J s)" for s
    using parse_std [of s] by (cases rule: ret_or_stdE) (simp_all add: or_std_def parsed_arguments_def)
  ultimately show ?thesis
    by (simp add: openai_call_def call_json_def call_of_def at_found get_string_str value_string_str)
qed

lemma openai_calls_of: "list_all named_call cs \<Longrightarrow> map_out (openai_call J) (map call_json cs) = Ret (map (call_of J) cs)"
  by (induction cs) (simp_all add: openai_call_of)

end

lemma openai_finish_ok:
  assumes "json_laws (pf_json P)" and "list_all named_call cs" and "tv_calls v = map call_json cs"
    and "push (assistant_message (tv_text v) (map call_json cs)) w = (Ret (), w1)"
  shows "openai_finish P push (v, w) = (Ret (good_turn (tv_text v) (map (call_of (pf_json P)) cs)), (v, w1))"
  using assms(3,4) by (simp add: openai_finish_def json_laws.openai_calls_of [OF assms(1,2)])

lemma assembled_arguments:
  "calls = fold apply_fragment frs [] \<Longrightarrow> \<forall>i. i < length calls \<longrightarrow>
    cs_arguments (calls ! i) = concat (map (\<lambda>fr. the_text (fr_arguments fr)) (of_call i frs))"
  by (simp add: fold_fragments_nth fold_update_arguments blank_state_def)

lemma push_returns:
  "deepseek_push ds m w = (Ret (), snd (deepseek_push ds m w))"
  "openrouter_push op m w = (Ret (), snd (openrouter_push op m w))"
  by (simp_all add: deepseek_push_def openrouter_push_def modify_obj_def)

lemma deepseek_turn_ok:
  assumes "json_laws (pf_json P)" and "never_set cancel"
    and "cb_on_progress callbacks = None" and "returns (call_opt (cb_on_text callbacks))"
    and "ds_client (obj_get self w) = Some endpoint"
    and "j_dump (pf_json P) (build_deepseek_payload model (ds_messages (obj_get self w)) tools) = Ret body"
    and "answers_with (pf_client P endpoint) (stream_request ''/chat/completions'' [bearer key] body) w events w1"
    and "events_content (pf_json P) packet_content events = Some (pieces, frs)"
    and "calls = fold apply_fragment frs []" and "list_all named_call calls"
  shows "deepseek_execute_turn_request P self key model tools callbacks cancel w =
      (Ret (good_turn (concat pieces) (map (call_of (pf_json P)) calls)),
       snd (deepseek_push self (assistant_message (concat pieces) (map call_json calls))
         (consume (cb_on_text callbacks) pieces w1))) \<and>
    (\<forall>i. i < length calls \<longrightarrow>
      cs_arguments (calls ! i) = concat (map (\<lambda>fr. the_text (fr_arguments fr)) (of_call i frs)))"
proof
  let ?w2 = "snd (deepseek_push self (assistant_message (concat pieces) (map call_json calls))
      (consume (cb_on_text callbacks) pieces w1))"
  let ?v = "new_turn_vars\<lparr>sv_received_event := events \<noteq> [], tv_text := concat pieces, tv_calls := map call_json calls\<rparr>"
  have finish: "openai_finish P (deepseek_push self) (?v, consume (cb_on_text callbacks) pieces w1) =
      (Ret (good_turn (tv_text ?v) (map (call_of (pf_json P)) calls)), (?v, ?w2))"
    using push_returns(1) by (intro openai_finish_ok [OF assms(1,10)]) simp_all
  from stream_turn_answers [OF assms(1-4) parsers_return(1) [OF assms(1,4)] assms(6,7)
      json_laws.absorbs_deepseek_event [OF assms(1,4)] assms(8), of "openai_finish P (deepseek_push self)"
      "good_turn (concat pieces) (map (call_of (pf_json P)) calls)" ?v ?w2] finish
  show "deepseek_execute_turn_request P self key model tools callbacks cancel w =
      (Ret (good_turn (concat pieces) (map (call_of (pf_json P)) calls)), ?w2)"
    by (simp add: deepseek_execute_turn_request_def read_obj_def assms(5,9) bindA_load [OF assms(2)])
qed (rule assembled_arguments [OF assms(9)])

lemma openrouter_turn_ok:
  assumes "json_laws (pf_json P)" and "never_set cancel"
    and "cb_on_progress callbacks = None" and "returns (call_opt (cb_on_text callbacks))"
    and "or_client (obj_get self w) = Some endpoint" and "or_config (obj_get self w) = config"
    and "j_dump (pf_json P) (build_openrouter_payload model (or_messages (obj_get self w)) tools
      (mc_supports_tools (capabilities_in (or_model_capabilities (obj_get self w)) model))) = Ret body"
    and "answers_with (pf_client P endpoint) (stream_request (join_api_path (oc_api_path_prefix config) ''/chat/completions'')
      (openrouter_headers config key) body) w events w1"
    and "events_content (pf_json P) openrouter_content events = Some (pieces, frs)"
    and "calls = fold apply_fragment frs []" and "list_all named_call calls"
  shows "openrouter_execute_turn_request P self key model tools callbacks cancel w =
      (Ret (good_turn (concat pieces) (map (call_of (pf_json P)) calls)),
       snd (openrouter_push self (assistant_message (concat pieces) (map call_json calls))
         (consume (cb_on_text callbacks) pieces w1))) \<and>
    (\<forall>i. i < length calls \<longrightarrow>
      cs_arguments (calls ! i) = concat (map (\<lambda>fr. the_text (fr_arguments fr)) (of_call i frs)))"
proof
  let ?w2 = "snd (openrouter_push self (assistant_message (concat pieces) (map call_json calls))
      (consume (cb_on_text callbacks) pieces w1))"
  let ?v = "new_turn_vars\<lparr>sv_received_event := events \<noteq> [], tv_text := concat pieces, tv_calls := map call_json calls\<rparr>"
  have finish: "openai_finish P (openrouter_push self) (?v, consume (cb_on_text callbacks) pieces w1) =
      (Ret (good_turn (tv_text ?v) (map (call_of (pf_json P)) calls)), (?v, ?w2))"
    using push_returns(2) by (intro openai_finish_ok [OF assms(1,11)]) simp_all
  from stream_turn_answers [OF assms(1-4) parsers_return(2) [OF assms(1,4)] assms(7,8)
      json_laws.absorbs_openrouter_event [OF assms(1,4)] assms(9), of "openai_finish P (openrouter_push self)"
      "good_turn (concat pieces) (map (call_of (pf_json P)) calls)" ?v ?w2] finish
  show "openrouter_execute_turn_request P self key model tools callbacks cancel w =
      (Ret (good_turn (concat pieces) (map (call_of (pf_json P)) calls)), ?w2)"
    by (simp add: openrouter_execute_turn_request_def openrouter_model_capabilities_def read_obj_def
        assms(5,6,10) bindA_load [OF assms(2)])
qed (rule assembled_arguments [OF assms(10)])

section \<open>Properties\<close>

text \<open>C10: a streamed answer of DeepSeek. When the server answers the request of a turn with a success
  status and a stream of events, the turn carries the pieces of text of the events joined in order and
  one tool call per index, whose arguments are the fragments sent for that index joined in order; the
  consumer got the pieces in order, and the history has grown by the one assistant message.\<close>

theorem deepseek_turn_streams:
  assumes "json_laws (pf_json P)" and "never_set cancel"
    and "cb_on_progress callbacks = None" and "returns (call_opt (cb_on_text callbacks))"
    and "ds_client (obj_get self w) = Some endpoint"
    and "j_dump (pf_json P) (build_deepseek_payload model (ds_messages (obj_get self w)) tools) = Ret body"
    and "answers_with (pf_client P endpoint) (stream_request ''/chat/completions'' [bearer key] body) w events w1"
    and "events_content (pf_json P) packet_content events = Some (pieces, frs)"
    and "calls = fold apply_fragment frs []" and "list_all named_call calls"
  shows "deepseek_execute_turn_request P self key model tools callbacks cancel w =
      (Ret (good_turn (concat pieces) (map (call_of (pf_json P)) calls)),
       snd (deepseek_push self (assistant_message (concat pieces) (map call_json calls))
         (consume (cb_on_text callbacks) pieces w1))) \<and>
    (\<forall>i. i < length calls \<longrightarrow>
      cs_arguments (calls ! i) = concat (map (\<lambda>fr. the_text (fr_arguments fr)) (of_call i frs)))"
  using assms by (rule deepseek_turn_ok)

text \<open>A server that sends a text and one call in two fragments.\<close>

definition delta_event :: "(string \<times> json) list \<Rightarrow> json" where
  "delta_event delta = JObj [(''choices'', JArr [JObj [(''delta'', JObj delta)]])]"

definition demo_events :: "(string \<times> json) list" where
  "demo_events =
    [(''a'', delta_event [(''content'', JStr ''Hi''),
        (''tool_calls'', JArr [JObj [(''index'', JInt 0), (''id'', JStr ''c1''),
          (''function'', JObj [(''name'', JStr ''f''), (''arguments'', JStr ''{'')])]])]),
     (''b'', delta_event [(''tool_calls'', JArr [JObj [(''index'', JInt 0),
          (''function'', JObj [(''arguments'', JStr ''}'')])]])])]"

definition demo_http :: "'w http_lib" where
  "demo_http = plain_http [(''q'', [Ev_headers 200, Ev_data (''data: a'' @ [lf, lf]), Ev_data (''data: b'' @ [lf, lf])],
     status_only 200)]"

definition demo_platform :: "'w platform" where
  "demo_platform = \<lparr>pf_json = json_ref demo_events (\<lambda>_. ''q''),
     pf_sys = \<lparr>steady_now = (\<lambda>w. 0), sleep_for = (\<lambda>n w. w), uniform_int = (\<lambda>a b w. (a, w))\<rparr>,
     pf_client = (\<lambda>_. demo_http), pf_sort = sort_key me_id\<rparr>"

lemma demo_answers:
  "hq_body request = ''q'' \<Longrightarrow> answers_with demo_http request w [''a'', ''b''] w"
  unfolding answers_with_def
  by (rule exI [of _ 200], rule exI [of _ "[Ev_data (''data: a'' @ [lf, lf]), Ev_data (''data: b'' @ [lf, lf])]"],
      rule exI [of _ "\<lparr>hr_status = 200, hr_headers = [], hr_body = []\<rparr>"],
      rule exI [of _ "[([lf], [''a'']), ([lf], [''b''])]"], rule exI [of _ None])
    (simp add: demo_http_def plain_http_def status_only_def stream_ok_def stream_text_def stream_payloads_def
      eol_ok_def frame_ok_def plain_line_def sse_frame_def payload_def lf_def cr_def)

definition demo_fragments :: "fragment list" where
  "demo_fragments =
    [\<lparr>fr_index = 0, fr_id = Some (JStr ''c1''), fr_type = None, fr_name = Some (JStr ''f''), fr_arguments = Some ''{''\<rparr>,
     \<lparr>fr_index = 0, fr_id = None, fr_type = None, fr_name = None, fr_arguments = Some ''}''\<rparr>]"

lemma demo_content:
  "events_content (pf_json demo_platform) packet_content [''a'', ''b''] =
    Some ([''Hi''], demo_fragments)"
  "events_content (pf_json demo_platform) openrouter_content [''a'', ''b''] =
    events_content (pf_json demo_platform) packet_content [''a'', ''b'']"
  by (simp_all add: events_content_def event_content_def demo_platform_def json_ref_def demo_events_def
      delta_event_def packet_content_def openrouter_content_def delta_content_def fragment_of_def fragment_index_def
      Let_def demo_fragments_def)

definition demo_callbacks :: "'w stream_callbacks" where
  "demo_callbacks = \<lparr>cb_on_text = None, cb_on_progress = None\<rparr>"

lemma demo_laws: "json_laws (pf_json demo_platform)"
  by (simp add: demo_platform_def json_ref.json_laws_axioms)

lemma demo_returns: "returns (call_opt (cb_on_text demo_callbacks))"
  and demo_progress: "cb_on_progress demo_callbacks = None"
  by (simp_all add: returns_def demo_callbacks_def)

lemma demo_call: "call_of (pf_json demo_platform)
    \<lparr>cs_id = JStr ''c1'', cs_type = t, cs_name = JStr ''f'', cs_arguments = ''{}''\<rparr> =
    \<lparr>cl_id = ''c1'', cl_name = ''f'', cl_arguments = JObj []\<rparr>"
  by (simp add: call_of_def parsed_arguments_def demo_platform_def json_ref_def demo_events_def ref_throw_def)

lemma demo_dump: "j_dump (pf_json demo_platform) j = Ret ''q''"
  by (simp add: demo_platform_def json_ref_def)

lemma demo_calls: "fold apply_fragment demo_fragments [] =
    [\<lparr>cs_id = JStr ''c1'', cs_type = JStr ''function'', cs_name = JStr ''f'', cs_arguments = ''{}''\<rparr>]"
  by (simp add: demo_fragments_def apply_fragment_def grown_def blank_state_def update_call_def or_keep_def the_text_def)

lemma demo_named: "list_all named_call (fold apply_fragment demo_fragments [])"
  by (simp add: demo_calls named_call_def)

theorem deepseek_turn_streams_witness:
  "fst (deepseek_execute_turn_request demo_platform first_obj ''key'' ''m'' [] demo_callbacks None
     (new_deepseek ''e'', ())) =
   Ret (good_turn ''Hi'' [\<lparr>cl_id = ''c1'', cl_name = ''f'', cl_arguments = JObj []\<rparr>])"
proof -
  let ?w = "(new_deepseek ''e'', ())"
  have endp: "ds_client (obj_get first_obj ?w) = Some ''e''"
    by (simp add: first_obj_def new_deepseek_def)
  have answer: "answers_with (pf_client demo_platform ''e'')
      (stream_request ''/chat/completions'' [bearer ''key''] ''q'') ?w [''a'', ''b''] ?w"
    by (simp add: demo_platform_def demo_answers stream_request_def)
  from deepseek_turn_streams [OF demo_laws never_set_None demo_progress demo_returns endp
      demo_dump answer demo_content(1) refl demo_named, THEN conjunct1]
  show ?thesis unfolding demo_calls by (simp add: demo_call)
qed

lemma openrouter_body:
  "build_openrouter_payload model messages tools supported = JObj (
     [(''model'', JStr model), (''messages'', JArr messages), (''stream'', JBool True)] @
     (if supported \<and> tools \<noteq> []
      then [(''tools'', JArr (map openai_tool (definitions_json tools))), (''tool_choice'', JStr ''auto'')] else []))"
  by (simp add: build_openrouter_payload_def serialize_openrouter_tools_def registry_empty_def)



end
