(* ===== verification/Provider_Facts.thy ===== *)
theory Provider_Facts
  imports Turns
begin

text \<open>
  Facts about the data the providers keep and send: trimming of the history, the choice of a model,
  the schemas sent to Gemini, the catalog of OpenRouter, and the type of the collected tool calls.
\<close>

section \<open>Trimming\<close>

text \<open>The history a trim to \<open>n\<close> entries is meant to leave: the newest ones, and a system message in front.\<close>

definition is_system :: "json \<Rightarrow> bool" where
  "is_system m \<longleftrightarrow> field m ''role'' = Some (JStr ''system'')"

definition trimmed :: "nat \<Rightarrow> json list \<Rightarrow> json list" where
  "trimmed n h =
     (if length h \<le> n then h
      else if is_system (hd h) then hd h # drop (length h - (n - 1)) h
      else drop (length h - n) h)"

text \<open>The first message has a role, as every message the providers write.\<close>

definition has_role :: "json \<Rightarrow> bool" where
  "has_role m \<longleftrightarrow> (\<exists>r. field m ''role'' = Some (JStr r))"

lemma erase_excess_zero: "h \<noteq> [] \<Longrightarrow> erase_excess 1 0 h = Undef"
proof (induction h rule: length_induct)
  case (1 h)
  show ?case
  proof (cases "length h \<le> 1")
    case True
    with 1(2) show ?thesis by (intro erase_excess_bad) auto
  next
    case False
    then have "erase_at 1 h \<noteq> []" "length (erase_at 1 h) < length h" by (auto simp: erase_at_def)
    with 1 False show ?thesis by (simp add: erase_excess.simps [of "Suc 0" 0 h])
  qed
qed

lemma length_trimmed: "1 \<le> n \<Longrightarrow> length (trimmed n h) = min n (length h)"
  by (auto simp: trimmed_def)

context json_laws
begin

lemma keep_from_role:
  "h \<noteq> [] \<Longrightarrow> has_role (hd h) \<Longrightarrow> history_keep_from J h = Ret (if is_system (hd h) then 1 else 0)"
  by (auto simp: history_keep_from_def has_role_def is_system_def value_string_str)

lemma trim_trimmed:
  assumes "1 \<le> n" and "h \<noteq> [] \<Longrightarrow> has_role (hd h)"
  shows "bind_out (history_keep_from J h) (\<lambda>k. erase_excess k n h) = Ret (trimmed n h)"
proof (cases "h = []")
  case True
  then show ?thesis by (simp add: history_keep_from_def trimmed_def erase_excess_eq)
next
  case False
  then have "take 1 h = [hd h]" by (cases h) auto
  moreover have "n < length h \<Longrightarrow> 1 + (length h - n) = length h - (n - 1)" using assms(1) by simp
  ultimately show ?thesis
    using False assms by (simp add: keep_from_role erase_excess_eq trimmed_def)
qed

end

section \<open>Schemas\<close>

text \<open>
  The schema nodes of a function schema, by the keywords the source's comment promises to clean: maps of
  schemas, single schemas and lists of schemas. JSON Schema has more keywords that hold schemas
  (\<^verbatim>\<open>patternProperties\<close>, \<^verbatim>\<open>if\<close>, \<^verbatim>\<open>then\<close>, \<^verbatim>\<open>else\<close>, \<^verbatim>\<open>contains\<close> and others); what is under those is no node here.
\<close>

inductive schema_node :: "json \<Rightarrow> json \<Rightarrow> bool" for s where
  whole: "schema_node s s"
| in_map: "schema_node s (JObj kvs) \<Longrightarrow> (k, JObj children) \<in> set kvs \<Longrightarrow>
    k = ''properties'' \<or> k = ''$defs'' \<or> k = ''defs'' \<or> k = ''definitions'' \<Longrightarrow> (a, c) \<in> set children \<Longrightarrow> schema_node s c"
| in_node: "schema_node s (JObj kvs) \<Longrightarrow> (k, c) \<in> set kvs \<Longrightarrow> k = ''items'' \<or> k = ''not'' \<Longrightarrow> schema_node s c"
| in_list: "schema_node s (JObj kvs) \<Longrightarrow> (k, JArr children) \<in> set kvs \<Longrightarrow>
    k = ''prefixItems'' \<or> k = ''anyOf'' \<or> k = ''oneOf'' \<or> k = ''allOf'' \<Longrightarrow> c \<in> set children \<Longrightarrow> schema_node s c"

text \<open>The source's lists of keywords are these.\<close>

lemma schema_keys [simp]:
  "k \<in> set schema_map_keys \<longleftrightarrow> k = ''properties'' \<or> k = ''$defs'' \<or> k = ''defs'' \<or> k = ''definitions''"
  "k \<in> set schema_node_keys \<longleftrightarrow> k = ''items'' \<or> k = ''not''"
  "k \<in> set schema_list_keys \<longleftrightarrow> k = ''prefixItems'' \<or> k = ''anyOf'' \<or> k = ''oneOf'' \<or> k = ''allOf''"
  by (auto simp: schema_map_keys_def schema_node_keys_def schema_list_keys_def)

lemma schema_keys_disjoint:
  "k \<in> set schema_map_keys \<Longrightarrow> k \<notin> set schema_node_keys \<and> k \<notin> set schema_list_keys"
  "k \<in> set schema_node_keys \<Longrightarrow> k \<notin> set schema_map_keys \<and> k \<notin> set schema_list_keys"
  "k \<in> set schema_list_keys \<Longrightarrow> k \<notin> set schema_map_keys \<and> k \<notin> set schema_node_keys"
  by auto

lemma schema_other: "\<not> is_JObj s \<Longrightarrow> gemini_function_schema s = s"
  by (cases s) auto

lemma schema_JObjD:
  assumes "gemini_function_schema s = JObj kvs"
  obtains kvs0 where "s = JObj kvs0" and
    "kvs = map (\<lambda>(k, v). (k, gemini_entry k v)) (filter (\<lambda>(k, v). k \<noteq> ''additionalProperties'') kvs0)"
  using assms by (cases s) auto

lemma schema_entryD:
  assumes "gemini_function_schema s = JObj kvs" and "(k, v) \<in> set kvs"
  obtains kvs0 v0 where "s = JObj kvs0" "(k, v0) \<in> set kvs0" "v = gemini_entry k v0"
  using assms by (elim schema_JObjD) auto

lemma gemini_entry_map: "k \<in> set schema_map_keys \<Longrightarrow> gemini_entry k v =
    (case v of JObj children \<Rightarrow> JObj (map (\<lambda>(a, child). (a, gemini_function_schema child)) children) | _ \<Rightarrow> v)"
  by (subst gemini_entry.simps) (rule if_P)

lemma gemini_entry_node: "k \<in> set schema_node_keys \<Longrightarrow> gemini_entry k v =
    (case v of JObj kvs \<Rightarrow> gemini_function_schema (JObj kvs) | _ \<Rightarrow> v)"
  by (frule schema_keys_disjoint(2), subst gemini_entry.simps) (simp only: if_True if_False simp_thms)

lemma gemini_entry_list: "k \<in> set schema_list_keys \<Longrightarrow> gemini_entry k v =
    (case v of JArr children \<Rightarrow> JArr (map gemini_function_schema children) | _ \<Rightarrow> v)"
  by (frule schema_keys_disjoint(3), subst gemini_entry.simps) (simp only: if_True if_False simp_thms)

lemma gemini_entry_other:
  "k \<notin> set schema_map_keys \<Longrightarrow> k \<notin> set schema_node_keys \<Longrightarrow> k \<notin> set schema_list_keys \<Longrightarrow> gemini_entry k v = v"
  by (subst gemini_entry.simps) (simp only: if_False)

lemma entry_map:
  assumes "k \<in> set schema_map_keys" and "gemini_entry k v0 = JObj children"
  shows "\<exists>children0. v0 = JObj children0 \<and> children = map (\<lambda>(a, c). (a, gemini_function_schema c)) children0"
  using assms(2) unfolding gemini_entry_map [OF assms(1)] by (cases v0) auto

lemma entry_node: "k \<in> set schema_node_keys \<Longrightarrow> gemini_entry k v0 = gemini_function_schema v0"
  by (cases v0) (simp_all add: gemini_entry_node)

lemma entry_list:
  assumes "k \<in> set schema_list_keys" and "gemini_entry k v0 = JArr xs"
  shows "\<exists>xs0. v0 = JArr xs0 \<and> xs = map gemini_function_schema xs0"
  using assms(2) unfolding gemini_entry_list [OF assms(1)] by (cases v0) auto

lemma clean_node:
  "schema_node (gemini_function_schema s) t \<Longrightarrow> \<exists>t0. schema_node s t0 \<and> t = gemini_function_schema t0"
proof (induction rule: schema_node.induct)
  case whole
  show ?case using schema_node.whole by blast
next
  case (in_map kvs k children a c)
  then obtain t0 where t0: "schema_node s t0" "gemini_function_schema t0 = JObj kvs" by metis
  then obtain kvs0 v0 where v0: "t0 = JObj kvs0" "(k, v0) \<in> set kvs0" "JObj children = gemini_entry k v0"
    using in_map by (elim schema_entryD)
  then obtain children0 where "v0 = JObj children0" "children = map (\<lambda>(a, c). (a, gemini_function_schema c)) children0"
    using entry_map [OF in_map(3) [folded schema_keys(1)]] by metis
  moreover from this in_map(4) obtain c0 where "(a, c0) \<in> set children0" "c = gemini_function_schema c0" by auto
  ultimately show ?case using schema_node.in_map [OF _ _ in_map(3)] t0(1) v0(1,2) by blast
next
  case (in_node kvs k c)
  then obtain t0 where t0: "schema_node s t0" "gemini_function_schema t0 = JObj kvs" by metis
  then obtain kvs0 v0 where v0: "t0 = JObj kvs0" "(k, v0) \<in> set kvs0" "c = gemini_entry k v0"
    using in_node by (elim schema_entryD)
  then show ?case using in_node t0(1) schema_node.in_node entry_node [OF in_node(3) [folded schema_keys(2)]] by metis
next
  case (in_list kvs k children c)
  then obtain t0 where t0: "schema_node s t0" "gemini_function_schema t0 = JObj kvs" by metis
  then obtain kvs0 v0 where v0: "t0 = JObj kvs0" "(k, v0) \<in> set kvs0" "JArr children = gemini_entry k v0"
    using in_list by (elim schema_entryD)
  then obtain xs0 where "v0 = JArr xs0" "children = map gemini_function_schema xs0"
    using entry_list [OF in_list(3) [folded schema_keys(3)]] by metis
  moreover from this in_list(4) obtain c0 where "c0 \<in> set xs0" "c = gemini_function_schema c0" by auto
  ultimately show ?case using schema_node.in_list [OF _ _ in_list(3)] t0(1) v0(1,2) by blast
qed

text \<open>And every node has its conversion in the converted schema.\<close>

lemma converted_entry:
  "(k, v) \<in> set kvs \<Longrightarrow> k \<noteq> ''additionalProperties'' \<Longrightarrow>
    \<exists>kvs1. gemini_function_schema (JObj kvs) = JObj kvs1 \<and> (k, gemini_entry k v) \<in> set kvs1"
  by force

lemma node_converted:
  "schema_node s t0 \<Longrightarrow> schema_node (gemini_function_schema s) (gemini_function_schema t0)"
proof (induction rule: schema_node.induct)
  case whole
  show ?case by (rule schema_node.whole)
next
  case (in_map kvs k children a c)
  have entry: "gemini_entry k (JObj children) = JObj (map (\<lambda>(a, child). (a, gemini_function_schema child)) children)"
    using gemini_entry_map [OF in_map(3) [folded schema_keys(1)]] by simp
  from converted_entry [OF in_map(2)] in_map(3) obtain kvs1 where "gemini_function_schema (JObj kvs) = JObj kvs1"
    "(k, gemini_entry k (JObj children)) \<in> set kvs1" by auto
  moreover from this in_map(5) have "schema_node (gemini_function_schema s) (JObj kvs1)" by simp
  moreover have "(a, gemini_function_schema c) \<in> set (map (\<lambda>(a, child). (a, gemini_function_schema child)) children)"
    using in_map(4) by force
  ultimately show ?case using entry in_map(3) by (metis schema_node.in_map)
next
  case (in_node kvs k c)
  from converted_entry [OF in_node(2)] in_node(3) obtain kvs1 where "gemini_function_schema (JObj kvs) = JObj kvs1"
    "(k, gemini_entry k c) \<in> set kvs1" by auto
  with in_node(3,4) entry_node [OF in_node(3) [folded schema_keys(2)]] show ?case by (metis schema_node.in_node)
next
  case (in_list kvs k children c)
  have entry: "gemini_entry k (JArr children) = JArr (map gemini_function_schema children)"
    using gemini_entry_list [OF in_list(3) [folded schema_keys(3)]] by simp
  from converted_entry [OF in_list(2)] in_list(3) obtain kvs1 where "gemini_function_schema (JObj kvs) = JObj kvs1"
    "(k, gemini_entry k (JArr children)) \<in> set kvs1" by auto
  moreover from this in_list(5) have "schema_node (gemini_function_schema s) (JObj kvs1)" by simp
  moreover have "gemini_function_schema c \<in> set (map gemini_function_schema children)" using in_list(4) by simp
  ultimately show ?case using entry in_list(3) by (metis schema_node.in_list)
qed

lemma schema_no_additional: "field (gemini_function_schema s) ''additionalProperties'' = None"
  by (cases s) (auto simp: map_of_eq_None_iff)

lemma map_of_map_entry:
  "map_of (map (\<lambda>(k, v). (k, g k v)) (filter (\<lambda>(k, v). k \<noteq> x) kvs)) k =
    (if k = x then None else map_option (g k) (map_of kvs k))"
  by (induction kvs) auto

lemma schema_keeps:
  "k \<noteq> ''additionalProperties'' \<Longrightarrow> k \<notin> set (schema_map_keys @ schema_node_keys @ schema_list_keys) \<Longrightarrow>
    field (gemini_function_schema s) k = field s k"
  by (cases s) (auto simp: map_of_map_entry gemini_entry_other option.map_ident cong: option.map_cong)

section \<open>The type of a collected call\<close>

text \<open>
  \<^verbatim>\<open>tool_calls\<close> holds objects with the members \<^verbatim>\<open>id\<close>, \<^verbatim>\<open>type\<close> and \<^verbatim>\<open>function\<close>, the last an
  object whose \<^verbatim>\<open>arguments\<close> are a string: what \<^verbatim>\<open>operator[]\<close> of the source relies on.
\<close>

definition typed_call :: "json \<Rightarrow> bool" where
  "typed_call j \<longleftrightarrow> (\<exists>c. j = call_json c)"

definition keeps_typed :: "'a turn_vars_scheme \<times> 'w \<Rightarrow> 'a turn_vars_scheme \<times> 'w \<Rightarrow> bool" where
  "keeps_typed s s' \<longleftrightarrow> (list_all typed_call (tv_calls (fst s)) \<longrightarrow> list_all typed_call (tv_calls (fst s')))"

interpretation typed: step_relation keeps_typed
  by unfold_locales (auto simp: keeps_typed_def)

lemma typed_edit_call:
  assumes "\<And>c j. f (call_json c) = Ret j \<Longrightarrow> typed_call j"
  shows "within keeps_typed (edit_call i f)"
proof -
  have "list_all typed_call (tv_calls v) \<Longrightarrow> i < length (tv_calls v) \<Longrightarrow> f (tv_calls v ! i) = Ret j \<Longrightarrow>
      list_all typed_call ((tv_calls v)[i := j])" for v :: "'a turn_vars_scheme" and j
    using assms unfolding typed_call_def by (auto simp: list_all_length nth_list_update)
  then show ?thesis
    by (auto simp: within_def edit_call_def keeps_typed_def bindA_def split: outcome.splits prod.splits)
qed

lemma typed_grow: "within keeps_typed (grow_calls i)"
proof -
  have "typed_call blank_call" unfolding typed_call_def by (rule exI [of _ blank_state]) simp
  then show ?thesis by (auto simp: within_def grow_calls_def keeps_typed_def list_all_iff)
qed

lemma typed_untouched:
  "(\<And>s. tv_calls (fst (snd (m s))) = tv_calls (fst s)) \<Longrightarrow> within keeps_typed m"
  by (simp add: within_def keeps_typed_def)

context json_laws
begin

lemma typed_member: "(\<And>x. within keeps_typed (k x)) \<Longrightarrow> within keeps_typed (if_member J j key k)"
  unfolding if_member_def by (intro typed.within_if typed.within_bindA) auto

lemma typed_arguments: "append_arguments J fn (call_json c) = Ret j \<Longrightarrow> typed_call j"
  unfolding append_arguments_def typed_call_def by (auto simp: bind_out_Ret assign_call)

lemma typed_change: "within keeps_typed (apply_change J change)"
  unfolding apply_change_def
  by (intro typed.within_bindA typed.within_lift_out typed_grow typed_member typed_edit_call typed.within_if
      typed.within_ret) (auto simp: assign_call typed_call_def dest: typed_arguments [unfolded typed_call_def])

lemma typed_text: "within keeps_typed (take_text J on_text j)"
  unfolding take_text_def
  by (intro typed.within_bindA typed.within_lift_out typed_untouched)
    (auto simp: on_snd_def split: prod.splits)

lemma typed_packet: "within keeps_typed (apply_packet J on_text packet)"
proof -
  have "within keeps_typed (apply_delta J on_text d)" for d
    unfolding apply_delta_def
    by (intro typed.within_bindA typed_member typed.within_if typed.within_ret typed_text typed.within_lift_out
        typed.within_forA typed_change)
  then show ?thesis
    unfolding apply_packet_def
    by (auto intro!: typed.within_bindA split: option.splits json.splits list.splits)
qed

lemma typed_parsers:
  "within keeps_typed (parse_deepseek_stream_chunk J on_text event)"
  "within keeps_typed (parse_openrouter_stream_chunk J on_text event)"
  unfolding parse_deepseek_stream_chunk_def parse_openrouter_stream_chunk_def
  by (intro typed.within_if typed.within_ret typed.within_try_std typed.within_bindA typed.within_lift_out
      typed.within_forA typed_packet)+

end

section \<open>The choice of a model\<close>

lemma find_in: "find p xs = Some x \<Longrightarrow> x \<in> set xs \<and> p x"
  by (auto simp: find_Some_iff)

lemma first_or_empty_in: "models \<noteq> [] \<Longrightarrow> first_or_empty models \<in> set models"
  by (cases models) (simp_all add: first_or_empty_def)

lemma first_containing_in: "first_containing pats models = Some m \<Longrightarrow> m \<in> set models"
  by (induction pats) (auto split: option.splits dest: find_in)

text \<open>A choice among listed candidates, with a fallback.\<close>

lemma case_find_in:
  "(\<And>x. f = Some x \<Longrightarrow> x \<in> S) \<Longrightarrow> (f = None \<Longrightarrow> d \<in> S) \<Longrightarrow> (case f of Some x \<Rightarrow> x | None \<Rightarrow> d) \<in> S"
  by (cases f) auto

lemma find_candidate: "find (\<lambda>c. c \<in> set models) cs = Some x \<Longrightarrow> x \<in> set models"
  by (drule find_in) simp

lemma find_none: "find (\<lambda>c. c \<in> set []) cs = None"
  by (induction cs) simp_all

lemma deepseek_picks:
  "(models \<noteq> [] \<longrightarrow> deepseek_preferred_model models \<in> set models) \<and> deepseek_preferred_model [] = []"
  unfolding deepseek_preferred_model_def find_none
  by (auto simp: first_or_empty_def [of "[]"] intro!: case_find_in first_or_empty_in dest: find_candidate)

lemma gemini_picks:
  "(models \<noteq> [] \<longrightarrow> gemini_preferred_model models \<in> set models) \<and> gemini_preferred_model [] = []"
  unfolding gemini_preferred_model_def find_none
  by (auto simp: first_or_empty_def [of "[]"] intro!: case_find_in first_or_empty_in dest: find_candidate find_in)

lemma openrouter_picks:
  "(models \<noteq> [] \<longrightarrow> openrouter_preferred_model models \<in> set models) \<and> openrouter_preferred_model [] = []"
  unfolding openrouter_preferred_model_def find_none
  by (auto simp: first_or_empty_def [of "[]"] intro!: case_find_in first_or_empty_in
      dest: find_candidate first_containing_in)

section \<open>The catalog\<close>

lemma catalog_entry_id: "catalog_entry J item = Ret (Some e) \<Longrightarrow> me_id e \<noteq> []"
  by (auto simp: catalog_entry_def bind_out_Ret split: option.splits if_splits)

lemma catalog_entries_ids: "catalog_entries J items = Ret es \<Longrightarrow> \<forall>e \<in> set es. me_id e \<noteq> []"
  by (induction items arbitrary: es) (auto simp: bind_out_Ret dest: catalog_entry_id split: option.splits)

lemma catalog_sorted:
  assumes "parse_openrouter_model_catalog J srt body = Ret es"
  shows "es = [] \<or> (\<exists>items es0. catalog_entries J items = Ret es0 \<and> es = srt es0)"
proof -
  obtain doc where "(case j_find J doc ''data'' of
      Some (JArr items) \<Rightarrow> bind_out (catalog_entries J items) (\<lambda>es. Ret (srt es)) | _ \<Rightarrow> Ret []) = Ret es"
    using assms unfolding parse_openrouter_model_catalog_def bind_out_Ret by blast
  then show ?thesis
    by (cases "j_find J doc ''data''"; cases "the (j_find J doc ''data'')") (auto simp: bind_out_Ret)
qed

lemma store_catalog_from:
  "key_sorted m \<Longrightarrow> map_of (foldl (\<lambda>m e. map_emplace (me_id e) (me_capabilities e) m) m es) k =
    (case map_of m k of Some c \<Rightarrow> Some c | None \<Rightarrow> map_option me_capabilities (find (\<lambda>e. me_id e = k) es))"
  by (induction es arbitrary: m) (auto simp: map_of_emplace split: option.splits)

lemma store_catalog_find:
  "map_of (store_catalog es) k = map_option me_capabilities (find (\<lambda>e. me_id e = k) es)"
  by (simp add: store_catalog_def store_catalog_from)

lemma deepseek_trim_eq:
  assumes "json_laws (pf_json P)" and "1 \<le> n"
    and "ds_messages (obj_get ds w) \<noteq> [] \<Longrightarrow> has_role (hd (ds_messages (obj_get ds w)))"
  shows "deepseek_trim_history P ds n w =
    modify_obj ds (\<lambda>s. s\<lparr>ds_messages := trimmed n (ds_messages (obj_get ds w))\<rparr>) w"
  using json_laws.trim_trimmed [OF assms] by (auto simp: deepseek_trim_history_def read_obj_def bind_out_Ret)

lemma openrouter_trim_eq:
  assumes "json_laws (pf_json P)" and "1 \<le> n"
    and "or_messages (obj_get op w) \<noteq> [] \<Longrightarrow> has_role (hd (or_messages (obj_get op w)))"
  shows "openrouter_trim_history P op n w =
    modify_obj op (\<lambda>s. s\<lparr>or_messages := trimmed n (or_messages (obj_get op w))\<rparr>) w"
  using json_laws.trim_trimmed [OF assms] by (auto simp: openrouter_trim_history_def read_obj_def bind_out_Ret)

section \<open>Properties\<close>

text \<open>C27: the type of the collected calls. Whatever the events are, well-formed or not, the parsers of
  DeepSeek and OpenRouter keep every collected tool call an object with an identifier, a type and a
  function whose arguments are a string, so that the accesses of the source never meet another type.\<close>

theorem collected_calls_typed:
  assumes "json_laws J"
    and "parse \<in> {parse_deepseek_stream_chunk J on_text, parse_openrouter_stream_chunk J on_text}"
    and "forA events parse (v\<lparr>tv_calls := []\<rparr>, w) = (r, (v1, w1))"
  shows "list_all (\<lambda>j. \<exists>c. j = call_json c) (tv_calls v1)"
proof -
  have "within keeps_typed (forA events parse)"
    using assms(2) json_laws.typed_parsers [OF assms(1)] by (intro typed.within_forA) auto
  from withinD [OF this assms(3)] show ?thesis
    by (simp add: keeps_typed_def typed_call_def [abs_def])
qed

theorem collected_calls_typed_witness:
  "list_all (\<lambda>j. \<exists>c. j = call_json c) (tv_calls (fst (snd
     (forA [''a'', ''?''] (parse_deepseek_stream_chunk (json_ref demo_events (\<lambda>_. [])) None) (new_turn_vars\<lparr>tv_calls := []\<rparr>, ())))))"
proof -
  obtain r v1 w1 where eq: "forA [''a'', ''?''] (parse_deepseek_stream_chunk (json_ref demo_events (\<lambda>_. [])) None)
      (new_turn_vars\<lparr>tv_calls := []\<rparr>, ()) = (r, (v1, w1))"
    by (metis prod.collapse)
  show ?thesis unfolding eq fst_conv snd_conv by (rule collected_calls_typed [OF json_ref.json_laws_axioms insertI1 eq])
qed

text \<open>Trimming. Trimming a history to at least one entry leaves it alone when it is short enough, and
  otherwise keeps exactly its newest entries, with a system message in front of them if there is one:
  the bound is met and only the oldest entries are lost. Entries are counted, not exchanges. The same for both
  providers.\<close>

theorem trim_history_keeps_newest:
  assumes "json_laws (pf_json P)" and "1 \<le> n"
    and "ds_messages (obj_get ds w) \<noteq> [] \<longrightarrow> has_role (hd (ds_messages (obj_get ds w)))"
    and "or_messages (obj_get op w) \<noteq> [] \<longrightarrow> has_role (hd (or_messages (obj_get op w)))"
  shows "deepseek_trim_history P ds n w =
      modify_obj ds (\<lambda>s. s\<lparr>ds_messages := trimmed n (ds_messages (obj_get ds w))\<rparr>) w \<and>
    openrouter_trim_history P op n w =
      modify_obj op (\<lambda>s. s\<lparr>or_messages := trimmed n (or_messages (obj_get op w))\<rparr>) w \<and>
    (\<forall>h. length (trimmed n h) = min n (length h))"
  using deepseek_trim_eq [OF assms(1,2)] openrouter_trim_eq [OF assms(1,2)] length_trimmed [OF assms(2)]
    assms(3,4) by blast

theorem trim_history_keeps_newest_witness:
  "ds_messages (fst (snd (deepseek_trim_history demo_platform first_obj 2
     ((new_deepseek ''e'')\<lparr>ds_messages := [system_message ''s'', user_message ''a'', user_message ''b'']\<rparr>,
      new_openrouter default_openrouter_config)))) = [system_message ''s'', user_message ''b'']"
proof -
  let ?h = "[system_message ''s'', user_message ''a'', user_message ''b'']"
  let ?w = "((new_deepseek ''e'')\<lparr>ds_messages := ?h\<rparr>, new_openrouter default_openrouter_config)"
  let ?op = "\<lparr>obj_get = snd, obj_put = (\<lambda>s w. (fst w, s))\<rparr>"
  have "has_role (system_message ''s'')" by (simp add: has_role_def system_message_def)
  then have "deepseek_trim_history demo_platform first_obj 2 ?w = modify_obj first_obj
      (\<lambda>s. s\<lparr>ds_messages := trimmed 2 (ds_messages (obj_get first_obj ?w))\<rparr>) ?w"
    using trim_history_keeps_newest [OF demo_laws, of 2 first_obj ?w ?op]
    by (simp add: first_obj_def new_openrouter_def init_client_def)
  then show ?thesis
    by (simp add: modify_obj_def first_obj_def trimmed_def is_system_def system_message_def)
qed

text \<open>Trimming to nothing. A history that starts with a system message cannot be trimmed to zero
  entries: the loop ends with only the system message left and erases behind the end of the array.
  A session whose \<open>max_history_entries\<close> is 0 does this before its second prompt.\<close>

theorem trim_to_zero_undefined:
  assumes "json_laws (pf_json P)" and "ds_messages (obj_get ds w) = system_message s # h"
  shows "fst (deepseek_trim_history P ds 0 w) = Undef"
proof -
  have "has_role (system_message s)" "is_system (system_message s)"
    by (simp_all add: has_role_def is_system_def system_message_def)
  then show ?thesis
    using json_laws.keep_from_role [OF assms(1), of "system_message s # h"] erase_excess_zero [of "system_message s # h"]
    by (simp add: deepseek_trim_history_def read_obj_def assms(2) bindA_def)
qed

theorem trim_to_zero_undefined_witness:
  "fst (deepseek_trim_history demo_platform first_obj 0
     ((new_deepseek ''e'')\<lparr>ds_messages := [system_message ''s'', user_message ''a'']\<rparr>, ())) = Undef"
  by (rule trim_to_zero_undefined [OF demo_laws, where h = "[user_message ''a'']"]) (simp add: first_obj_def)

text \<open>C35: schemas for Gemini. The schema nodes are those under \<^verbatim>\<open>properties\<close>, \<^verbatim>\<open>$defs\<close>, \<^verbatim>\<open>defs\<close>, \<^verbatim>\<open>definitions\<close>,
  \<^verbatim>\<open>items\<close>, \<^verbatim>\<open>not\<close>, \<^verbatim>\<open>prefixItems\<close>, \<^verbatim>\<open>anyOf\<close>, \<^verbatim>\<open>oneOf\<close> and \<^verbatim>\<open>allOf\<close>, at any depth of these. The nodes of a converted
  schema are the conversions of the nodes of the original, no more and no less; none of them has the
  keyword \<^verbatim>\<open>additionalProperties\<close>, and every keyword other than these is as it was. Schemas under
  other keywords are not reached: see \<open>schema_not_reached\<close>.\<close>

theorem gemini_schema_clean:
  "(schema_node (gemini_function_schema s) t \<longleftrightarrow> (\<exists>t0. schema_node s t0 \<and> t = gemini_function_schema t0)) \<and>
    (schema_node (gemini_function_schema s) t \<longrightarrow> field t ''additionalProperties'' = None) \<and>
    (\<forall>k. k \<notin> {''additionalProperties'', ''properties'', ''$defs'', ''defs'', ''definitions'', ''items'', ''not'',
        ''prefixItems'', ''anyOf'', ''oneOf'', ''allOf''} \<longrightarrow> field (gemini_function_schema u) k = field u k)"
  using clean_node [of s t] node_converted [of s] schema_no_additional schema_keeps [of _ u] by auto

theorem gemini_schema_clean_witness:
  "field (JObj [(''type'', JStr ''object'')]) ''additionalProperties'' = None"
proof -
  let ?t = "JObj [(''additionalProperties'', JBool False), (''type'', JStr ''object'')]"
  let ?c = "JObj [(''type'', JStr ''object'')]"
  have c: "gemini_function_schema ?t = ?c" by (simp add: gemini_entry_other)
  have "schema_node (JObj [(''items'', ?t)]) ?t"
    by (rule schema_node.in_node [OF schema_node.whole, where k = "''items''"]) simp_all
  with gemini_schema_clean [of "JObj [(''items'', ?t)]" ?c] c show ?thesis by metis
qed

text \<open>What the conversion does not reach, for one of the other keywords.\<close>

lemma schema_not_reached:
  "gemini_function_schema (JObj [(''patternProperties'', JObj [(''^x'', JObj [(''additionalProperties'', JBool False)])])]) =
    JObj [(''patternProperties'', JObj [(''^x'', JObj [(''additionalProperties'', JBool False)])])]"
  by (simp add: gemini_entry_other)

text \<open>The preferred model. From a non-empty list each provider picks a model of the list; from an
  empty list it picks none.\<close>

theorem preferred_model_is_listed:
  "\<forall>pick \<in> {deepseek_preferred_model, gemini_preferred_model, openrouter_preferred_model}.
     (models \<noteq> [] \<longrightarrow> pick models \<in> set models) \<and> pick [] = []"
  using deepseek_picks gemini_picks openrouter_picks by simp

theorem preferred_model_is_listed_witness:
  "deepseek_preferred_model [''x'', ''deepseek-chat''] \<in> set [''x'', ''deepseek-chat'']"
  using preferred_model_is_listed [of "[''x'', ''deepseek-chat'']"] by blast

text \<open>The catalog of OpenRouter. When a catalog was read, the models are in increasing order of their
  identifiers, none of which is empty, and afterwards the capabilities the provider knows of each
  listed model are those of its first entry; every other model has the default capabilities.\<close>

theorem catalog_listed_models:
  assumes "parse_openrouter_model_catalog J srt body = Ret entries" and "sorts_entries srt"
  shows "sorted (map me_id entries) \<and> [] \<notin> set (map me_id entries) \<and>
    capabilities_in (store_catalog entries) model =
      (case find (\<lambda>e. me_id e = model) entries of Some e \<Rightarrow> me_capabilities e | None \<Rightarrow> default_capabilities)"
proof -
  have srt: "set (srt es) = set es" "sorted (map me_id (srt es))" for es
    using assms(2) unfolding sorts_entries_def by (metis set_mset_mset)+
  from catalog_sorted [OF assms(1)] have "sorted (map me_id entries)" "[] \<notin> set (map me_id entries)"
    using srt catalog_entries_ids by fastforce+
  then show ?thesis
    by (auto simp: capabilities_in_def store_catalog_find split: option.splits)
qed

theorem catalog_listed_models_witness:
  "\<exists>es. parse_openrouter_model_catalog (json_ref [(''c'', JObj [(''data'', JArr
      [JObj [(''id'', JStr ''b''), (''supported_parameters'', JArr [JStr ''seed''])], JObj [(''id'', JStr ''a'')]])])] (\<lambda>_. []))
      (sort_key me_id) ''c'' = Ret es \<and> sorted (map me_id es)"
proof -
  let ?J = "json_ref [(''c'', JObj [(''data'', JArr
      [JObj [(''id'', JStr ''b''), (''supported_parameters'', JArr [JStr ''seed''])], JObj [(''id'', JStr ''a'')]])])] (\<lambda>_. [])"
  have "sorts_entries (sort_key me_id)" by (simp add: sorts_entries_def)
  moreover obtain es where "parse_openrouter_model_catalog ?J (sort_key me_id) ''c'' = Ret es"
    by (simp add: parse_openrouter_model_catalog_def json_ref_def catalog_entry_def string_member_def
        wrong_modality_def)
  ultimately show ?thesis using catalog_listed_models by blast
qed

end
