(* ===== verification/Turn_Steps.thy ===== *)
theory Turn_Steps
  imports Openrouter_Provider
begin

text \<open>
  What the steps of a turn keep. The locale \<open>turn_relation\<close> is a contract on the local variables of a turn and
  the world together; it is kept by the decoder, the transfer, the request, the retry loop and the
  parsers when it is kept by the host (the network, the clock, the flag, the callbacks) and by writing
  the variables. Contracts of the world alone, \<open>on_world\<close>, ask nothing of the variables.
\<close>

section \<open>The contract\<close>

lemma with_decoder_state: "snd (with_decoder m d s) = snd (snd (m (d, s)))"
  by (auto simp: with_decoder_def split: prod.splits outcome.splits)

lemma sv_error_body_append: "v\<lparr>sv_error_body := sv_error_body v @ chunk\<rparr> = sv_error_body_update (\<lambda>b. b @ chunk) v"
  by simp

text \<open>The host of a retry loop.\<close>

definition waits_within ::
    "('v \<times> 'w \<Rightarrow> 'v \<times> 'w \<Rightarrow> bool) \<Rightarrow> 'w sys \<Rightarrow> 'w flag_ptr \<Rightarrow> (string \<Rightarrow> ('w, unit) act) option \<Rightarrow> bool" where
  "waits_within R S cancel on_progress \<longleftrightarrow>
     within R (on_snd (load_flag cancel)) \<and> (\<forall>m. within R (on_snd (call_opt on_progress m))) \<and>
     (\<forall>v n w. R (v, w) (v, sleep_for S n w)) \<and> (\<forall>v a b w. R (v, w) (v, snd (uniform_int S a b w)))"

text \<open>The parsers write the variables and hand text to the consumer.\<close>

definition parses_within ::
    "(turn_vars \<times> 'w \<Rightarrow> turn_vars \<times> 'w \<Rightarrow> bool) \<Rightarrow> (string \<Rightarrow> ('w, unit) act) option \<Rightarrow> bool" where
  "parses_within R on_text \<longleftrightarrow>
     (\<forall>v v' w. sv_received_event v' = sv_received_event v \<longrightarrow> R (v, w) (v', w)) \<and>
     (\<forall>s. within R (on_snd (call_opt on_text s)))"

locale turn_relation = step_relation R
  for R :: "turn_vars \<times> 'w \<Rightarrow> turn_vars \<times> 'w \<Rightarrow> bool"
begin

lemma within_push_loop:
  "(\<And>ev. within R (on_event ev)) \<Longrightarrow> R w (snd (snd (push_loop on_event pending w)))"
proof (induction on_event pending w rule: push_loop.induct)
  case (1 on_event pending w)
  show ?case
  proof (cases "find_sub [lf, lf] pending")
    case None
    then show ?thesis by (subst push_loop.simps) (simp add: step_refl)
  next
    case (Some e)
    note IH = 1(1,2) [OF Some refl refl]
    obtain r w1 where ev: "on_event (event_data (take e pending)) w = (r, w1)"
      by (cases "on_event (event_data (take e pending)) w")
    have w1: "R w w1" using withinD [OF 1(3) ev] .
    show ?thesis
      using IH 1(3) ev w1 Some
      by (subst push_loop.simps) (auto simp: Let_def step_refl split: outcome.splits intro: step_trans)
  qed
qed

lemma within_decoder:
  assumes "\<And>ev. within R (on_event ev)"
  shows "within R (with_decoder (sse_push on_event bytes) d)" and "within R (with_decoder (sse_finish on_event) d)"
proof -
  have push: "R s (snd (snd (sse_push on_event b (d, s))))" for b d s
    using within_push_loop [OF assms] by (simp add: sse_push_def)
  have "R s (snd (snd (sse_finish on_event (d, s))))" for d s
    using push [of s "[lf, lf]" d] withinD [OF assms, of d s] by (auto simp: sse_finish_def step_refl split: prod.splits)
  with push show "within R (with_decoder (sse_push on_event bytes) d)" "within R (with_decoder (sse_finish on_event) d)"
    by (simp_all add: within_def with_decoder_state)
qed

lemma within_run_transfer:
  assumes "within R (on_snd (load_flag cancel))" and "\<And>ev. within R (deliver on_event ev)"
    and "\<And>g. within R (modifyA (\<lambda>(v, w). (sv_error_body_update g v, w)))"
  shows "within R (run_transfer cancel on_event status decoder es)"
proof (induction es arbitrary: status decoder)
  case (Cons e es)
  have body: "within R (modifyA (\<lambda>(v, w). (v\<lparr>sv_error_body := sv_error_body v @ chunk\<rparr>, w)))" for chunk
    using assms(3) [of "\<lambda>b. b @ chunk"] by (simp add: sv_error_body_append)
  show ?case
    using Cons by (cases e) (auto intro!: within_bindA assms(1) within_decoder [OF assms(2)] body)
qed simp

lemma within_stream_post:
  assumes "within R (on_snd (load_flag cancel))" and "\<And>ev. within R (deliver on_event ev)"
    and "\<And>g. within R (modifyA (\<lambda>(v, w). (sv_error_body_update g v, w)))"
    and "\<And>req. within R (on_snd (h_send H req))"
  shows "within R (stream_post H path headers body on_event cancel)"
  unfolding stream_post_def
  by (auto simp: Let_def split: http_result.splits
      intro!: within_bindA within_run_transfer within_decoder assms)

lemma within_wait_until:
  assumes "waits_within R S cancel on_progress"
  shows "within R (on_snd (wait_until S cancel deadline fuel))"
proof -
  have "R (v, w) (v, snd (wait_until S cancel deadline fuel w))" for v w
  proof (induction fuel arbitrary: w)
    case 0
    then show ?case by (subst wait_until.simps) (simp add: step_refl)
  next
    case (Suc fuel)
    obtain c w1 where l: "load_flag cancel w = (Ret c, w1)" by (rule load_flag_cases)
    have "R (v, w) (v, w1)"
      using assms withinD [of R "on_snd (load_flag cancel)" "(v, w)"] by (simp add: waits_within_def l)
    moreover have "R (v, w1) (v, sleep_for S 20 w1)" using assms by (simp add: waits_within_def)
    ultimately show ?case
      using Suc [of "sleep_for S 20 w1"] l
      by (subst wait_until.simps) (auto simp: step_refl intro: step_trans)
  qed
  then show ?thesis by (auto simp: within_def)
qed

lemma within_retry_delay:
  assumes "waits_within R S cancel on_progress"
  shows "within R (on_snd (retry_delay S H response attempt))"
proof -
  have "R (v, w) (v, snd (retry_delay S H response attempt w))" for v w
    using assms unfolding retry_delay_def Let_def waits_within_def
    by (auto simp: step_refl split: http_result.splits sum.splits prod.splits) (metis snd_conv)+
  then show ?thesis by (auto simp: within_def)
qed

lemma within_stream_loop:
  assumes host: "waits_within R S cancel on_progress" and request: "within R request"
  shows "within R (execute_stream_from S H request received error_body cancel on_progress m attempt)"
proof (induction attempt rule: attempt_induct [of m])
  case (1 attempt)
  have pieces: "within R (on_snd (load_flag cancel))" "\<And>s. within R (on_snd (call_opt on_progress s))"
    using host by (simp_all add: waits_within_def)
  show ?case
    unfolding execute_stream_from.simps [of S H request received error_body cancel on_progress m attempt]
    using 1 by (auto simp: on_snd_readA intro!: within_bindA pieces request within_wait_until [OF host] within_retry_delay [OF host])
qed

lemma within_vars:
  assumes "parses_within R on_text" and "\<And>v w. sv_received_event (g v w) = sv_received_event v"
  shows "within R (modifyA (\<lambda>(v, w). (g v w, w)))"
  using assms by (auto simp: parses_within_def within_def)

lemma within_member: "(\<And>x. within R (k x)) \<Longrightarrow> within R (if_member J j key k)"
  unfolding if_member_def by (intro within_if within_bindA within_lift_out within_ret)

lemma within_take_text: "parses_within R on_text \<Longrightarrow> within R (take_text J on_text j)"
  unfolding take_text_def
  by (intro within_bindA within_lift_out within_vars) (auto simp: parses_within_def)

lemma within_apply_packet:
  assumes "parses_within R on_text"
  shows "within R (apply_packet J on_text packet)"
proof -
  note vars = within_vars [OF assms]
  have edit: "within R (edit_call i g)" for i g
    unfolding edit_call_def by (intro within_bindA within_readA within_lift_out vars) simp
  have "within R (apply_change J c)" for c
    unfolding apply_change_def grow_calls_def
    by (intro within_bindA within_lift_out within_member edit within_if within_ret vars) simp
  then have "within R (apply_delta J on_text d)" for d
    unfolding apply_delta_def
    by (intro within_bindA within_lift_out within_member within_if within_ret within_forA within_take_text [OF assms])
  then show ?thesis
    unfolding apply_packet_def
    by (auto intro!: within_bindA split: option.splits json.splits list.splits)
qed

lemma within_gemini_packet:
  assumes "parses_within R on_text"
  shows "within R (gemini_packet J on_text packet)"
proof -
  have "within R (gemini_part J on_text part)" for part
    unfolding gemini_part_def
    by (intro within_bindA within_lift_out within_if within_ret within_take_text [OF assms] within_vars [OF assms]) simp_all
  then show ?thesis
    unfolding gemini_packet_def
    by (auto intro!: within_bindA within_forA split: option.splits json.splits list.splits)
qed

lemma within_parsers:
  assumes "parses_within R on_text"
  shows "within R (parse_gemini_stream_chunk J on_text ev)"
    and "within R (parse_deepseek_stream_chunk J on_text ev)"
    and "within R (parse_openrouter_stream_chunk J on_text ev)"
  unfolding parse_gemini_stream_chunk_def parse_deepseek_stream_chunk_def parse_openrouter_stream_chunk_def
  by (intro within_if within_ret within_try_std within_bindA within_lift_out within_forA
      within_apply_packet [OF assms] within_gemini_packet [OF assms])+

end

section \<open>Contracts of the world\<close>

definition on_world :: "('w \<Rightarrow> 'w \<Rightarrow> bool) \<Rightarrow> 'v \<times> 'w \<Rightarrow> 'v \<times> 'w \<Rightarrow> bool" where
  "on_world R s t \<longleftrightarrow> R (snd s) (snd t)"

text \<open>The network apart, this is the host of a turn.\<close>

definition steady_host :: "('w \<Rightarrow> 'w \<Rightarrow> bool) \<Rightarrow> 'w platform \<Rightarrow> 'w stream_callbacks \<Rightarrow> 'w flag_ptr \<Rightarrow> bool" where
  "steady_host R P callbacks cancel \<longleftrightarrow>
     (\<forall>n w. R w (sleep_for (pf_sys P) n w)) \<and> (\<forall>a b w. R w (snd (uniform_int (pf_sys P) a b w))) \<and>
     within R (load_flag cancel) \<and>
     (\<forall>s. within R (call_opt (cb_on_text callbacks) s)) \<and> (\<forall>s. within R (call_opt (cb_on_progress callbacks) s))"

locale world_relation = step_relation R for R :: "'w \<Rightarrow> 'w \<Rightarrow> bool"

sublocale world_relation \<subseteq> turn: turn_relation "on_world R"
  by unfold_locales (auto simp: on_world_def step_refl intro: step_trans)

interpretation world_same: world_relation "same f" for f
  by unfold_locales

interpretation world_no_more: world_relation "no_more f" for f
  by unfold_locales

context world_relation
begin

lemma within_on_snd: "within R m \<Longrightarrow> within (on_world R) (on_snd m)"
  by (auto simp: within_def on_world_def)

lemma within_write: "within (on_world R) (modifyA (\<lambda>(v, w). (g v w, w)))"
  by (auto simp: within_def on_world_def step_refl)

lemma steady_host_turn:
  assumes "steady_host R P callbacks cancel"
  shows "waits_within (on_world R) (pf_sys P) cancel (cb_on_progress callbacks)"
    and "parses_within (on_world R) (cb_on_text callbacks)"
  using assms by (auto simp: steady_host_def waits_within_def parses_within_def on_world_def step_refl
      intro!: within_on_snd)

lemma within_world_loop:
  fixes request :: "(turn_vars \<times> 'w, http_result) act"
  assumes "steady_host R P callbacks cancel" and "within (on_world R) request"
  shows "within (on_world R) (execute_stream_from (pf_sys P) H request received error_body cancel
      (cb_on_progress callbacks) m attempt)"
  using steady_host_turn(1) [OF assms(1)] assms(2) by (rule turn.within_stream_loop)

lemma within_world_post:
  fixes on_event :: "string \<Rightarrow> (turn_vars \<times> 'w, unit) act"
  assumes "steady_host R P callbacks cancel" and "\<And>req. within R (h_send H req)"
    and "\<And>ev. within (on_world R) (on_event ev)"
  shows "within (on_world R) (stream_post H path headers body on_event cancel)"
proof -
  have "within (on_world R) (deliver on_event ev)" for ev
    unfolding deliver_def by (intro turn.within_bindA within_write assms(3))
  moreover have "within R (load_flag cancel)" using assms(1) by (simp add: steady_host_def)
  ultimately show ?thesis
    by (intro turn.within_stream_post within_on_snd assms(2) within_write)
qed

lemma within_world_parsers:
  assumes "steady_host R P callbacks cancel"
  shows "within (on_world R) (parse_gemini_stream_chunk J (cb_on_text callbacks) ev :: (turn_vars \<times> 'w, unit) act)"
    and "within (on_world R) (parse_deepseek_stream_chunk J (cb_on_text callbacks) ev :: (turn_vars \<times> 'w, unit) act)"
    and "within (on_world R) (parse_openrouter_stream_chunk J (cb_on_text callbacks) ev :: (turn_vars \<times> 'w, unit) act)"
  by (rule turn.within_parsers [OF steady_host_turn(2) [OF assms]])+

end

end
