(* ===== verification/Protocol.thy ===== *)
theory Protocol
  imports Provider_Facts Session Turn_Steps
begin

text \<open>
  The protocol of tool calls over a whole prompt. The API of DeepSeek and OpenRouter wants every tool
  call of an assistant message answered, in the messages right after it, by a tool message with its
  identifier. The locale \<open>tool_protocol\<close> is what a provider promises about one turn; the session
  keeps the protocol over a prompt when the provider does, and both providers do.
\<close>

section \<open>Histories that follow the protocol\<close>

definition has_text :: "json \<Rightarrow> string \<Rightarrow> string \<Rightarrow> bool" where
  "has_text m k s \<longleftrightarrow> field m k = Some (JStr s)"

definition call_id_of :: "json \<Rightarrow> string" where
  "call_id_of call = (case field call ''id'' of Some (JStr s) \<Rightarrow> s | _ \<Rightarrow> [])"

definition requested :: "json \<Rightarrow> string list" where
  "requested m = (case field m ''tool_calls'' of Some (JArr calls) \<Rightarrow> map call_id_of calls | _ \<Rightarrow> [])"

text \<open>The identifiers still to be answered after a history; \<open>None\<close> when the protocol is broken.\<close>

fun unanswered :: "string list \<Rightarrow> json list \<Rightarrow> string list option" where
  "unanswered ids [] = Some ids"
| "unanswered [] (m # ms) = (if has_text m ''role'' ''tool'' then None else unanswered (requested m) ms)"
| "unanswered (i # ids) (m # ms) =
     (if has_text m ''role'' ''tool'' \<and> has_text m ''tool_call_id'' i then unanswered ids ms else None)"

definition waits_for :: "json list \<Rightarrow> string list \<Rightarrow> bool" where
  "waits_for h ids \<longleftrightarrow> unanswered [] h = Some ids"

lemma unanswered_append:
  "unanswered ids (h @ h') = Option.bind (unanswered ids h) (\<lambda>ids'. unanswered ids' h')"
  by (induction ids h rule: unanswered.induct) auto

lemma waits_for_Nil [simp]: "waits_for [] []"
  by (simp add: waits_for_def)

lemma waits_for_snoc:
  "waits_for h [] \<Longrightarrow> \<not> has_text m ''role'' ''tool'' \<Longrightarrow> waits_for (h @ [m]) (requested m)"
  by (simp add: waits_for_def unanswered_append)

lemma waits_for_plain:
  "waits_for h [] \<Longrightarrow> \<not> has_text m ''role'' ''tool'' \<Longrightarrow> requested m = [] \<Longrightarrow> waits_for (h @ [m]) []"
  using waits_for_snoc by fastforce

lemma waits_for_answer: "waits_for h (i # ids) \<Longrightarrow> waits_for (h @ [tool_message i c]) ids"
  by (simp add: waits_for_def unanswered_append has_text_def tool_message_def)

lemma plain_messages [simp]:
  "\<not> has_text (system_message s) ''role'' ''tool''" "requested (system_message s) = []"
  "\<not> has_text (user_message s) ''role'' ''tool''" "requested (user_message s) = []"
  "\<not> has_text (assistant_message s calls) ''role'' ''tool''"
  by (simp_all add: has_text_def requested_def system_message_def user_message_def assistant_message_def)

lemma requested_assistant [simp]: "requested (assistant_message s calls) = map call_id_of calls"
  by (simp add: requested_def assistant_message_def)

section \<open>The contract of a provider and its use by a session\<close>

locale tool_protocol =
  fixes hist :: "'w \<Rightarrow> json list" and prov :: "'w provider" and registry :: "'w tool_registry"
    and callbacks :: "'w stream_callbacks" and cancel :: "'w flag_ptr"
  assumes start_waits: "p_start_turn prov key model instruction txt registry callbacks cancel w = (Ret turn, w1) \<Longrightarrow>
      mt_ok turn \<Longrightarrow> waits_for (hist w) [] \<Longrightarrow> waits_for (hist w1) (map cl_id (mt_tool_calls turn))"
    and continue_waits: "p_continue_turn prov key model instruction rs registry callbacks cancel w = (Ret turn, w1) \<Longrightarrow>
      mt_ok turn \<Longrightarrow> waits_for (hist w) (map rp_call_id rs) \<Longrightarrow> waits_for (hist w1) (map cl_id (mt_tool_calls turn))"
begin

lemma tool_loop_protocol:
  assumes tools: "tools_within (same hist) registry confirm callbacks cancel"
    and waits: "waits_for (hist w) (map cl_id (mt_tool_calls turn))"
    and run: "tool_loop (\<lambda>rs. p_continue_turn prov key model instruction rs registry callbacks cancel)
        registry confirm callbacks cancel m round turn w = (Ret res, w1)"
    and ok: "res_ok res"
  shows "waits_for (hist w1) []"
  using waits run
proof (induction round arbitrary: turn w rule: round_induct [where m = m])
  case (1 round)
  let ?cont = "\<lambda>rs. p_continue_turn prov key model instruction rs registry callbacks cancel"
  show ?case
  proof (cases "mt_tool_calls turn = []")
    case True
    with 1(2,3) show ?thesis by (subst (asm) tool_loop.simps) simp
  next
    case False
    have load: "keeps hist (load_flag cancel)" using tools by (simp add: tools_within_def)
    from 1(3) False have le: "round + 1 \<le> m"
      using ok by (subst (asm) tool_loop.simps) (auto simp: api_failure_def split: if_splits)
    with 1(3) False ok obtain rs w2 w3 turn' w4 where
      rs: "run_calls registry confirm callbacks cancel (mt_tool_calls turn) [] w = (Ret (Some rs), w2)"
      and l: "load_flag cancel w2 = (Ret False, w3)"
      and t: "?cont rs w3 = (Ret turn', w4)"
      and c: "check_turn cancel turn' (tool_loop ?cont registry confirm callbacks cancel m (round + 1) turn') w4 = (Ret res, w1)"
      by (subst (asm) tool_loop.simps)
        (auto simp: api_cancelled_def split: if_splits option.splits elim!: bindA_RetE)
    have "hist w2 = hist w"
      using keepsD [OF same.within_run_calls [OF tools] rs] .
    moreover have "hist w3 = hist w2" using keepsD [OF load l] .
    moreover have "map rp_call_id rs = map cl_id (mt_tool_calls turn)"
      using arg_cong [OF run_calls_answers [OF rs], of "map fst"]
      by (simp add: response_sig_def call_sig_def comp_def)
    ultimately have w3: "waits_for (hist w3) (map rp_call_id rs)" using 1(2) by simp
    from c ok obtain w5 where w5: "load_flag cancel w4 = (Ret False, w5)" "mt_ok turn'"
      "tool_loop ?cont registry confirm callbacks cancel m (round + 1) turn' w5 = (Ret res, w1)"
      by (auto simp: check_turn_def api_cancelled_def split: if_splits elim!: bindA_RetE)
    have "waits_for (hist w5) (map cl_id (mt_tool_calls turn'))"
      using continue_waits [OF t w5(2) w3] keepsD [OF load w5(1)] by simp
    with 1(1) [of "round + 1"] le w5(3) show ?thesis by simp
  qed
qed

text \<open>
  A prompt that ends well leaves no call open, provided that its host code does not touch the history
  and the trim before it finds the history short enough.
\<close>

lemma prompt_protocol:
  assumes tools: "tools_within (same hist) registry (se_confirm s) callbacks cancel"
    and reg: "session_registry s = registry"
    and trim: "\<And>w1 w2. hist w1 = hist w \<Longrightarrow>
      p_trim_history prov (cf_max_history_entries (se_config s)) w1 = (Ret (), w2) \<Longrightarrow> hist w2 = hist w"
    and waits: "waits_for (hist w) []"
    and run: "world_prompt s prov txt callbacks cancel w = (Ret res, w1)" and ok: "res_ok res"
  shows "waits_for (hist w1) []"
proof -
  have load: "keeps hist (load_flag cancel)" using tools by (simp add: tools_within_def)
  from run ok obtain w0 w2 where w0: "load_flag cancel w = (Ret False, w0)"
    and w2: "p_trim_history prov (cf_max_history_entries (se_config s)) w0 = (Ret (), w2)"
      "run_prompt s prov txt callbacks cancel w2 = (Ret res, w1)"
    by (auto simp: world_prompt_def api_cancelled_def split: if_splits elim!: bindA_RetE)
  have "hist w2 = hist w" using trim [OF keepsD [OF load w0] w2(1)] .
  then have w2h: "waits_for (hist w2) []" using waits by simp
  from w2(2) ok obtain turn w3 w4 where
    t: "p_start_turn prov (se_api_key s) (se_active_model s) (cf_system_instruction (se_config s)) txt registry
        callbacks cancel w2 = (Ret turn, w3)" "mt_ok turn" "load_flag cancel w3 = (Ret False, w4)"
    and loop: "tool_loop (\<lambda>rs. p_continue_turn prov (se_api_key s) (se_active_model s)
          (cf_system_instruction (se_config s)) rs registry callbacks cancel)
        registry (se_confirm s) callbacks cancel (cf_max_tool_rounds (se_config s)) 0 turn w4 = (Ret res, w1)"
    by (auto simp: run_prompt_def Let_def reg check_turn_def api_cancelled_def split: if_splits elim!: bindA_RetE)
  have "waits_for (hist w4) (map cl_id (mt_tool_calls turn))"
    using start_waits [OF t(1,2) w2h] keepsD [OF load t(3)] by simp
  from tool_loop_protocol [OF tools this loop ok] show ?thesis .
qed

end

section \<open>What a turn of a provider leaves alone\<close>

text \<open>
  A part of the world that the network, the clock, the flag and the callbacks do not touch; \<open>world_part f\<close>
  is that part next to the local variables of a turn.
\<close>

definition quiet_host :: "('w \<Rightarrow> 'h) \<Rightarrow> 'w platform \<Rightarrow> 'w stream_callbacks \<Rightarrow> 'w flag_ptr \<Rightarrow> bool" where
  "quiet_host f P callbacks cancel \<longleftrightarrow>
     (\<forall>ep req. keeps f (h_send (pf_client P ep) req)) \<and>
     (\<forall>n w. f (sleep_for (pf_sys P) n w) = f w) \<and>
     (\<forall>a b w. f (snd (uniform_int (pf_sys P) a b w)) = f w) \<and>
     keeps f (load_flag cancel) \<and>
     (\<forall>s. keeps f (call_opt (cb_on_text callbacks) s)) \<and> (\<forall>s. keeps f (call_opt (cb_on_progress callbacks) s))"

abbreviation (input) world_part :: "('w \<Rightarrow> 'h) \<Rightarrow> 'v \<times> 'w \<Rightarrow> 'h" where
  "world_part f s \<equiv> f (snd s)"

lemma on_world_same: "on_world (same f) = same (world_part f)"
  by (simp add: fun_eq_iff on_world_def same_def)

lemma quiet_steady: "quiet_host f P callbacks cancel \<Longrightarrow> steady_host (same f) P callbacks cancel"
  by (simp add: quiet_host_def steady_host_def same_def)

lemma keeps_on_snd: "keeps f m \<Longrightarrow> keeps (world_part f) (on_snd m)"
  by (auto simp: within_def same_def)

lemma keeps_request_loop:
  assumes q: "quiet_host f P callbacks cancel" and parse: "\<And>ev. keeps (world_part f) (parse ev)"
  shows "keeps (world_part f) (execute_stream_from (pf_sys P) H
    (stream_request_body P (pf_client P ep) path headers request_json parse cancel)
    received error_body cancel (cb_on_progress callbacks) m attempt)"
proof -
  note parse = parse [folded on_world_same]
  have "within (same f) (h_send (pf_client P ep) req)" for req
    using q by (simp add: quiet_host_def)
  then have "within (on_world (same f)) (stream_request_body P (pf_client P ep) path headers request_json parse cancel)"
    unfolding stream_request_body_def
    by (intro world_same.turn.within_bindA world_same.turn.within_lift_out
        world_same.within_world_post [OF quiet_steady [OF q]] parse)
  from world_same.within_world_loop [OF quiet_steady [OF q] this] show ?thesis
    unfolding on_world_same .
qed

lemma keeps_parsers:
  assumes "quiet_host f P callbacks cancel"
  shows "keeps (world_part f) (parse_deepseek_stream_chunk J (cb_on_text callbacks) ev :: (turn_vars \<times> 'w, unit) act)"
    and "keeps (world_part f) (parse_openrouter_stream_chunk J (cb_on_text callbacks) ev :: (turn_vars \<times> 'w, unit) act)"
  using world_same.within_world_parsers(2,3) [OF quiet_steady [OF assms]] unfolding on_world_same .

section \<open>A turn and the history\<close>

text \<open>
  A successful turn ends with the block that appends the answer; before it the part \<open>f\<close> of the world is
  as it was.
\<close>

lemma stream_turn_ok:
  assumes q: "quiet_host f P callbacks cancel" and parse: "\<And>ev. keeps (world_part f) (parse ev)"
    and run: "stream_turn P (pf_client P ep) name path headers request_json parse callbacks cancel finish w = (Ret turn, w1)"
    and ok: "mt_ok turn"
  obtains v w0 v1 where "f w0 = f w" and "finish (v, w0) = (Ret turn, (v1, w1))"
proof -
  from run obtain v1 where
    "bindA (execute_stream_with_retry (pf_sys P) (pf_client P ep)
        (stream_request_body P (pf_client P ep) path headers request_json parse cancel)
        sv_received_event sv_error_body cancel (cb_on_progress callbacks) max_request_attempts)
      (read_answer P (pf_client P ep) name cancel finish) (new_turn_vars, w) = (Ret turn, (v1, w1))"
    by (auto simp: stream_turn_def with_local_def split: prod.splits)
  then obtain response s2 where loop: "execute_stream_with_retry (pf_sys P) (pf_client P ep)
        (stream_request_body P (pf_client P ep) path headers request_json parse cancel)
        sv_received_event sv_error_body cancel (cb_on_progress callbacks) max_request_attempts (new_turn_vars, w) =
      (Ret response, s2)"
    and ans: "read_answer P (pf_client P ep) name cancel finish response s2 = (Ret turn, (v1, w1))"
    by (rule bindA_RetE)
  have s2: "f (snd s2) = f w"
    using keepsD [OF keeps_request_loop [OF q parse] loop [unfolded execute_stream_with_retry_def]] by simp
  have load: "keeps (world_part f) (on_snd (load_flag cancel))"
    using q by (intro keeps_on_snd) (simp add: quiet_host_def)
  from ans ok obtain s3 where s3: "on_snd (load_flag cancel) s2 = (Ret False, s3)"
    and fin: "finish s3 = (Ret turn, (v1, w1))"
    by (auto simp: read_answer_def cancelled_turn_def failed_turn_def try_std_def
        split: if_splits http_result.splits prod.splits outcome.splits exn.splits elim!: bindA_RetE)
  have "f (snd s3) = f w" using keepsD [OF load s3] s2 by simp
  with fin that [of "snd s3" "fst s3" v1] show thesis by simp
qed

text \<open>What a push does to a history, and the laws of a turn that follow from it.\<close>

definition appends :: "('w \<Rightarrow> json list) \<Rightarrow> (json \<Rightarrow> ('w, unit) act) \<Rightarrow> bool" where
  "appends hist push \<longleftrightarrow> (\<forall>m w. fst (push m w) = Ret () \<and> hist (snd (push m w)) = hist w @ [m])"

lemma appendsD: "appends hist push \<Longrightarrow> push m w = (r, w1) \<Longrightarrow> r = Ret () \<and> hist w1 = hist w @ [m]"
  unfolding appends_def by (metis fst_conv snd_conv)

context json_laws
begin

lemma openai_call_id: "openai_call J call = Ret c \<Longrightarrow> cl_id c = call_id_of call"
  by (auto simp: openai_call_def bind_out_Ret call_id_of_def dest: value_string_Ret)

lemma openai_calls_ids: "map_out (openai_call J) calls = Ret tcs \<Longrightarrow> map cl_id tcs = map call_id_of calls"
  by (induction calls arbitrary: tcs) (auto simp: bind_out_Ret openai_call_id)

lemma push_responses_waits:
  assumes "appends hist push" and "forA rs (push_tool_response J push) w = (Ret (), w1)"
    and "waits_for (hist w) (map rp_call_id rs)"
  shows "waits_for (hist w1) []"
  using assms(2,3)
proof (induction rs arbitrary: w)
  case (Cons r rs)
  from Cons.prems(1) obtain c w2 where w2: "push (tool_message (rp_call_id r) c) w = (Ret (), w2)"
    "forA rs (push_tool_response J push) w2 = (Ret (), w1)"
    by (auto simp: push_tool_response_def [of J push r] elim!: bindA_RetE)
  have "hist w2 = hist w @ [tool_message (rp_call_id r) c]" using appendsD [OF assms(1) w2(1)] by simp
  with waits_for_answer [of "hist w" "rp_call_id r"] Cons.prems(2) have "waits_for (hist w2) (map rp_call_id rs)" by simp
  with Cons.IH w2(2) show ?case by blast
qed simp

end

lemma openai_finish_waits:
  assumes "json_laws (pf_json P)" and "appends hist push"
    and "openai_finish P push (v, w) = (Ret turn, (v1, w1))" and "waits_for (hist w) []"
  shows "waits_for (hist w1) (map cl_id (mt_tool_calls turn))"
proof -
  let ?m = "assistant_message (tv_text v) (tv_calls v)"
  obtain r w2 where push: "push ?m w = (r, w2)" by (cases "push ?m w")
  have hist: "r = Ret ()" "hist w2 = hist w @ [?m]" using appendsD [OF assms(2) push] by simp_all
  have "bindA (on_snd (push ?m)) (\<lambda>_. bindA (lift_out (map_out (openai_call (pf_json P)) (tv_calls v)))
      (\<lambda>tcs. ret (good_turn (tv_text v) tcs))) (v, w) = (Ret turn, (v1, w1))"
    using assms(3) by (simp add: openai_finish_def)
  then obtain tcs where tcs: "map_out (openai_call (pf_json P)) (tv_calls v) = Ret tcs"
    and turn: "turn = good_turn (tv_text v) tcs" and "w1 = w2"
    using push hist(1) by (auto elim!: bindA_RetE)
  have "hist w1 = hist w @ [?m]" using hist(2) \<open>w1 = w2\<close> by simp
  with waits_for_snoc [OF assms(4), of "assistant_message (tv_text v) (tv_calls v)"]
    json_laws.openai_calls_ids [OF assms(1) tcs] show ?thesis
    by (simp add: turn good_turn_def)
qed

lemma stream_turn_waits:
  assumes j: "json_laws (pf_json P)" and push: "appends hist push"
    and q: "quiet_host hist P callbacks cancel" and parse: "\<And>ev. keeps (world_part hist) (parse ev)"
    and run: "stream_turn P (pf_client P ep) name path headers request_json parse callbacks cancel
      (openai_finish P push) w = (Ret turn, w1)"
    and ok: "mt_ok turn" and waits: "waits_for (hist w) []"
  shows "waits_for (hist w1) (map cl_id (mt_tool_calls turn))"
proof -
  obtain v w0 v1 where "hist w0 = hist w" "openai_finish P push (v, w0) = (Ret turn, (v1, w1))"
    by (rule stream_turn_ok [OF q parse run ok])
  with openai_finish_waits [OF j push] waits show ?thesis by simp
qed

section \<open>The two providers\<close>

abbreviation ds_history :: "('w, deepseek_object) ref_to \<Rightarrow> 'w \<Rightarrow> json list" where
  "ds_history self w \<equiv> ds_messages (obj_get self w)"

abbreviation or_history :: "('w, openrouter_object) ref_to \<Rightarrow> 'w \<Rightarrow> json list" where
  "or_history self w \<equiv> or_messages (obj_get self w)"

lemma appends_deepseek: "object_ref self \<Longrightarrow> appends (ds_history self) (deepseek_push self)"
  and appends_openrouter: "object_ref op \<Longrightarrow> appends (or_history op) (openrouter_push op)"
  by (simp_all add: appends_def deepseek_push_def openrouter_push_def modify_obj_def object_ref.get_put)

lemma deepseek_execute_waits:
  assumes "json_laws (pf_json P)" and "object_ref self" and q: "quiet_host (ds_history self) P callbacks cancel"
    and run: "deepseek_execute_turn_request P self key model tools callbacks cancel w = (Ret turn, w1)"
    and "mt_ok turn" and "waits_for (ds_history self w) []"
  shows "waits_for (ds_history self w1) (map cl_id (mt_tool_calls turn))"
proof -
  have load: "keeps (ds_history self) (load_flag cancel)" using q by (simp add: quiet_host_def)
  from run assms(5) obtain ep w2 where l: "load_flag cancel w = (Ret False, w2)"
    and t: "stream_turn P (pf_client P ep) ''DeepSeek'' ''/chat/completions'' [bearer key]
        (build_deepseek_payload model (ds_history self w2) tools)
        (parse_deepseek_stream_chunk (pf_json P) (cb_on_text callbacks)) callbacks cancel
        (openai_finish P (deepseek_push self)) w2 = (Ret turn, w1)"
    by (auto simp: deepseek_execute_turn_request_def read_obj_def cancelled_turn_def failed_turn_def
        split: if_splits option.splits elim!: bindA_RetE)
  have "waits_for (ds_history self w2) []" using keepsD [OF load l] assms(6) by simp
  from stream_turn_waits [OF assms(1) appends_deepseek [OF assms(2)] q keeps_parsers(1) [OF q] t assms(5) this]
  show ?thesis .
qed

lemma openrouter_execute_waits:
  assumes "json_laws (pf_json P)" and "object_ref self" and q: "quiet_host (or_history self) P callbacks cancel"
    and run: "openrouter_execute_turn_request P self key model tools callbacks cancel w = (Ret turn, w1)"
    and "mt_ok turn" and "waits_for (or_history self w) []"
  shows "waits_for (or_history self w1) (map cl_id (mt_tool_calls turn))"
proof -
  have load: "keeps (or_history self) (load_flag cancel)" using q by (simp add: quiet_host_def)
  from run assms(5) obtain ep w2 path headers request where l: "load_flag cancel w = (Ret False, w2)"
    and t: "stream_turn P (pf_client P ep) ''OpenRouter'' path headers request
        (parse_openrouter_stream_chunk (pf_json P) (cb_on_text callbacks)) callbacks cancel
        (openai_finish P (openrouter_push self)) w2 = (Ret turn, w1)"
    by (auto simp: openrouter_execute_turn_request_def openrouter_model_capabilities_def read_obj_def
        cancelled_turn_def failed_turn_def split: if_splits option.splits elim!: bindA_RetE)
  have "waits_for (or_history self w2) []" using keepsD [OF load l] assms(6) by simp
  from stream_turn_waits [OF assms(1) appends_openrouter [OF assms(2)] q keeps_parsers(2) [OF q] t assms(5) this]
  show ?thesis .
qed

lemma bindA_unitE:
  assumes "bindA m k w = (Ret b, w2)"
  obtains w1 where "m w = (Ret (), w1)" "k () w1 = (Ret b, w2)"
  using assms by (rule bindA_RetE) simp

lemma push_waits:
  assumes "appends hist push" and "push m w = (Ret (), w1)" and "waits_for (hist w) []"
    and "\<not> has_text m ''role'' ''tool''" and "requested m = []"
  shows "waits_for (hist w1) []"
  using waits_for_plain [OF assms(3-5)] appendsD [OF assms(1,2)] by simp

lemma deepseek_tool_protocol:
  assumes "json_laws (pf_json P)" and "object_ref self" and "quiet_host (ds_history self) P callbacks cancel"
  shows "tool_protocol (ds_history self) (deepseek_provider P self) registry callbacks cancel"
proof
  note push = push_waits [OF appends_deepseek [OF assms(2)]]
  fix key model instruction said w w1 rs and turn :: model_turn
  assume ok: "mt_ok turn"
  {
    assume run: "p_start_turn (deepseek_provider P self) key model instruction said registry callbacks cancel w = (Ret turn, w1)"
      and w: "waits_for (ds_history self w) []"
    from run obtain w2 w3 where
      "(if ds_history self w = [] \<and> instruction \<noteq> [] then deepseek_push self (system_message instruction) else ret ()) w
        = (Ret (), w2)"
      "deepseek_push self (user_message said) w2 = (Ret (), w3)"
      and t: "deepseek_execute_turn_request P self key model registry callbacks cancel w3 = (Ret turn, w1)"
      by (auto simp: deepseek_provider_def deepseek_start_turn_def read_obj_def elim!: bindA_RetE)
    with w push have "waits_for (ds_history self w3) []" by (auto split: if_splits)
    with deepseek_execute_waits [OF assms t ok] show "waits_for (ds_history self w1) (map cl_id (mt_tool_calls turn))" .
  }
  {
    assume run: "p_continue_turn (deepseek_provider P self) key model instruction rs registry callbacks cancel w = (Ret turn, w1)"
      and w: "waits_for (ds_history self w) (map rp_call_id rs)"
    from run obtain w2 where "forA rs (push_tool_response (pf_json P) (deepseek_push self)) w = (Ret (), w2)"
      and t: "deepseek_execute_turn_request P self key model registry callbacks cancel w2 = (Ret turn, w1)"
      by (auto simp: deepseek_provider_def deepseek_continue_turn_def elim!: bindA_RetE)
    with json_laws.push_responses_waits [OF assms(1) appends_deepseek [OF assms(2)]] w
    have "waits_for (ds_history self w2) []" by blast
    with deepseek_execute_waits [OF assms t ok] show "waits_for (ds_history self w1) (map cl_id (mt_tool_calls turn))" .
  }
qed

lemma openrouter_tool_protocol:
  assumes "json_laws (pf_json P)" and "object_ref self" and "quiet_host (or_history self) P callbacks cancel"
  shows "tool_protocol (or_history self) (openrouter_provider P self) registry callbacks cancel"
proof
  note push = push_waits [OF appends_openrouter [OF assms(2)]]
  have load: "keeps (or_history self) (load_flag cancel)" using assms(3) by (simp add: quiet_host_def)
  fix key model instruction said w w1 rs and turn :: model_turn
  assume ok: "mt_ok turn"
  {
    assume run: "p_start_turn (openrouter_provider P self) key model instruction said registry callbacks cancel w = (Ret turn, w1)"
      and w: "waits_for (or_history self w) []"
    from run ok obtain w0 where l: "load_flag cancel w = (Ret False, w0)"
      and rest: "bindA (openrouter_model_capabilities self model) (\<lambda>caps. bindA (read_obj self or_messages) (\<lambda>messages.
          bindA (if messages = [] \<and> instruction \<noteq> [] \<and> mc_supports_system_instruction caps
                 then openrouter_push self (system_message instruction) else ret ()) (\<lambda>_.
          bindA (read_obj self or_messages) (\<lambda>messages'.
          bindA (openrouter_push self (user_message
            (if \<not> mc_supports_system_instruction caps \<and> instruction \<noteq> [] \<and> messages' = []
             then instruction @ [CHR 0x0A, CHR 0x0A] @ said else said))) (\<lambda>_.
          openrouter_execute_turn_request P self key model registry callbacks cancel))))) w0 = (Ret turn, w1)"
      unfolding openrouter_provider_def openrouter_start_turn_def provider.simps Let_def
      by (auto simp: cancelled_turn_def failed_turn_def elim!: bindA_RetE [of "load_flag cancel"] split: if_splits)
    from rest obtain b w2 w3 s where
      "(if b then openrouter_push self (system_message instruction) else ret ()) w0 = (Ret (), w2)"
      "openrouter_push self (user_message s) w2 = (Ret (), w3)"
      and t: "openrouter_execute_turn_request P self key model registry callbacks cancel w3 = (Ret turn, w1)"
      unfolding openrouter_model_capabilities_def read_obj_def bindA_readA
      by (elim bindA_unitE) (rule that)
    with w push keepsD [OF load l] have "waits_for (or_history self w3) []" by (auto split: if_splits)
    with openrouter_execute_waits [OF assms t ok] show "waits_for (or_history self w1) (map cl_id (mt_tool_calls turn))" .
  }
  {
    assume run: "p_continue_turn (openrouter_provider P self) key model instruction rs registry callbacks cancel w = (Ret turn, w1)"
      and w: "waits_for (or_history self w) (map rp_call_id rs)"
    from run ok obtain w0 w2 where l: "load_flag cancel w = (Ret False, w0)"
      and "forA rs (push_tool_response (pf_json P) (openrouter_push self)) w0 = (Ret (), w2)"
      and t: "openrouter_execute_turn_request P self key model registry callbacks cancel w2 = (Ret turn, w1)"
      by (auto simp: openrouter_provider_def openrouter_continue_turn_def cancelled_turn_def failed_turn_def
          split: if_splits elim!: bindA_RetE)
    with json_laws.push_responses_waits [OF assms(1) appends_openrouter [OF assms(2)]] w keepsD [OF load l]
    have "waits_for (or_history self w2) []" by simp
    with openrouter_execute_waits [OF assms t ok] show "waits_for (or_history self w1) (map cl_id (mt_tool_calls turn))" .
  }
qed

section \<open>The host next to the object\<close>

text \<open>
  When the object is a part of the world of its own, which the network, the clock and the callbacks
  cannot reach, both providers keep the protocol without further conditions.
\<close>

definition lift_http :: "'w http_lib \<Rightarrow> ('s \<times> 'w) http_lib" where
  "lift_http H = \<lparr>h_send = (\<lambda>req. on_snd (h_send H req)), h_aborted = h_aborted H,
     h_get = (\<lambda>path hs. on_snd (h_get H path hs)), h_has_header = h_has_header H,
     h_header_value = h_header_value H, h_error_text = h_error_text H, h_stop = on_snd (h_stop H)\<rparr>"

definition lift_sys :: "'w sys \<Rightarrow> ('s \<times> 'w) sys" where
  "lift_sys S = \<lparr>steady_now = (\<lambda>w. steady_now S (snd w)), sleep_for = (\<lambda>n w. (fst w, sleep_for S n (snd w))),
     uniform_int = (\<lambda>a b w. case uniform_int S a b (snd w) of (j, w1) \<Rightarrow> (j, (fst w, w1)))\<rparr>"

definition lift_platform :: "'w platform \<Rightarrow> ('s \<times> 'w) platform" where
  "lift_platform P = \<lparr>pf_json = pf_json P, pf_sys = lift_sys (pf_sys P),
     pf_client = (\<lambda>ep. lift_http (pf_client P ep)), pf_sort = pf_sort P\<rparr>"

definition lift_flag :: "'w flag_ptr \<Rightarrow> ('s \<times> 'w) flag_ptr" where
  "lift_flag c = map_option (\<lambda>l w. case l (snd w) of (b, w1) \<Rightarrow> (b, (fst w, w1))) c"

definition lift_callbacks :: "'w stream_callbacks \<Rightarrow> ('s \<times> 'w) stream_callbacks" where
  "lift_callbacks cb = \<lparr>cb_on_text = map_option (\<lambda>g s. on_snd (g s)) (cb_on_text cb),
     cb_on_progress = map_option (\<lambda>g s. on_snd (g s)) (cb_on_progress cb)\<rparr>"

lemma keeps_fst_on_snd: "(\<And>s w. f (s, w) = g s) \<Longrightarrow> keeps f (on_snd m)"
  by (auto simp: within_def same_def)

lemma quiet_lifted:
  assumes "\<And>s w. f (s, w) = g s"
  shows "quiet_host f (lift_platform P) (lift_callbacks cb) (lift_flag c)"
proof -
  note keep = keeps_fst_on_snd [of f g, OF assms]
  have f: "f (fst w, w1) = f w" for w w1 by (cases w) (simp add: assms)
  have flag: "keeps f (load_flag (lift_flag c))"
    by (cases c) (auto simp: within_def same_def load_flag_def lift_flag_def assms split: prod.splits)
  have cb: "keeps f (call_opt (map_option (\<lambda>g s. on_snd (g s)) h) s)" for h :: "(string \<Rightarrow> ('b, unit) act) option" and s
    by (cases h) (simp_all add: keep)
  show ?thesis
    unfolding quiet_host_def
    by (auto simp: lift_platform_def lift_http_def lift_sys_def lift_callbacks_def f assms keep flag cb split: prod.splits)
qed

definition with_json :: "json_lib \<Rightarrow> 'w platform \<Rightarrow> 'w platform" where
  "with_json J P = P\<lparr>pf_json := J\<rparr>"

interpretation deepseek_host: tool_protocol "ds_history first_obj"
    "deepseek_provider (lift_platform (with_json (json_ref tab pr) P)) first_obj" registry "lift_callbacks cb" "lift_flag c"
  for tab pr P registry cb c
  by (rule deepseek_tool_protocol, simp add: lift_platform_def with_json_def json_ref.json_laws_axioms,
      rule first_obj.object_ref_axioms, rule quiet_lifted [where g = ds_messages], simp add: first_obj_def)

interpretation openrouter_host: tool_protocol "or_history first_obj"
    "openrouter_provider (lift_platform (with_json (json_ref tab pr) P)) first_obj" registry "lift_callbacks cb" "lift_flag c"
  for tab pr P registry cb c
  by (rule openrouter_tool_protocol, simp add: lift_platform_def with_json_def json_ref.json_laws_axioms,
      rule first_obj.object_ref_axioms, rule quiet_lifted [where g = or_messages], simp add: first_obj_def)

section \<open>Properties\<close>

lemma short_trim:
  assumes "length (ds_history ds w) \<le> n" and "deepseek_trim_history P ds n w = (Ret (), w1)" and "object_ref ds"
  shows "ds_history ds w1 = ds_history ds w"
  using assms(1,2) object_ref.get_put [OF assms(3)]
  by (auto simp: deepseek_trim_history_def read_obj_def modify_obj_def erase_excess.simps [of _ n] elim!: bindA_RetE)

lemma short_trim_openrouter:
  assumes "length (or_history op w) \<le> n" and "openrouter_trim_history P op n w = (Ret (), w1)" and "object_ref op"
  shows "or_history op w1 = or_history op w"
  using assms(1,2) object_ref.get_put [OF assms(3)]
  by (auto simp: openrouter_trim_history_def read_obj_def modify_obj_def erase_excess.simps [of _ n] elim!: bindA_RetE)

text \<open>C3: the protocol of tool calls, across session, provider, parser and network. If the history of a
  DeepSeek or OpenRouter provider has every tool call answered, right after the message that asked for it,
  in order and by identifier, then it still does after every prompt of a session that succeeds: however
  many rounds of tool calls there were, the API never sees an open or a foreign answer. The history
  must fit the bound of the session, and the network and the host code must not write the object.\<close>

theorem prompt_keeps_tool_protocol:
  assumes "json_laws (pf_json P)"
    and "object_ref ds \<and> prov = deepseek_provider P ds \<and> hist = (\<lambda>w. ds_messages (obj_get ds w)) \<or>
      object_ref op \<and> prov = openrouter_provider P op \<and> hist = (\<lambda>w. or_messages (obj_get op w))"
    and "quiet_host hist P callbacks cancel"
    and "tools_within (same hist) (session_registry s) (se_confirm s) callbacks cancel"
    and "prompt_ready s prov" and "length (hist w) \<le> cf_max_history_entries (se_config s)"
    and "waits_for (hist w) []"
    and "prompt said callbacks cancel (s, w) = (Ret res, (s1, w1))" and "res_ok res"
  shows "waits_for (hist w1) []"
proof -
  have run: "world_prompt s prov said callbacks cancel w = (Ret res, w1)"
    using assms(8) by (auto simp: prompt_on_world [OF assms(5)] prod_eq_iff)
  have laws: "tool_protocol hist prov (session_registry s) callbacks cancel"
    using assms(2,3) deepseek_tool_protocol [OF assms(1)] openrouter_tool_protocol [OF assms(1)] by blast
  have trim: "hist w3 = hist w" if "hist w2 = hist w"
    "p_trim_history prov (cf_max_history_entries (se_config s)) w2 = (Ret (), w3)" for w2 w3
    using assms(2) that assms(6) short_trim [of ds w2] short_trim_openrouter [of op w2]
    by (auto simp: deepseek_provider_def openrouter_provider_def)
  show ?thesis
    by (rule tool_protocol.prompt_protocol [OF laws assms(4) refl trim assms(7) run assms(9)])
qed

text \<open>A session with a DeepSeek object whose server sends one text.\<close>

definition text_platform :: "'w platform" where
  "text_platform = demo_platform\<lparr>pf_json := json_ref
     [(''a'', delta_event [(''content'', JStr ''Hi'')]), (''b'', JNull)] (\<lambda>_. ''q'')\<rparr>"

definition text_session :: "'w provider \<Rightarrow> 'w session" where
  "text_session prov = (new_session default_config)\<lparr>se_provider := Some prov, se_api_key := ''k'', se_active_model := ''m''\<rparr>"

lemma text_prompt:
  "prompt ''hello'' demo_callbacks None (text_session (deepseek_provider text_platform first_obj), (new_deepseek ''e'', ())) =
    (Ret (api_success ''Hi''), (text_session (deepseek_provider text_platform first_obj),
      ((new_deepseek ''e'')\<lparr>ds_messages := [user_message ''hello'', assistant_message ''Hi'' []]\<rparr>, ())))"
proof -
  let ?P = "text_platform :: (deepseek_object \<times> unit) platform"
  let ?prov = "deepseek_provider ?P first_obj"
  let ?w = "((new_deepseek ''e'')\<lparr>ds_messages := [user_message ''hello'']\<rparr>, ())"
  have J: "json_laws (pf_json ?P)" by (simp add: text_platform_def json_ref.json_laws_axioms)
  have endp: "ds_client (obj_get first_obj ?w) = Some ''e''" by (simp add: first_obj_def new_deepseek_def)
  have dump: "j_dump (pf_json ?P) j = Ret ''q''" for j by (simp add: text_platform_def json_ref_def)
  have answer: "answers_with (pf_client ?P ''e'')
      (stream_request ''/chat/completions'' [bearer ''k''] ''q'') ?w [''a'', ''b''] ?w"
    by (simp add: text_platform_def demo_platform_def demo_answers stream_request_def)
  have content: "events_content (pf_json ?P) packet_content [''a'', ''b''] = Some ([''Hi''], [])"
    by (simp add: events_content_def event_content_def text_platform_def json_ref_def delta_event_def
        packet_content_def delta_content_def)
  have turn: "deepseek_execute_turn_request ?P first_obj ''k'' ''m'' [] demo_callbacks None ?w =
      (Ret (good_turn ''Hi'' []),
       ((new_deepseek ''e'')\<lparr>ds_messages := [user_message ''hello'', assistant_message ''Hi'' []]\<rparr>, ()))"
    using deepseek_turn_ok [OF J never_set_None demo_progress demo_returns endp dump answer content refl]
    by (simp add: deepseek_push_def modify_obj_def first_obj_def consume_def demo_callbacks_def)
  have ready: "prompt_ready (text_session ?prov) ?prov"
    by (simp add: prompt_ready_def text_session_def new_session_def)
  have start: "p_start_turn ?prov ''k'' ''m'' [] ''hello'' [] demo_callbacks None (new_deepseek ''e'', ()) =
      (Ret (good_turn ''Hi'' []),
       ((new_deepseek ''e'')\<lparr>ds_messages := [user_message ''hello'', assistant_message ''Hi'' []]\<rparr>, ()))"
    using turn by (simp add: deepseek_provider_def deepseek_start_turn_def deepseek_push_def modify_obj_def
        read_obj_def first_obj_def new_deepseek_def)
  have trim: "p_trim_history ?prov 40 (new_deepseek ''e'', ()) = (Ret (), (new_deepseek ''e'', ()))"
    by (simp add: deepseek_provider_def deepseek_trim_history_def read_obj_def modify_obj_def first_obj_def
        new_deepseek_def history_keep_from_def erase_excess_eq)
  show ?thesis
    unfolding prompt_on_world [OF ready]
    by (simp add: world_prompt_def run_prompt_def text_session_def new_session_def default_config_def
        trim start session_registry_def check_turn_def good_turn_def tool_loop.simps)
qed

theorem prompt_keeps_tool_protocol_witness:
  "waits_for [user_message ''hello'', assistant_message ''Hi'' []] []"
proof -
  let ?P = "text_platform :: (deepseek_object \<times> unit) platform"
  let ?prov = "deepseek_provider ?P first_obj"
  let ?hist = "\<lambda>w :: deepseek_object \<times> unit. ds_messages (obj_get first_obj w)"
  have J: "json_laws (pf_json ?P)" by (simp add: text_platform_def json_ref.json_laws_axioms)
  have quiet: "quiet_host ?hist ?P demo_callbacks None"
    by (auto simp: quiet_host_def text_platform_def demo_platform_def demo_http_def plain_http_def demo_callbacks_def
        within_def same_def split: option.splits)
  have tools: "tools_within (same ?hist) (session_registry (text_session ?prov)) (se_confirm (text_session ?prov))
      demo_callbacks None"
    by (simp add: tools_within_def demo_callbacks_def text_session_def new_session_def session_registry_def
        execute_tool_def find_tool_def)
  have ready: "prompt_ready (text_session ?prov) ?prov"
    by (simp add: prompt_ready_def text_session_def new_session_def)
  have short: "length (?hist (new_deepseek ''e'', ())) \<le> cf_max_history_entries (se_config (text_session ?prov))"
    and empty: "waits_for (?hist (new_deepseek ''e'', ())) []"
    by (simp_all add: first_obj_def new_deepseek_def)
  have "object_ref first_obj \<and> ?prov = deepseek_provider ?P first_obj \<and> ?hist = (\<lambda>w. ds_messages (obj_get first_obj w))"
    using first_obj.object_ref_axioms by blast
  from prompt_keeps_tool_protocol [OF J disjI1 [OF this] quiet tools ready short empty text_prompt]
  show ?thesis by (simp add: api_success_def first_obj_def)
qed

text \<open>Where a trim cuts: the entries that stay behind the system message, if there is one.\<close>

definition kept_tail :: "nat \<Rightarrow> json list \<Rightarrow> json list" where
  "kept_tail n h = drop (length h - (if is_system (hd h) then n - 1 else n)) h"

definition starts_with_answer :: "json list \<Rightarrow> bool" where
  "starts_with_answer ms \<longleftrightarrow> ms \<noteq> [] \<and> has_text (hd ms) ''role'' ''tool''"

lemma unanswered_tail:
  assumes "unanswered [] (h @ ms) = Some []"
  shows "unanswered [] ms = Some [] \<longleftrightarrow> \<not> starts_with_answer ms"
proof -
  from assms obtain ids where "unanswered ids ms = Some []"
    by (auto simp: unanswered_append split: Option.bind_splits)
  then show ?thesis by (cases ms; cases ids) (auto simp: starts_with_answer_def split: if_splits)
qed

lemma trimmed_protocol:
  assumes "waits_for h []" and "is_system (hd h) \<longrightarrow> requested (hd h) = []" and "n < length h"
  shows "waits_for (trimmed n h) [] \<longleftrightarrow> \<not> starts_with_answer (kept_tail n h)"
proof -
  let ?k = "length h - (if is_system (hd h) then n - 1 else n)"
  have "unanswered [] (take ?k h @ drop ?k h) = Some []" using assms(1) by (simp add: waits_for_def)
  from unanswered_tail [OF this] have tail: "unanswered [] (kept_tail n h) = Some [] \<longleftrightarrow> \<not> starts_with_answer (kept_tail n h)"
    by (simp add: kept_tail_def)
  have "\<not> has_text (hd h) ''role'' ''tool''" if "is_system (hd h)"
    using that by (simp add: is_system_def has_text_def)
  then show ?thesis
    using tail assms(2,3) by (auto simp: trimmed_def kept_tail_def waits_for_def)
qed

text \<open>C28: trimming and the protocol, for DeepSeek and OpenRouter. \<^verbatim>\<open>docs/providers.md\<close> promises that trimming
  preserves paired calls and responses together; the code counts entries, and this says what that comes
  to. A trim to at least one entry leaves a history that is short enough alone and otherwise keeps exactly
  its newest entries behind the system message, so that the bound is met; and a history in which every
  call is answered is still one afterwards exactly when it was short enough or the first entry that stays
  behind the system message is not the answer to a call: the promise is kept unless the cut falls inside
  an exchange, and then it is broken.\<close>

theorem trim_keeps_whole_exchanges:
  assumes "json_laws (pf_json P)"
    and "object_ref ds \<and> prov = deepseek_provider P ds \<and> hist = (\<lambda>w. ds_messages (obj_get ds w)) \<or>
      object_ref op \<and> prov = openrouter_provider P op \<and> hist = (\<lambda>w. or_messages (obj_get op w))"
    and "1 \<le> n" and "hist w \<noteq> [] \<Longrightarrow> has_role (hd (hist w))"
    and "waits_for (hist w) []" and "is_system (hd (hist w)) \<longrightarrow> requested (hd (hist w)) = []"
  shows "\<exists>w1. p_trim_history prov n w = (Ret (), w1) \<and> length (hist w1) = min n (length (hist w)) \<and>
    hist w1 = (if length (hist w) \<le> n then hist w
      else if is_system (hd (hist w)) then hd (hist w) # kept_tail n (hist w) else kept_tail n (hist w)) \<and>
    (waits_for (hist w1) [] \<longleftrightarrow> length (hist w) \<le> n \<or> \<not> starts_with_answer (kept_tail n (hist w)))"
proof -
  have "\<exists>w1. p_trim_history prov n w = (Ret (), w1) \<and> hist w1 = trimmed n (hist w)"
    using assms(2)
  proof
    assume D: "object_ref ds \<and> prov = deepseek_provider P ds \<and> hist = (\<lambda>w. ds_messages (obj_get ds w))"
    with assms(4) have "ds_messages (obj_get ds w) \<noteq> [] \<Longrightarrow> has_role (hd (ds_messages (obj_get ds w)))" by simp
    from deepseek_trim_eq [OF assms(1,3) this] show ?thesis
      using D object_ref.get_put [of ds] by (simp add: deepseek_provider_def modify_obj_def)
  next
    assume R: "object_ref op \<and> prov = openrouter_provider P op \<and> hist = (\<lambda>w. or_messages (obj_get op w))"
    with assms(4) have "or_messages (obj_get op w) \<noteq> [] \<Longrightarrow> has_role (hd (or_messages (obj_get op w)))" by simp
    from openrouter_trim_eq [OF assms(1,3) this] show ?thesis
      using R object_ref.get_put [of op] by (simp add: openrouter_provider_def modify_obj_def)
  qed
  then obtain w1 where w1: "p_trim_history prov n w = (Ret (), w1)" "hist w1 = trimmed n (hist w)" by blast
  have protocol: "waits_for (trimmed n (hist w)) [] \<longleftrightarrow> length (hist w) \<le> n \<or> \<not> starts_with_answer (kept_tail n (hist w))"
  proof (cases "length (hist w) \<le> n")
    case True
    then show ?thesis using assms(5) by (simp add: trimmed_def)
  next
    case False
    then show ?thesis using trimmed_protocol [OF assms(5,6), of n] by simp
  qed
  have "trimmed n (hist w) = (if length (hist w) \<le> n then hist w
      else if is_system (hd (hist w)) then hd (hist w) # kept_tail n (hist w) else kept_tail n (hist w))"
    by (simp add: trimmed_def kept_tail_def)
  with w1 protocol length_trimmed [OF assms(3)] show ?thesis by metis
qed

theorem trim_keeps_whole_exchanges_witness:
  "\<exists>w1. p_trim_history (deepseek_provider text_platform first_obj) 2
      ((new_deepseek ''e'')\<lparr>ds_messages := [system_message ''s'', user_message ''a'', user_message ''b'']\<rparr>, ()) = (Ret (), w1) \<and>
    ds_messages (fst w1) = [system_message ''s'', user_message ''b''] \<and> waits_for (ds_messages (fst w1)) []"
proof -
  let ?w = "((new_deepseek ''e'')\<lparr>ds_messages := [system_message ''s'', user_message ''a'', user_message ''b'']\<rparr>, ())"
  let ?hist = "\<lambda>w :: deepseek_object \<times> unit. ds_messages (obj_get first_obj w)"
  have J: "json_laws (pf_json (text_platform :: (deepseek_object \<times> unit) platform))"
    by (simp add: text_platform_def json_ref.json_laws_axioms)
  have hist: "?hist ?w = [system_message ''s'', user_message ''a'', user_message ''b'']" by (simp add: first_obj_def)
  have ok: "waits_for (?hist ?w) []" "has_role (hd (?hist ?w))" "is_system (hd (?hist ?w))"
    "requested (hd (?hist ?w)) = []"
    unfolding hist by (simp_all add: waits_for_def has_role_def is_system_def) (simp_all add: system_message_def)
  have get: "ds_messages (fst w) = ?hist w" for w by (simp add: first_obj_def)
  from trim_keeps_whole_exchanges [OF J disjI1, of first_obj "deepseek_provider text_platform first_obj" ?hist 2 ?w]
  show ?thesis
    unfolding get using ok first_obj.object_ref_axioms by (auto simp: hist kept_tail_def starts_with_answer_def)
qed

text \<open>Trimming and the protocol. Trimming keeps the newest entries, not whole exchanges: there are
  histories in which every call is answered that a trim leaves starting with an answer to a call that
  is gone, which the API refuses.\<close>

theorem trim_can_orphan_answers:
  "\<exists>h h'. waits_for h [] \<and>
     deepseek_trim_history demo_platform first_obj 2 (s\<lparr>ds_messages := h\<rparr>, w) = (Ret (), (s\<lparr>ds_messages := h'\<rparr>, w)) \<and>
     (\<forall>ids. \<not> waits_for h' ids)"
proof -
  let ?call = "JObj [(''id'', JStr ''c1'')]"
  let ?h = "[user_message ''a'', assistant_message [] [?call], tool_message ''c1'' ''r'', assistant_message ''b'' []]"
  have "waits_for ?h []"
    by (simp add: waits_for_def has_text_def requested_def call_id_of_def user_message_def assistant_message_def
        tool_message_def)
  moreover have "deepseek_trim_history demo_platform first_obj 2 (s\<lparr>ds_messages := ?h\<rparr>, w) =
      (Ret (), (s\<lparr>ds_messages := trimmed 2 ?h\<rparr>, w))"
    using deepseek_trim_eq [OF demo_laws, of 2 first_obj "(s\<lparr>ds_messages := ?h\<rparr>, w)"]
    by (simp add: has_role_def user_message_def first_obj_def modify_obj_def)
  moreover have "trimmed 2 ?h = [tool_message ''c1'' ''r'', assistant_message ''b'' []]"
    by (simp add: trimmed_def is_system_def user_message_def)
  then have "\<not> waits_for (trimmed 2 ?h) ids" for ids
    by (simp add: waits_for_def has_text_def tool_message_def)
  ultimately show ?thesis by blast
qed

end
