(* ===== verification/Gemini_Turn.thy ===== *)
theory Gemini_Turn
  imports Turns
begin

text \<open>
  A whole turn of Gemini. Its stream carries the parts of one message; the abstract reading of an
  event is the list of its parts, and of the parts their texts and function calls.
\<close>

section \<open>The parts of an answer\<close>

definition packet_parts :: "json \<Rightarrow> json list" where
  "packet_parts packet =
     (case field packet ''candidates'' of
        Some (JArr (c # cs)) \<Rightarrow>
          (case field c ''content'' of
             Some (JObj content) \<Rightarrow> (case map_of content ''parts'' of Some (JArr parts) \<Rightarrow> parts | _ \<Rightarrow> [])
           | _ \<Rightarrow> [])
      | _ \<Rightarrow> [])"

definition event_parts :: "json_lib \<Rightarrow> string \<Rightarrow> json list" where
  "event_parts J event =
     (case j_parse J event of
        Ret (JArr packets) \<Rightarrow> concat (map packet_parts packets)
      | Ret packet \<Rightarrow> packet_parts packet
      | _ \<Rightarrow> [])"

text \<open>A part whose text, if it has one, is a string; its text and its function call.\<close>

definition plain_part :: "json \<Rightarrow> bool" where
  "plain_part part \<longleftrightarrow> pred_option is_JStr (field part ''text'')"

definition part_texts :: "json list \<Rightarrow> string list" where
  "part_texts parts = map (\<lambda>j. the (as_string j)) (List.map_filter (\<lambda>part. field part ''text'') parts)"

definition part_calls :: "json list \<Rightarrow> json list" where
  "part_calls parts = List.map_filter (\<lambda>part. field part ''functionCall'') parts"

lemma parts_simps [simp]:
  "part_texts [] = []" "part_calls [] = []"
  "part_texts (ps @ qs) = part_texts ps @ part_texts qs" "part_calls (ps @ qs) = part_calls ps @ part_calls qs"
  by (simp_all add: part_texts_def part_calls_def List.map_filter_def)

text \<open>The variables after some parts, and an action that has exactly the effect of some parts.\<close>

definition collect_parts :: "json list \<Rightarrow> turn_vars \<Rightarrow> turn_vars" where
  "collect_parts parts v = v\<lparr>tv_text := tv_text v @ concat (part_texts parts), tv_calls := tv_calls v @ part_calls parts,
     tv_parts := tv_parts v @ parts\<rparr>"

definition takes ::
    "(string \<Rightarrow> ('w, unit) act) option \<Rightarrow> json list \<Rightarrow> (turn_vars \<times> 'w, unit) act \<Rightarrow> bool" where
  "takes on_text parts m \<longleftrightarrow> (\<forall>v w. m (v, w) = (Ret (), collect_parts parts v, consume on_text (part_texts parts) w))"

lemma collect_Nil [simp]: "collect_parts [] v = v"
  and collect_append: "collect_parts (ps @ qs) v = collect_parts qs (collect_parts ps v)"
  by (simp_all add: collect_parts_def)

lemma collect_received:
  "(collect_parts ps (v\<lparr>sv_received_event := True\<rparr>))
     \<lparr>sv_received_event := sv_received_event (collect_parts ps (v\<lparr>sv_received_event := True\<rparr>)) \<or> b\<rparr> =
   collect_parts ps (v\<lparr>sv_received_event := True\<rparr>)"
  by (simp add: collect_parts_def)

lemma takes_Nil [simp]: "takes on_text [] (ret ())"
  and takes_Nil_Pair [simp]: "takes on_text [] (Pair (Ret ()))"
  by (simp_all add: takes_def)

lemma takes_bind:
  assumes "returns (call_opt on_text)" and "takes on_text ps m" and "takes on_text qs k"
  shows "takes on_text (ps @ qs) (bindA m (\<lambda>_. k))"
  using assms(2,3) by (simp add: takes_def collect_append consume_append [OF assms(1)])

lemma takes_forA:
  assumes "returns (call_opt on_text)" and "\<And>x. x \<in> set xs \<Longrightarrow> takes on_text (g x) (f x)"
  shows "takes on_text (concat (map g xs)) (forA xs f)"
  using assms(2) by (induction xs) (simp_all add: takes_bind [OF assms(1)])

context json_laws
begin

lemma takes_part:
  assumes r: "returns (call_opt on_text)" and "plain_part part"
  shows "takes on_text [part] (gemini_part J on_text part)"
  unfolding takes_def
proof (intro allI)
  fix v :: turn_vars and w
  show "gemini_part J on_text part (v, w) = (Ret (), collect_parts [part] v, consume on_text (part_texts [part]) w)"
  proof (cases "field part ''text''")
    case None
    then show ?thesis
      by (auto simp: gemini_part_def contains_field at_found bindA_def collect_parts_def part_texts_def part_calls_def
          List.map_filter_def split: option.splits)
  next
    case (Some j)
    with assms(2) obtain s where s: "j = JStr s" by (auto simp: plain_part_def is_JStr_def)
    obtain w' where w': "call_opt on_text s w = (Ret (), w')"
      using returnsE [OF r, of s w] by metis
    then have "consume on_text [s] w = w'" by (simp add: consume_Cons [OF r])
    with w' Some s show ?thesis
      by (auto simp: gemini_part_def take_text_def contains_field at_found get_string_str bindA_def collect_parts_def
          part_texts_def part_calls_def List.map_filter_def split: option.splits)
  qed
qed

lemma takes_packet:
  assumes "returns (call_opt on_text)" and "list_all plain_part (packet_parts packet)"
  shows "takes on_text (packet_parts packet) (gemini_packet J on_text packet)"
proof -
  have index: "j_index J (JArr (x # xs)) 0 = Ret x" for x xs using index_array [of 0 "x # xs"] by simp
  have parts: "takes on_text parts (forA parts (gemini_part J on_text))" if "list_all plain_part parts" for parts
    using takes_forA [OF assms(1), of parts "\<lambda>part. [part]" "gemini_part J on_text"] takes_part [OF assms(1)] that
    by (simp add: list_all_iff)
  show ?thesis
    using assms(2)
    by (auto simp: packet_parts_def gemini_packet_def find_field index iter_array parts
        split: option.splits json.splits list.splits)
qed

lemma takes_event:
  assumes r: "returns (call_opt on_text)" and plain: "list_all plain_part (event_parts J event)"
  shows "takes on_text (event_parts J event) (parse_gemini_stream_chunk J on_text event)"
  using parse_std [of event]
proof (cases rule: ret_or_stdE)
  case (1 parsed)
  have "takes on_text (event_parts J event) (forA (packets_of J parsed) (gemini_packet J on_text))"
  proof (cases "is_JArr parsed")
    case True
    then obtain ps where ps: "parsed = JArr ps" by (cases parsed) auto
    with 1 have ev: "event_parts J event = concat (map packet_parts ps)" by (simp add: event_parts_def)
    have "takes on_text (concat (map packet_parts ps)) (forA ps (gemini_packet J on_text))"
      by (rule takes_forA [OF r], rule takes_packet [OF r]) (use plain ev in \<open>auto simp: list_all_iff\<close>)
    with ps ev show ?thesis by (simp add: packets_of_def iter_array)
  next
    case False
    with 1 have ev: "event_parts J event = concat (map packet_parts [parsed])"
      by (cases parsed) (simp_all add: event_parts_def)
    have "takes on_text (concat (map packet_parts [parsed])) (forA [parsed] (gemini_packet J on_text))"
      by (rule takes_forA [OF r], rule takes_packet [OF r]) (use plain ev in simp)
    with False ev show ?thesis by (simp add: packets_of_def iter_array)
  qed
  with 1 show ?thesis by (simp add: takes_def parse_gemini_stream_chunk_def try_std_def)
next
  case (2 m)
  then show ?thesis
    by (simp add: event_parts_def takes_def parse_gemini_stream_chunk_def try_std_def bindA_def)
qed

end

lemma forA_deliver_parts:
  assumes r: "returns (call_opt on_text)"
    and "\<And>ev. ev \<in> set events \<Longrightarrow> takes on_text (g ev) (parse ev)"
  shows "forA events (deliver parse) (v, w) =
    (Ret (), collect_parts (concat (map g events)) (v\<lparr>sv_received_event := sv_received_event v \<or> events \<noteq> []\<rparr>),
     consume on_text (part_texts (concat (map g events))) w)"
  using assms(2)
proof (induction events arbitrary: v w)
  case (Cons ev events)
  have "deliver parse ev (v, w) =
      (Ret (), collect_parts (g ev) (v\<lparr>sv_received_event := True\<rparr>), consume on_text (part_texts (g ev)) w)"
    using Cons.prems [of ev] by (simp add: deliver_def takes_def)
  then show ?case
    using Cons by (simp add: collect_append collect_received consume_append [OF r])
qed simp

section \<open>From the parts to the turn\<close>

text \<open>A function call with a name and, if any, an identifier that are strings.\<close>

definition good_call :: "json \<Rightarrow> bool" where
  "good_call fc \<longleftrightarrow> is_JObj fc \<and> pred_option is_JStr (field fc ''id'') \<and>
     (case field fc ''name'' of Some j \<Rightarrow> is_JStr j | None \<Rightarrow> False)"

definition gemini_call_of :: "json \<Rightarrow> tool_call" where
  "gemini_call_of fc =
     \<lparr>cl_id = (case field fc ''id'' of Some j \<Rightarrow> the (as_string j) | None \<Rightarrow> []),
      cl_name = the (as_string (the (field fc ''name''))),
      cl_arguments = (case field fc ''args'' of Some j \<Rightarrow> j | None \<Rightarrow> JObj [])\<rparr>"

context json_laws
begin

lemma gemini_call_ok: "good_call fc \<Longrightarrow> gemini_call J fc = Ret (gemini_call_of fc)"
  by (auto simp: good_call_def gemini_call_def gemini_call_of_def value_string_missing value_string_str
      value_json_obj at_found get_string_str is_JStr_def split: option.splits)

lemma gemini_calls_ok: "list_all good_call fcs \<Longrightarrow> map_out (gemini_call J) fcs = Ret (map gemini_call_of fcs)"
  by (induction fcs) (simp_all add: gemini_call_ok)

end

lemma gemini_turn_ok:
  assumes "json_laws (pf_json P)" and "never_set cancel"
    and "cb_on_progress callbacks = None" and "returns (call_opt (cb_on_text callbacks))"
    and "gm_client (obj_get self w) = Some endpoint"
    and "j_dump (pf_json P) (build_gemini_payload instruction (gm_contents (obj_get self w)) tools) = Ret body"
    and "answers_with (pf_client P endpoint)
      (stream_request (''/v1beta/models/'' @ model @ '':streamGenerateContent?alt=sse'') [gemini_key key] body) w events w1"
    and "parts = concat (map (event_parts (pf_json P)) events)" and "parts \<noteq> []"
    and "list_all plain_part parts" and "list_all good_call (part_calls parts)"
  shows "gemini_execute_turn_request P self key model instruction tools callbacks cancel w =
    (Ret (good_turn (concat (part_texts parts)) (map gemini_call_of (part_calls parts))),
     snd (gemini_push self (gemini_content ''model'' parts) (consume (cb_on_text callbacks) (part_texts parts) w1)))"
proof -
  let ?on_text = "cb_on_text callbacks" and ?J = "pf_json P"
  let ?parse = "parse_gemini_stream_chunk ?J ?on_text :: string \<Rightarrow> (turn_vars \<times> 'a, unit) act"
  let ?v = "collect_parts parts (new_turn_vars\<lparr>sv_received_event := events \<noteq> []\<rparr>)"
  let ?w2 = "snd (gemini_push self (gemini_content ''model'' parts) (consume ?on_text (part_texts parts) w1))"
  have "std_callback ?on_text"
    using assms(4) unfolding std_callback_def std_only_def returns_def by (metis fst_conv ret_or_std_simps(1))
  then have parse: "returns ?parse"
    unfolding returns_def using parsers_return_aux(1) [OF assms(1)] by (metis prod.collapse)
  have "takes ?on_text (event_parts ?J ev) (?parse ev)" if "ev \<in> set events" for ev
    by (rule json_laws.takes_event [OF assms(1,4)]) (use assms(8,10) that in \<open>auto simp: list_all_iff\<close>)
  then have events: "forA events (deliver ?parse) (new_turn_vars, w1) = (Ret (), (?v, consume ?on_text (part_texts parts) w1))"
    using forA_deliver_parts [OF assms(4), of events "event_parts ?J" ?parse new_turn_vars w1] assms(8)
    by (simp add: new_turn_vars_def)
  have "gemini_finish P self (?v, consume ?on_text (part_texts parts) w1) =
      (Ret (good_turn (concat (part_texts parts)) (map gemini_call_of (part_calls parts))), (?v, ?w2))"
    using assms(9,11) json_laws.gemini_calls_ok [OF assms(1)]
    by (simp add: gemini_finish_def collect_parts_def new_turn_vars_def gemini_push_def modify_obj_def)
  from stream_turn_collected [OF assms(2,3) parse assms(6,7) events, of "gemini_finish P self", OF this] show ?thesis
    by (simp add: gemini_execute_turn_request_def read_obj_def assms(5) bindA_load [OF assms(2)])
qed

section \<open>Properties\<close>

text \<open>C17: a streamed answer of Gemini. When the server answers the request of a turn with a success status
  and a stream of events, the turn carries the texts of all parts joined in order and one tool call per
  function call, in order; the consumer got the texts in order, and the history has grown by one message
  of the model that holds the parts exactly as they were sent.\<close>

theorem gemini_turn_streams:
  assumes "json_laws (pf_json P)" and "never_set cancel"
    and "cb_on_progress callbacks = None" and "returns (call_opt (cb_on_text callbacks))"
    and "gm_client (obj_get self w) = Some endpoint"
    and "j_dump (pf_json P) (build_gemini_payload instruction (gm_contents (obj_get self w)) tools) = Ret body"
    and "answers_with (pf_client P endpoint)
      (stream_request (''/v1beta/models/'' @ model @ '':streamGenerateContent?alt=sse'') [gemini_key key] body) w events w1"
    and "parts = concat (map (event_parts (pf_json P)) events)" and "parts \<noteq> []"
    and "list_all plain_part parts" and "list_all good_call (part_calls parts)"
  shows "gemini_execute_turn_request P self key model instruction tools callbacks cancel w =
    (Ret (good_turn (concat (part_texts parts)) (map gemini_call_of (part_calls parts))),
     snd (gemini_push self (gemini_content ''model'' parts) (consume (cb_on_text callbacks) (part_texts parts) w1)))"
  using assms by (rule gemini_turn_ok)

text \<open>A server that sends a text and then a call.\<close>

definition gemini_event :: "json \<Rightarrow> json" where
  "gemini_event part = JObj [(''candidates'', JArr [JObj [(''content'', JObj [(''parts'', JArr [part])])]])]"

definition gemini_events :: "(string \<times> json) list" where
  "gemini_events =
    [(''a'', gemini_event (text_part ''Hi'')),
     (''b'', gemini_event (JObj [(''functionCall'', JObj [(''name'', JStr ''f'')]), (''thoughtSignature'', JStr ''s'')]))]"

definition gemini_platform :: "'w platform" where
  "gemini_platform = demo_platform\<lparr>pf_json := json_ref gemini_events (\<lambda>_. ''q'')\<rparr>"

lemma gemini_demo_parts:
  "concat (map (event_parts (pf_json gemini_platform)) [''a'', ''b'']) =
    [text_part ''Hi'', JObj [(''functionCall'', JObj [(''name'', JStr ''f'')]), (''thoughtSignature'', JStr ''s'')]]"
  by (simp add: event_parts_def gemini_platform_def json_ref_def gemini_events_def gemini_event_def packet_parts_def)

theorem gemini_turn_streams_witness:
  "\<exists>w1. gemini_execute_turn_request gemini_platform first_obj ''key'' ''m'' [] [] demo_callbacks None (new_gemini ''e'', ()) =
     (Ret (good_turn ''Hi'' [\<lparr>cl_id = [], cl_name = ''f'', cl_arguments = JObj []\<rparr>]), w1) \<and>
   length (gm_contents (obj_get first_obj w1)) = 1"
proof -
  let ?w = "(new_gemini ''e'', ())"
  have laws: "json_laws (pf_json gemini_platform)"
    by (simp add: gemini_platform_def json_ref.json_laws_axioms)
  have endp: "gm_client (obj_get first_obj ?w) = Some ''e''"
    by (simp add: first_obj_def new_gemini_def)
  have dump: "j_dump (pf_json gemini_platform) j = Ret ''q''" for j
    by (simp add: gemini_platform_def json_ref_def)
  have answer: "answers_with (pf_client gemini_platform ''e'')
      (stream_request (''/v1beta/models/'' @ ''m'' @ '':streamGenerateContent?alt=sse'') [gemini_key ''key''] ''q'') ?w [''a'', ''b''] ?w"
    by (simp add: gemini_platform_def demo_platform_def demo_answers stream_request_def)
  let ?parts = "[text_part ''Hi'', JObj [(''functionCall'', JObj [(''name'', JStr ''f'')]), (''thoughtSignature'', JStr ''s'')]]"
  have parts: "part_texts ?parts = [''Hi'']" "part_calls ?parts = [JObj [(''name'', JStr ''f'')]]"
    by (simp_all add: part_texts_def part_calls_def List.map_filter_def text_part_def)
  have "list_all plain_part ?parts" by (simp add: plain_part_def text_part_def)
  moreover have "list_all good_call (part_calls ?parts)" unfolding parts(2) by (simp add: good_call_def)
  ultimately have ok: "list_all plain_part ?parts" "list_all good_call (part_calls ?parts)" .
  from gemini_turn_streams [OF laws never_set_None demo_progress demo_returns endp dump answer
      gemini_demo_parts [symmetric] _ ok]
  show ?thesis
    unfolding parts
    by (simp add: gemini_call_of_def gemini_push_def modify_obj_def first_obj_def new_gemini_def consume_def demo_callbacks_def)
qed

end
