(* ===== verification/Lifecycle.thy ===== *)
theory Lifecycle
  imports Protocol
begin

text \<open>
  The public class \<^verbatim>\<open>AgentSession\<close> (\<^verbatim>\<open>agent/agent_session.hpp\<close>) around the state of \<open>Session\<close>: its
  constructor, accessors, overloads of \<^verbatim>\<open>prompt\<close> and moves, and what any sequence of its methods does to
  the settings of a session. Then the moves of the provider classes, which leave an object without an
  HTTP client, and the constants of \<^verbatim>\<open>version.hpp\<close>.
\<close>

section \<open>The class around the state\<close>

text \<open>\<^verbatim>\<open>impl_\<close> is null once the session was moved from; every method goes through it.\<close>

type_synonym 'w agent_session = "'w session option"

definition through_impl :: "('w session \<times> 'w, 'a) act \<Rightarrow> ('w agent_session \<times> 'w, 'a) act" where
  "through_impl m = (\<lambda>(impl, w). case impl of
       None \<Rightarrow> (Undef, (None, w))
     | Some s \<Rightarrow> (case m (s, w) of (r, s1, w1) \<Rightarrow> (r, (Some s1, w1))))"

definition agent_session :: "agent_config \<Rightarrow> 'w agent_session" where
  "agent_session config = Some (new_session config)"

text \<open>The move constructor and the move assignment over the session objects of a program.\<close>

definition move_construct :: "'w agent_session \<Rightarrow> 'w agent_session \<times> 'w agent_session" where
  "move_construct other = (other, None)"

definition move_assign :: "nat \<Rightarrow> nat \<Rightarrow> (nat \<Rightarrow> 'w agent_session) \<Rightarrow> nat \<Rightarrow> 'w agent_session" where
  "move_assign target source objects = (let released = objects(source := None) in released(target := objects source))"

text \<open>The accessors read one member of the state.\<close>

definition session_instruction :: "('w session \<times> 'w, string) act" where
  "session_instruction = bindA get_session (\<lambda>s. ret (cf_system_instruction (se_config s)))"

definition session_tools :: "('w session \<times> 'w, 'w tool_registry option) act" where
  "session_tools = bindA get_session (\<lambda>s. ret (se_tools s))"

definition session_confirmation_handler :: "('w session \<times> 'w, 'w confirmation_fn) act" where
  "session_confirmation_handler = bindA get_session (\<lambda>s. ret (se_confirm s))"

definition session_available_models :: "('w session \<times> 'w, string list) act" where
  "session_available_models = bindA get_session (\<lambda>s. ret (se_available_models s))"

definition session_active_model :: "('w session \<times> 'w, string) act" where
  "session_active_model = bindA get_session (\<lambda>s. ret (se_active_model s))"

definition session_provider :: "('w session \<times> 'w, 'w provider option) act" where
  "session_provider = bindA get_session (\<lambda>s. ret (se_provider s))"

definition session_config :: "('w session \<times> 'w, agent_config) act" where
  "session_config = bindA get_session (\<lambda>s. ret (se_config s))"

text \<open>The overloads of \<^verbatim>\<open>prompt\<close> build the callbacks and have no flag unless they are given one.\<close>

definition no_callbacks :: "'w stream_callbacks" where
  "no_callbacks = \<lparr>cb_on_text = None, cb_on_progress = None\<rparr>"

definition prompt_text :: "string \<Rightarrow> (string \<Rightarrow> ('w, unit) act) option \<Rightarrow> ('w session \<times> 'w, api_result) act" where
  "prompt_text request on_text = prompt request (no_callbacks\<lparr>cb_on_text := on_text\<rparr>) None"

definition prompt_cancel :: "string \<Rightarrow> 'w flag_ptr \<Rightarrow> ('w session \<times> 'w, api_result) act" where
  "prompt_cancel request cancel = prompt request no_callbacks cancel"

definition prompt_text_progress ::
    "string \<Rightarrow> (string \<Rightarrow> ('w, unit) act) option \<Rightarrow> 'w flag_ptr \<Rightarrow> (string \<Rightarrow> ('w, unit) act) option \<Rightarrow>
     ('w session \<times> 'w, api_result) act" where
  "prompt_text_progress request on_text cancel on_progress =
     prompt request (no_callbacks\<lparr>cb_on_text := on_text, cb_on_progress := on_progress\<rparr>) cancel"

text \<open>A move carries the whole conversation: the target acts as the source did, the source is unusable.\<close>

lemma move_construct_carries:
  "through_impl m (fst (move_construct other), w) = through_impl m (other, w)"
  "through_impl m (snd (move_construct other), w) = (Undef, (None, w))"
  by (simp_all add: move_construct_def through_impl_def)

lemma move_assign_carries:
  "target \<noteq> source \<Longrightarrow> move_assign target source objects =
    (objects(target := fst (move_construct (objects source))))(source := snd (move_construct (objects source)))"
  "move_assign target target objects = objects"
  by (auto simp: move_assign_def move_construct_def fun_eq_iff Let_def)

section \<open>Sequences of method calls\<close>

text \<open>The methods with effects, as values. Whatever one returns or throws, the session goes on.\<close>

datatype 'w session_op =
    Set_instruction string
  | Set_tools "'w tool_registry option"
  | Set_confirm "'w confirmation_fn"
  | Configure "'w provider option" string "'w flag_ptr"
  | Configure_type provider_type string "'w flag_ptr"
  | Set_provider "'w provider option" string
  | Select_model string
  | Prompt string "'w stream_callbacks" "'w flag_ptr"
  | Cancel
  | Reset
  | Ask_preferred
  | Ask_capabilities
  | Ask_entries

definition discard :: "('w, 'a) act \<Rightarrow> ('w, unit) act" where
  "discard m = (\<lambda>w. (Ret (), snd (m w)))"

fun session_call ::
    "'w platform \<Rightarrow> 'w provider_slots \<Rightarrow> 'w session_op \<Rightarrow> ('w session \<times> 'w, unit) act" where
  "session_call P slots (Set_instruction i) = set_system_instruction i"
| "session_call P slots (Set_tools tools) = set_tools tools"
| "session_call P slots (Set_confirm confirm) = set_confirmation_handler confirm"
| "session_call P slots (Configure prov key cancel) = discard (configure_provider prov key cancel)"
| "session_call P slots (Configure_type ty key cancel) =
     discard (configure_provider_type (create_provider P slots) ty key cancel)"
| "session_call P slots (Set_provider prov key) = set_provider prov key"
| "session_call P slots (Select_model model) = select_model model"
| "session_call P slots (Prompt request callbacks cancel) = discard (prompt request callbacks cancel)"
| "session_call P slots Cancel = discard cancel_session_request"
| "session_call P slots Reset = discard reset_session"
| "session_call P slots Ask_preferred = discard preferred_model"
| "session_call P slots Ask_capabilities = discard session_capabilities"
| "session_call P slots Ask_entries = discard session_entries"

definition session_calls ::
    "'w platform \<Rightarrow> 'w provider_slots \<Rightarrow> 'w session_op list \<Rightarrow> ('w session \<times> 'w, unit) act" where
  "session_calls P slots ops = forA ops (session_call P slots)"


text \<open>The settings of a session, and what a method call promises about them.\<close>

record 'w settings =
  st_instruction :: string
  st_tools :: "'w tool_registry option"
  st_confirm :: "'w confirmation_fn"
  st_provider :: "'w provider option"
  st_api_key :: string

definition settings_of :: "'w session \<Rightarrow> 'w settings" where
  "settings_of s = \<lparr>st_instruction = cf_system_instruction (se_config s), st_tools = se_tools s,
     st_confirm = se_confirm s, st_provider = se_provider s, st_api_key = se_api_key s\<rparr>"

fun built_in :: "'w platform \<Rightarrow> 'w provider_slots \<Rightarrow> provider_type \<Rightarrow> 'w provider option" where
  "built_in P slots Gemini = Some (gemini_provider P (sl_gemini slots))"
| "built_in P slots Deepseek = Some (deepseek_provider P (sl_deepseek slots))"
| "built_in P slots Openrouter = Some (openrouter_provider P (sl_openrouter slots))"
| "built_in P slots No_provider = None"
| "built_in P slots Custom = None"

fun settle :: "'w platform \<Rightarrow> 'w provider_slots \<Rightarrow> 'w session_op \<Rightarrow> 'w settings \<Rightarrow> 'w settings" where
  "settle P slots (Set_instruction i) st = st\<lparr>st_instruction := i\<rparr>"
| "settle P slots (Set_tools tools) st = st\<lparr>st_tools := tools\<rparr>"
| "settle P slots (Set_confirm confirm) st = st\<lparr>st_confirm := confirm\<rparr>"
| "settle P slots (Configure prov key cancel) st = st\<lparr>st_provider := prov, st_api_key := key\<rparr>"
| "settle P slots (Configure_type ty key cancel) st =
     (case built_in P slots ty of None \<Rightarrow> st | Some p \<Rightarrow> st\<lparr>st_provider := Some p, st_api_key := key\<rparr>)"
| "settle P slots (Set_provider prov key) st = st\<lparr>st_provider := prov, st_api_key := key\<rparr>"
| "settle P slots _ st = st"

lemma with_provider_session [simp]: "fst (snd (with_provider f d (s, w))) = s"
  by (simp add: with_provider_def get_session_def split: option.split)

lemma discard_apply [simp]: "discard m w = (Ret (), snd (m w))"
  by (simp add: discard_def)

text \<open>What no call but a setter changes: a call that only consults the provider keeps the session.\<close>

definition consults :: "('w session \<times> 'w, 'a) act \<Rightarrow> bool" where
  "consults m \<longleftrightarrow> (\<forall>s w. se_active_provider s = None \<longrightarrow> fst (snd (m (s, w))) = s)"

lemma consults_simps [simp]:
  "consults (prompt request callbacks cancel)" "consults cancel_session_request" "consults reset_session"
  "consults preferred_model" "consults session_capabilities" "consults session_entries"
  by (auto simp: consults_def prompt_leaves_session cancel_session_request_def reset_session_def preferred_model_def
      session_capabilities_def session_entries_def bindA_def get_session_def)

lemma consultsD: "consults m \<Longrightarrow> se_active_provider s = None \<Longrightarrow> discard m (s, w) = (r, (s1, w1)) \<Longrightarrow>
    s1 = s \<and> se_active_provider s1 = None"
  unfolding consults_def discard_def by (metis fst_conv snd_conv)

lemma configure_provider_settings:
  assumes "snd (configure_provider prov key cancel (s, w)) = (s1, w1)"
  shows "settings_of s1 = (settings_of s)\<lparr>st_provider := prov, st_api_key := key\<rparr> \<and>
    se_config s1 = se_config s \<and> se_active_provider s1 = se_active_provider s"
  using assms
  by (auto simp: configure_provider_def settings_of_def update_session_def bindA_def
      split: option.splits prod.splits outcome.splits if_splits)

lemma create_provider_built_in:
  "\<exists>w1. create_provider P slots ty w = (Ret (built_in P slots ty), w1)"
  by (cases ty) (simp_all add: create_provider_def modify_obj_def bindA_def)

lemma session_call_settles:
  assumes "se_active_provider s = None" and "session_call P slots a (s, w) = (r, (s1, w1))"
  shows "settings_of s1 = settle P slots a (settings_of s) \<and> se_active_provider s1 = None \<and>
    cf_max_tool_rounds (se_config s1) = cf_max_tool_rounds (se_config s) \<and>
    cf_max_history_entries (se_config s1) = cf_max_history_entries (se_config s)"
proof (cases a)
  case (Configure prov key cancel)
  then show ?thesis using assms configure_provider_settings [of prov key cancel s w s1 w1] by simp
next
  case (Configure_type ty key cancel)
  obtain w2 where made: "create_provider P slots ty w = (Ret (built_in P slots ty), w2)"
    using create_provider_built_in [of P slots ty w] by blast
  have "snd (configure_provider_type (create_provider P slots) ty key cancel (s, w)) = (s1, w1)"
    using assms(2) Configure_type by simp
  then show ?thesis
    using assms(1) Configure_type made configure_provider_settings [of "built_in P slots ty" key cancel s w2 s1 w1]
    by (cases "built_in P slots ty") (auto simp: configure_provider_type_def bindA_def on_snd_def)
next
  case (Prompt request callbacks cancel)
  from consultsD [OF consults_simps(1) assms(1) assms(2) [unfolded Prompt session_call.simps]] show ?thesis
    by (simp add: Prompt assms(1))
next
  case Cancel
  from consultsD [OF consults_simps(2) assms(1) assms(2) [unfolded Cancel session_call.simps]] show ?thesis
    by (simp add: Cancel assms(1))
next
  case Reset
  from consultsD [OF consults_simps(3) assms(1) assms(2) [unfolded Reset session_call.simps]] show ?thesis
    by (simp add: Reset assms(1))
next
  case Ask_preferred
  from consultsD [OF consults_simps(4) assms(1) assms(2) [unfolded Ask_preferred session_call.simps]] show ?thesis
    by (simp add: Ask_preferred assms(1))
next
  case Ask_capabilities
  from consultsD [OF consults_simps(5) assms(1) assms(2) [unfolded Ask_capabilities session_call.simps]] show ?thesis
    by (simp add: Ask_capabilities assms(1))
next
  case Ask_entries
  from consultsD [OF consults_simps(6) assms(1) assms(2) [unfolded Ask_entries session_call.simps]] show ?thesis
    by (simp add: Ask_entries assms(1))
qed (use assms in \<open>auto simp: settings_of_def set_system_instruction_def set_tools_def set_confirmation_handler_def
    set_provider_def select_model_def\<close>)

lemma session_call_returns: "\<exists>s1 w1. session_call P slots a (s, w) = (Ret (), (s1, w1))"
  by (cases a) (auto simp: set_system_instruction_def set_tools_def set_confirmation_handler_def
      set_provider_def select_model_def prod_eq_iff)

lemma session_calls_settle:
  assumes "se_active_provider s = None" and "session_calls P slots ops (s, w) = (r, (s1, w1))"
  shows "settings_of s1 = fold (settle P slots) ops (settings_of s) \<and> se_active_provider s1 = None \<and>
    cf_max_tool_rounds (se_config s1) = cf_max_tool_rounds (se_config s) \<and>
    cf_max_history_entries (se_config s1) = cf_max_history_entries (se_config s)"
  using assms
proof (induction ops arbitrary: s w)
  case Nil
  then show ?case by (simp add: session_calls_def)
next
  case (Cons a ops)
  obtain s2 w2 where step: "session_call P slots a (s, w) = (Ret (), (s2, w2))"
    using session_call_returns [of P slots a s w] by blast
  then have "session_calls P slots ops (s2, w2) = (r, (s1, w1))"
    using Cons.prems(2) by (simp add: session_calls_def)
  with Cons.IH [of s2 w2] session_call_settles [OF Cons.prems(1) step] show ?case by simp
qed

text \<open>C20: settings. Whatever methods are called on a new session, in whatever order, with whatever
  providers, and however the calls end, the session keeps for every setting exactly the value of the
  last call that sets it: a prompt, a cancellation, a reset or a question never changes one, a refused
  provider type changes nothing, the two limits stay those of the constructor, and between calls no
  provider is marked as active.\<close>

theorem session_settings_last_write:
  "settings_of (fst (snd (session_calls P slots ops (new_session config, w)))) =
     fold (settle P slots) ops (settings_of (new_session config)) \<and>
   se_active_provider (fst (snd (session_calls P slots ops (new_session config, w)))) = None \<and>
   cf_max_tool_rounds (se_config (fst (snd (session_calls P slots ops (new_session config, w))))) =
     cf_max_tool_rounds config \<and>
   cf_max_history_entries (se_config (fst (snd (session_calls P slots ops (new_session config, w))))) =
     cf_max_history_entries config"
proof -
  obtain r s1 w1 where run: "session_calls P slots ops (new_session config, w) = (r, (s1, w1))"
    by (metis prod_cases3)
  have "se_active_provider (new_session config) = None" by (simp add: new_session_def)
  from session_calls_settle [OF this run] show ?thesis by (simp add: run) (simp add: new_session_def)
qed

section \<open>A configured session\<close>

lemma built_in_picks:
  assumes "built_in P slots ty = Some p"
  shows "\<exists>m. p_preferred_model p models w = (Ret m, w) \<and> (models \<noteq> [] \<longrightarrow> m \<in> set models) \<and> (models = [] \<longrightarrow> m = [])"
  using assms deepseek_picks gemini_picks openrouter_picks
  by (cases ty) (auto simp: deepseek_provider_def gemini_provider_def openrouter_provider_def)

text \<open>C25: configuration by type. After a session was configured for one of the known providers and the models
  could be listed, the session uses that provider with the given key, offers exactly the listed models
  and has one of them selected, so that it is ready for a prompt as soon as the key and the names are
  not empty. When the type is unknown, nothing changed; when the models could not be listed, none is
  selected and every prompt is refused before it reaches the provider.\<close>

theorem configure_type_selects_listed_model:
  assumes "configure_provider_type (create_provider P slots) ty key cancel (s, w) = (Ret r, (s1, w1))"
    and "se_active_provider s = None"
  shows "case built_in P slots ty of
      None \<Rightarrow> r = api_failure ''Select a provider first.'' \<and> s1 = s
    | Some p \<Rightarrow>
        if res_ok r then
          se_available_models s1 = res_models r \<and>
          (if res_models r = [] then se_active_model s1 = [] else se_active_model s1 \<in> set (res_models r)) \<and>
          (prompt_ready s1 p \<longleftrightarrow> key \<noteq> [] \<and> se_active_model s1 \<noteq> [])
        else \<exists>m. prompt said callbacks cancel' (s1, w3) = (Ret (api_failure m), (s1, w3))"
proof -
  obtain w2 where made: "create_provider P slots ty w = (Ret (built_in P slots ty), w2)"
    using create_provider_built_in [of P slots ty w] by blast
  show ?thesis
  proof (cases "built_in P slots ty")
    case None
    with assms made show ?thesis by (simp add: configure_provider_type_def bindA_def on_snd_def)
  next
    case (Some p)
    have run: "configure_provider (Some p) key cancel (s, w2) = (Ret r, (s1, w1))"
      using assms made Some by (simp add: configure_provider_type_def bindA_def on_snd_def)
    note effect = configure_provider_effect [OF run, of said callbacks cancel' w3]
    have idle: "se_active_provider s1 = None"
      using configure_provider_settings [of "Some p" key cancel s w2 s1 w1] run assms(2) by simp
    show ?thesis
    proof (cases "res_ok r")
      case True
      with effect obtain w4 where "p_preferred_model p (res_models r) w4 = (Ret (se_active_model s1), w1)" by auto
      with built_in_picks [OF Some, of "res_models r" w4] have
        "if res_models r = [] then se_active_model s1 = [] else se_active_model s1 \<in> set (res_models r)" by auto
      with True effect idle Some show ?thesis by (auto simp: prompt_ready_def)
    qed (use effect Some in auto)
  qed
qed

text \<open>A DeepSeek service that lists two models.\<close>

definition listing_http :: "'w http_lib" where
  "listing_http = plain_http []\<lparr>h_get := \<lambda>path headers w.
     (Ret (Response \<lparr>hr_status = 200, hr_headers = [], hr_body = ''m''\<rparr>), w)\<rparr>"

definition listing_platform :: "'w platform" where
  "listing_platform = demo_platform\<lparr>pf_client := \<lambda>_. listing_http,
     pf_json := json_ref [(''m'', JObj [(''data'',
       JArr [JObj [(''id'', JStr ''deepseek-reasoner'')], JObj [(''id'', JStr ''deepseek-chat'')]])])] (\<lambda>_. ''q'')\<rparr>"

definition listing_slots :: "(deepseek_object \<times> gemini_object \<times> openrouter_object \<times> unit) provider_slots" where
  "listing_slots = \<lparr>sl_gemini = second_obj, sl_deepseek = first_obj,
     sl_openrouter = \<lparr>obj_get = \<lambda>w. fst (snd (snd w)), obj_put = \<lambda>s w. (fst w, fst (snd w), s, ())\<rparr>\<rparr>"

definition listing_result :: api_result where
  "listing_result = \<lparr>res_ok = True, res_message = ''DeepSeek key verified.'',
     res_models = [''deepseek-chat'', ''deepseek-reasoner''], res_cancelled = False\<rparr>"

definition listed_session :: "(deepseek_object \<times> gemini_object \<times> openrouter_object \<times> unit) session" where
  "listed_session = (new_session default_config)\<lparr>se_provider := Some (deepseek_provider listing_platform first_obj),
     se_api_key := ''key'', se_active_model := ''deepseek-chat'',
     se_available_models := [''deepseek-chat'', ''deepseek-reasoner'']\<rparr>"

lemma listing_parsed: "parse_model_list (pf_json listing_platform) ''m'' False =
    Ret [''deepseek-chat'', ''deepseek-reasoner'']"
  by (simp add: parse_model_list_def listing_platform_def json_ref_def)

lemma listing_client: "pf_client listing_platform e = listing_http"
  by (simp add: listing_platform_def)

lemma listing_got: "get_models listing_platform listing_http path headers None w =
    (Ret (Response \<lparr>hr_status = 200, hr_headers = [], hr_body = ''m''\<rparr>), w)"
  by (simp add: get_models_def with_local_def execute_with_retry_def listing_http_def
      execute_with_retry_from.simps [of _ _ _ _ _ 0] should_retry_def load_flag_def on_snd_def bindA_def)

lemma listing_configures:
  "configure_provider_type (create_provider listing_platform listing_slots) Deepseek ''key'' None
     (new_session default_config, new_deepseek ''e'', new_gemini ''e'', new_openrouter default_openrouter_config, ()) =
   (Ret listing_result, (listed_session,
     new_deepseek deepseek_endpoint, new_gemini ''e'', new_openrouter default_openrouter_config, ()))"
proof -
  let ?rest = "(new_gemini ''e'', new_openrouter default_openrouter_config, ())"
  have list: "p_list_models (deepseek_provider listing_platform first_obj) ''key'' None (new_deepseek deepseek_endpoint, ?rest) =
      (Ret listing_result, (new_deepseek deepseek_endpoint, ?rest))"
    by (simp add: deepseek_provider_def deepseek_list_models_def read_obj_def first_obj_def bindA_def new_deepseek_def
        listing_client Let_def listing_got read_models_def listing_parsed lift_out_def try_std_def listing_result_def)
  have pick: "p_preferred_model (deepseek_provider listing_platform first_obj)
      [''deepseek-chat'', ''deepseek-reasoner''] w = (Ret ''deepseek-chat'', w)" for w
    by (simp add: deepseek_provider_def deepseek_preferred_model_def)
  have fresh: "modify_obj first_obj (\<lambda>_. new_deepseek deepseek_endpoint) (new_deepseek ''e'', ?rest) =
      (Ret (), (new_deepseek deepseek_endpoint, ?rest))"
    by (simp add: modify_obj_def first_obj_def)
  have ok: "res_ok listing_result" "res_models listing_result = [''deepseek-chat'', ''deepseek-reasoner'']"
    by (simp_all add: listing_result_def)
  show ?thesis
    by (simp add: configure_provider_type_def create_provider_def listing_slots_def configure_provider_def bindA_def
        on_snd_def update_session_def fresh list pick ok listed_session_def)
qed

theorem configure_type_selects_listed_model_witness:
  "prompt_ready listed_session (deepseek_provider listing_platform first_obj) \<and>
   se_active_model listed_session \<in> set (res_models listing_result)"
proof -
  have idle: "se_active_provider (new_session default_config) = None" by (simp add: new_session_def)
  show ?thesis
    using configure_type_selects_listed_model [OF listing_configures idle, of "[]" "demo_callbacks" None undefined]
    by (simp add: listing_slots_def listing_result_def) (simp add: listed_session_def)
qed

section \<open>Moves of the providers\<close>

text \<open>
  The defaulted moves of the three provider classes: the target gets every member, the source is left
  without a client and with a history without entries (a moved-from \<^verbatim>\<open>json\<close> is null, and the code treats
  null and the empty array alike when it counts, tests and appends). The texts left behind are
  unspecified: an argument.
\<close>

definition move_deepseek :: "string \<Rightarrow> deepseek_object \<Rightarrow> deepseek_object \<times> deepseek_object" where
  "move_deepseek left s = (s, \<lparr>ds_endpoint = left, ds_client = None, ds_messages = []\<rparr>)"

definition move_gemini :: "string \<Rightarrow> gemini_object \<Rightarrow> gemini_object \<times> gemini_object" where
  "move_gemini left s = (s, \<lparr>gm_endpoint = left, gm_client = None, gm_contents = []\<rparr>)"

definition move_openrouter ::
    "openrouter_config \<Rightarrow> (string \<times> model_capabilities) list \<Rightarrow> openrouter_object \<Rightarrow>
     openrouter_object \<times> openrouter_object" where
  "move_openrouter left caps s =
     (s, \<lparr>or_config = left, or_client = None, or_messages = [], or_model_capabilities = caps\<rparr>)"

definition openrouter_config_of :: "('w, openrouter_object) ref_to \<Rightarrow> ('w, openrouter_config) act" where
  "openrouter_config_of self = read_obj self or_config"

text \<open>
  Without a client nothing is sent: for any platform the moved-from object refuses the list of models and
  a turn with the same failure, and aborting its request does nothing.
\<close>

lemma moved_from_client [simp]:
  "ds_client (snd (move_deepseek left s)) = None"
  "gm_client (snd (move_gemini left t)) = None"
  "or_client (snd (move_openrouter config caps u)) = None"
  by (simp_all add: move_deepseek_def move_gemini_def move_openrouter_def)

lemma deepseek_without_client:
  assumes "object_ref self" and "ds_client (obj_get self w) = None"
  shows "deepseek_list_models P self key cancel w = (Ret (api_failure ''Client not initialized.''), w)"
    and "fst (deepseek_start_turn P self key model i u tools callbacks cancel w) =
      Ret (failed_turn ''Client not initialized.'' False)"
    and "deepseek_cancel_active_request P self w = (Ret (), w)"
  using assms object_ref.get_put [OF assms(1)]
  by (simp_all add: deepseek_list_models_def deepseek_start_turn_def deepseek_execute_turn_request_def
      deepseek_push_def deepseek_cancel_active_request_def read_obj_def modify_obj_def)

lemma gemini_without_client:
  assumes "object_ref self" and "gm_client (obj_get self w) = None"
  shows "gemini_list_models P self key cancel w = (Ret (api_failure ''Client not initialized.''), w)"
    and "fst (gemini_start_turn P self key model i u tools callbacks cancel w) =
      Ret (failed_turn ''Client not initialized.'' False)"
    and "gemini_cancel_active_request P self w = (Ret (), w)"
  using assms object_ref.get_put [OF assms(1)]
  by (simp_all add: gemini_list_models_def gemini_start_turn_def gemini_execute_turn_request_def
      gemini_push_def gemini_cancel_active_request_def read_obj_def modify_obj_def)

lemma openrouter_without_client:
  assumes "object_ref self" and "or_client (obj_get self w) = None" and "never_set cancel"
  shows "openrouter_list_models P self key cancel w = (Ret (api_failure ''Client not initialized.''), w)"
    and "fst (openrouter_start_turn P self key model i u tools callbacks cancel w) =
      Ret (failed_turn ''Client not initialized.'' False)"
    and "openrouter_cancel_active_request P self w = (Ret (), w)"
  using assms(2,3) object_ref.get_put [OF assms(1)]
  by (simp_all add: openrouter_list_models_def openrouter_start_turn_def openrouter_execute_turn_request_def
      openrouter_push_def openrouter_cancel_active_request_def openrouter_model_capabilities_def
      read_obj_def modify_obj_def bindA_load Let_def)

section \<open>The version of the library\<close>

definition version_major :: int where "version_major = 0"

definition version_minor :: int where "version_minor = 1"

definition version_patch :: int where "version_patch = 0"

definition version_string :: string where "version_string = ''0.1.0''"

definition version :: string where "version = version_string"

text \<open>The text and the numbers are separate literals of the header; they agree.\<close>

lemma version_is_its_numbers:
  "version = dec_int version_major @ ''.'' @ dec_int version_minor @ ''.'' @ dec_int version_patch"
  by code_simp

end
