(* ===== verification/Basic_Agent.thy ===== *)
theory Basic_Agent
  imports Lifecycle
begin

text \<open>
  The program \<^verbatim>\<open>examples/basic_agent/main.cpp\<close>: a terminal agent on top of the library. The console is an
  object of the world (lines to read, text written to the two output streams), the environment variables
  are a function, and the state of the demonstration provider is its counter. The arithmetic of
  \<^verbatim>\<open>double\<close>, which C++ leaves to the platform, and its conversions from and to JSON are an argument.
\<close>

section \<open>The console\<close>

record console =
  cs_in :: "string list"
  cs_out :: string
  cs_err :: string

definition nl :: string where
  "nl = [CHR 0x0A]"

definition quote :: string where
  "quote = [CHR 0x22]"

definition cout :: "('w, console) ref_to \<Rightarrow> string \<Rightarrow> ('w, unit) act" where
  "cout con said = modify_obj con (\<lambda>c. c\<lparr>cs_out := cs_out c @ said\<rparr>)"

definition cerr :: "('w, console) ref_to \<Rightarrow> string \<Rightarrow> ('w, unit) act" where
  "cerr con said = modify_obj con (\<lambda>c. c\<lparr>cs_err := cs_err c @ said\<rparr>)"

text \<open>\<^verbatim>\<open>std::getline(std::cin, reply)\<close>: \<open>None\<close> at the end of the input.\<close>

definition getline :: "('w, console) ref_to \<Rightarrow> ('w, string option) act" where
  "getline con =
     bindA (read_obj con cs_in) (\<lambda>ls.
       case ls of
         [] \<Rightarrow> ret None
       | l # rest \<Rightarrow> bindA (modify_obj con (\<lambda>c. c\<lparr>cs_in := rest\<rparr>)) (\<lambda>_. ret (Some l)))"

section \<open>The tools\<close>

record 'd double_lib =
  dl_value :: "json \<Rightarrow> string \<Rightarrow> 'd \<Rightarrow> 'd outcome"
  dl_zero :: 'd
  dl_add :: "'d \<Rightarrow> 'd \<Rightarrow> 'd"
  dl_sub :: "'d \<Rightarrow> 'd \<Rightarrow> 'd"
  dl_mul :: "'d \<Rightarrow> 'd \<Rightarrow> 'd"
  dl_div :: "'d \<Rightarrow> 'd \<Rightarrow> 'd"
  dl_eq :: "'d \<Rightarrow> 'd \<Rightarrow> bool"
  dl_json :: "'d \<Rightarrow> json"

definition typed_schema :: "string \<Rightarrow> string \<Rightarrow> json" where
  "typed_schema ty description = JObj [(''type'', JStr ty), (''description'', JStr description)]"

definition calculator_definition :: tool_definition where
  "calculator_definition = \<lparr>
     td_name = ''calculate'',
     td_description = ''Performs arithmetic operations on two numbers (op: add, sub, mul, div).'',
     td_parameter_schema = JObj [
       (''type'', JStr ''object''),
       (''properties'', JObj [
         (''a'', typed_schema ''number'' ''The first operand''),
         (''b'', typed_schema ''number'' ''The second operand''),
         (''op'', JObj [
           (''type'', JStr ''string''),
           (''enum'', JArr [JStr ''add'', JStr ''sub'', JStr ''mul'', JStr ''div'']),
           (''description'', JStr ''Arithmetic operation to perform'')])]),
       (''required'', JArr [JStr ''a'', JStr ''b'', JStr ''op''])]\<rparr>"

definition calculated :: "'d double_lib \<Rightarrow> 'd \<Rightarrow> tool_result outcome" where
  "calculated D result = Ret (tool_success (JObj [(''result'', dl_json D result)]))"

definition calculate :: "json_lib \<Rightarrow> 'd double_lib \<Rightarrow> json \<Rightarrow> tool_result outcome" where
  "calculate J D arguments =
     bind_out (dl_value D arguments ''a'' (dl_zero D)) (\<lambda>a.
     bind_out (dl_value D arguments ''b'' (dl_zero D)) (\<lambda>b.
     bind_out (j_value_string J arguments ''op'' ''add'') (\<lambda>op.
       if op = ''add'' then calculated D (dl_add D a b)
       else if op = ''sub'' then calculated D (dl_sub D a b)
       else if op = ''mul'' then calculated D (dl_mul D a b)
       else if op = ''div'' then
         if dl_eq D b (dl_zero D) then Ret (tool_failure ''Division by zero is undefined.'')
         else calculated D (dl_div D a b)
       else Ret (tool_failure (''Unsupported operation: '' @ op)))))"

definition calculator_tool :: "json_lib \<Rightarrow> 'd double_lib \<Rightarrow> 'w tool" where
  "calculator_tool J D = \<lparr>
     t_definition = calculator_definition,
     t_requires_confirmation = (\<lambda>_. False),
     t_execute = (\<lambda>arguments ctxt. lift_out (calculate J D arguments))\<rparr>"

definition system_action_definition :: tool_definition where
  "system_action_definition = \<lparr>
     td_name = ''execute_command'',
     td_description = ''Executes an operating system maintenance task.'',
     td_parameter_schema = JObj [
       (''type'', JStr ''object''),
       (''properties'', JObj [(''command'', typed_schema ''string'' ''The command to run'')]),
       (''required'', JArr [JStr ''command''])]\<rparr>"

definition command_request :: "json \<Rightarrow> string \<Rightarrow> confirmation_request" where
  "command_request arguments command =
     make_confirmation_request ''execute_command'' arguments (''Run command: '' @ command) True False
       (JObj [(''command'', JStr command)])"

definition command_completed :: "string \<Rightarrow> tool_result" where
  "command_completed command =
     tool_success (JObj [(''status'', JStr ''completed''), (''command'', JStr command)])"

definition command_rejected :: tool_result where
  "command_rejected = tool_failure ''Command execution was rejected by the operator.''"

definition system_action :: "json_lib \<Rightarrow> json \<Rightarrow> 'w tool_context \<Rightarrow> ('w, tool_result) act" where
  "system_action J arguments ctxt =
     bindA (lift_out (j_value_string J arguments ''command'' [])) (\<lambda>command.
       case tc_confirm ctxt of
         None \<Rightarrow> ret (command_completed command)
       | Some confirm \<Rightarrow>
           bindA (confirm (command_request arguments command)) (\<lambda>approved.
             ret (if approved then command_completed command else command_rejected)))"

definition system_action_tool :: "json_lib \<Rightarrow> 'w tool" where
  "system_action_tool J = \<lparr>
     t_definition = system_action_definition,
     t_requires_confirmation = (\<lambda>_. True),
     t_execute = system_action J\<rparr>"

section \<open>The demonstration provider\<close>

text \<open>The object holds only the counter \<^verbatim>\<open>turns_\<close>.\<close>

definition mock_answer :: "string \<Rightarrow> string" where
  "mock_answer user_prompt =
     ''I am a local mock agent running without network calls. You asked: '' @ quote @ user_prompt @ quote @
     ''. To query live models, set GEMINI_API_KEY, DEEPSEEK_API_KEY, or OPENROUTER_API_KEY.''"

definition mock_start_turn :: "string \<Rightarrow> 'w stream_callbacks \<Rightarrow> ('w, model_turn) act" where
  "mock_start_turn user_prompt callbacks =
     bindA (call_opt (cb_on_text callbacks) (mock_answer user_prompt)) (\<lambda>_.
     ret (good_turn (mock_answer user_prompt) []))"

definition mock_provider :: "('w, nat) ref_to \<Rightarrow> 'w provider" where
  "mock_provider self = \<lparr>
     p_type = Custom,
     p_name = ''MockDemo'',
     p_preferred_model = (\<lambda>models. ret (case models of [] \<Rightarrow> ''mock-demo-v1'' | m # _ \<Rightarrow> m)),
     p_model_capabilities = (\<lambda>_. ret default_capabilities),
     p_list_models = (\<lambda>_ _. ret \<lparr>res_ok = True, res_message = ''Mock models available'',
       res_models = [''mock-demo-v1''], res_cancelled = False\<rparr>),
     p_start_turn = (\<lambda>_ _ _ user_prompt _ callbacks _. mock_start_turn user_prompt callbacks),
     p_continue_turn = (\<lambda>_ _ _ _ _ _ _. ret (good_turn ''Mock tool turn completed.'' [])),
     p_trim_history = (\<lambda>_. ret ()),
     p_cancel_active_request = ret (),
     p_reset_session = modify_obj self (\<lambda>_. 0),
     p_session_entries = read_obj self (\<lambda>turns. turns)\<rparr>"

definition make_mock :: "('w, nat) ref_to \<Rightarrow> ('w, 'w provider option) act" where
  "make_mock self = bindA (modify_obj self (\<lambda>_. 0)) (\<lambda>_. ret (Some (mock_provider self)))"

section \<open>The main function\<close>

definition example_config :: agent_config where
  "example_config = \<lparr>
     cf_system_instruction =
       ''You are a helpful, precise engineering assistant. '' @ ''Always use the calculate tool for math.'',
     cf_max_tool_rounds = 6,
     cf_max_history_entries = 20\<rparr>"

definition example_registry :: "json_lib \<Rightarrow> 'd double_lib \<Rightarrow> 'w tool_registry" where
  "example_registry J D =
     snd (register_tool (Some (system_action_tool J)) (snd (register_tool (Some (calculator_tool J D)) [])))"

text \<open>The confirmation handler: anything but a line that starts with \<^verbatim>\<open>y\<close> or \<^verbatim>\<open>Y\<close> denies.\<close>

definition confirmation_question :: "confirmation_request \<Rightarrow> string" where
  "confirmation_question req =
     nl @ ''[CONFIRMATION REQUIRED]'' @ nl @
     ''  Tool:    '' @ cr_name req @ nl @
     ''  Summary: '' @ cr_summary req @ nl @
     ''  Approve? (y/N): ''"

definition operator_confirm :: "('w, console) ref_to \<Rightarrow> confirmation_request \<Rightarrow> ('w, bool) act" where
  "operator_confirm con req =
     bindA (cout con (confirmation_question req)) (\<lambda>_.
     bindA (getline con) (\<lambda>line.
       case line of
         None \<Rightarrow> ret False
       | Some reply \<Rightarrow> ret (reply \<noteq> [] \<and> (hd reply = CHR ''y'' \<or> hd reply = CHR ''Y''))))"

definition example_callbacks :: "('w, console) ref_to \<Rightarrow> 'w stream_callbacks" where
  "example_callbacks con = \<lparr>
     cb_on_text = Some (\<lambda>delta. cout con delta),
     cb_on_progress = Some (\<lambda>msg. cout con (nl @ ''['' @ msg @ '']'' @ nl))\<rparr>"

text \<open>\<^verbatim>\<open>key && *key\<close> for the value of an environment variable.\<close>

definition detected :: "(string \<Rightarrow> string option) \<Rightarrow> string \<Rightarrow> string option" where
  "detected env name = (case env name of Some key \<Rightarrow> if key \<noteq> [] then Some key else None | None \<Rightarrow> None)"

text \<open>One branch of the choice of a provider: \<open>False\<close> when \<^verbatim>\<open>main\<close> returns 1.\<close>

definition configure_detected ::
    "'w platform \<Rightarrow> 'w provider_slots \<Rightarrow> ('w, console) ref_to \<Rightarrow> provider_type \<Rightarrow> string \<Rightarrow> string \<Rightarrow> string \<Rightarrow>
     ('w session \<times> 'w, bool) act" where
  "configure_detected P slots con ty name label key =
     bindA (on_snd (cout con (''Detected '' @ name @ ''. Configuring '' @ label @ '' provider...'' @ nl))) (\<lambda>_.
     bindA (configure_provider_type (create_provider P slots) ty key None) (\<lambda>res.
       if res_ok res then ret True
       else
         bindA (on_snd (cerr con (label @ '' configuration failed: '' @ res_message res @ nl))) (\<lambda>_.
         ret False)))"

definition configure_example ::
    "'w platform \<Rightarrow> 'w provider_slots \<Rightarrow> ('w, nat) ref_to \<Rightarrow> ('w, console) ref_to \<Rightarrow> (string \<Rightarrow> string option) \<Rightarrow>
     ('w session \<times> 'w, bool) act" where
  "configure_example P slots mock con env =
     (case detected env ''GEMINI_API_KEY'' of
        Some key \<Rightarrow> configure_detected P slots con Gemini ''GEMINI_API_KEY'' ''Gemini'' key
      | None \<Rightarrow>
     (case detected env ''DEEPSEEK_API_KEY'' of
        Some key \<Rightarrow> configure_detected P slots con Deepseek ''DEEPSEEK_API_KEY'' ''DeepSeek'' key
      | None \<Rightarrow>
     (case detected env ''OPENROUTER_API_KEY'' of
        Some key \<Rightarrow> configure_detected P slots con Openrouter ''OPENROUTER_API_KEY'' ''OpenRouter'' key
      | None \<Rightarrow>
          bindA (on_snd (cout con
            (''No API keys found in environment. Using DemoMockProvider (offline mode).'' @ nl))) (\<lambda>_.
          bindA (on_snd (make_mock mock)) (\<lambda>prov.
          bindA (configure_provider prov ''dummy-mock-key'' None) (\<lambda>_.
          ret True))))))"

definition example_question :: string where
  "example_question = ''What is (128.5 * 4) + 17.25?''"

definition ask_example :: "('w, console) ref_to \<Rightarrow> ('w session \<times> 'w, int) act" where
  "ask_example con =
     bindA get_session (\<lambda>s.
     bindA (on_snd (cout con (''Active Provider: '' @ provider_type_name (active_provider_type s) @ nl @
       ''Active Model:    '' @ se_active_model s @ nl @ nl))) (\<lambda>_.
     bindA (on_snd (cout con (''User: '' @ example_question @ nl @ ''Agent: ''))) (\<lambda>_.
     bindA (prompt example_question (example_callbacks con) None) (\<lambda>result.
     bindA (on_snd (cout con (nl @ nl))) (\<lambda>_.
       if \<not> res_ok result then
         bindA (on_snd (cerr con (''Agent prompt failed: '' @ res_message result @ nl))) (\<lambda>_. ret 1)
       else
         bindA (on_snd (cout con ''Success! Completed turn with '')) (\<lambda>_.
         bindA session_entries (\<lambda>n.
         bindA (on_snd (cout con (dec n @ '' recorded turns.'' @ nl))) (\<lambda>_.
         ret 0))))))))"

definition basic_agent_main ::
    "'w platform \<Rightarrow> 'w provider_slots \<Rightarrow> 'd double_lib \<Rightarrow> ('w, nat) ref_to \<Rightarrow> ('w, console) ref_to \<Rightarrow>
     (string \<Rightarrow> string option) \<Rightarrow> ('w, int) act" where
  "basic_agent_main P slots D mock con env =
     bindA (cout con (''==========================================='' @ nl @
       ''       ARN Core Basic Agent Example        '' @ nl @
       ''==========================================='' @ nl @ nl)) (\<lambda>_.
     local_session example_config
       (let registry = example_registry (pf_json P) D in
        bindA (set_tools (Some registry)) (\<lambda>_.
        bindA (on_snd (cout con (''Registered '' @ dec (registry_size registry) @ '' tools in registry:'' @ nl))) (\<lambda>_.
        bindA (on_snd (forA (definitions registry) (\<lambda>def.
          cout con (''  - '' @ td_name def @ '': '' @ td_description def @ nl)))) (\<lambda>_.
        bindA (on_snd (cout con nl)) (\<lambda>_.
        bindA (set_confirmation_handler (Some (operator_confirm con))) (\<lambda>_.
        bindA (configure_example P slots mock con env) (\<lambda>go.
          if go then ask_example con else ret 1))))))))"

section \<open>The program without a key\<close>

definition example_lines :: "string list" where
  "example_lines = [
     ''==========================================='',
     ''       ARN Core Basic Agent Example        '',
     ''==========================================='',
     [],
     ''Registered 2 tools in registry:'',
     ''  - calculate: Performs arithmetic operations on two numbers (op: add, sub, mul, div).'',
     ''  - execute_command: Executes an operating system maintenance task.'',
     [],
     ''No API keys found in environment. Using DemoMockProvider (offline mode).'',
     ''Active Provider: Custom'',
     ''Active Model:    mock-demo-v1'',
     [],
     ''User: What is (128.5 * 4) + 17.25?'',
     ''Agent: I am a local mock agent running without network calls. You asked: '' @ quote @
       ''What is (128.5 * 4) + 17.25?'' @ quote @
       ''. To query live models, set GEMINI_API_KEY, DEEPSEEK_API_KEY, or OPENROUTER_API_KEY.'',
     [],
     ''Success! Completed turn with 0 recorded turns.'']"

lemma tool_order: "\<not> ''execute_command'' < (''calculate'' :: string)" "''calculate'' < (''execute_command'' :: string)"
  by code_simp+

lemma dec_0: "dec 0 = ''0''" and dec_2: "dec 2 = ''2''"
  by code_simp+

lemma example_registry_tools:
  "example_registry J D = [(''calculate'', calculator_tool J D), (''execute_command'', system_action_tool J)]"
  by (simp add: example_registry_def register_tool_def calculator_tool_def system_action_tool_def
      calculator_definition_def system_action_definition_def tool_order Let_def)

lemma example_registry_facts:
  "registry_size (example_registry J D) = 2"
  "definitions (example_registry J D) = [calculator_definition, system_action_definition]"
  by (simp_all add: example_registry_tools registry_size_def definitions_def calculator_tool_def system_action_tool_def)

lemma cout_apply [simp]:
  "cout con s w = (Ret (), obj_put con ((obj_get con w)\<lparr>cs_out := cs_out (obj_get con w) @ s\<rparr>) w)"
  by (simp add: cout_def modify_obj_def)

lemma mock_simps [simp]:
  "p_type (mock_provider self) = Custom"
  "p_preferred_model (mock_provider self) models = ret (case models of [] \<Rightarrow> ''mock-demo-v1'' | m # _ \<Rightarrow> m)"
  "p_list_models (mock_provider self) key cancel = ret \<lparr>res_ok = True, res_message = ''Mock models available'',
     res_models = [''mock-demo-v1''], res_cancelled = False\<rparr>"
  "p_start_turn (mock_provider self) key model i u tools callbacks cancel = mock_start_turn u callbacks"
  "p_trim_history (mock_provider self) n = ret ()"
  "p_session_entries (mock_provider self) = read_obj self (\<lambda>turns. turns)"
  by (simp_all add: mock_provider_def)

lemma bindA_on_snd: "bindA (on_snd m) k (s, w) = (case m w of (Ret a, w1) \<Rightarrow> k a (s, w1)
    | (Throw e, w1) \<Rightarrow> (Throw e, (s, w1)) | (Hang, w1) \<Rightarrow> (Hang, (s, w1)) | (Undef, w1) \<Rightarrow> (Undef, (s, w1)))"
  by (simp add: bindA_def on_snd_def split: prod.splits outcome.splits)

lemma make_mock_apply [simp]: "make_mock self w = (Ret (Some (mock_provider self)), obj_put self 0 w)"
  by (simp add: make_mock_def modify_obj_def)

text \<open>The session that runs the question once the demonstration provider is configured.\<close>

definition offline_session :: "json_lib \<Rightarrow> 'd double_lib \<Rightarrow> ('w, nat) ref_to \<Rightarrow> ('w, console) ref_to \<Rightarrow> 'w session" where
  "offline_session J D mock con = (new_session example_config)\<lparr>
     se_tools := Some (example_registry J D), se_confirm := Some (operator_confirm con),
     se_provider := Some (mock_provider mock), se_api_key := ''dummy-mock-key'',
     se_active_model := ''mock-demo-v1'', se_available_models := [''mock-demo-v1'']\<rparr>"

lemma configure_offline:
  assumes "detected env ''GEMINI_API_KEY'' = None" "detected env ''DEEPSEEK_API_KEY'' = None"
    "detected env ''OPENROUTER_API_KEY'' = None"
  shows "configure_example P slots mock con env (s, w) =
    (Ret True, (s\<lparr>se_provider := Some (mock_provider mock), se_api_key := ''dummy-mock-key'',
       se_active_model := ''mock-demo-v1'', se_available_models := [''mock-demo-v1'']\<rparr>,
     obj_put mock 0 (snd (cout con (''No API keys found in environment. Using DemoMockProvider (offline mode).'' @ nl) w))))"
  using assms
  by (simp add: configure_example_def configure_provider_def bindA_on_snd bindA_assoc)

lemma offline_prompt:
  "prompt request (example_callbacks con) None (offline_session J D mock con, w) =
    (Ret (api_success (mock_answer request)), (offline_session J D mock con, snd (cout con (mock_answer request) w)))"
proof -
  have "prompt_ready (offline_session J D mock con) (mock_provider mock)"
    by (simp add: prompt_ready_def offline_session_def new_session_def)
  from prompt_on_world [OF this] show ?thesis
    by (simp add: world_prompt_def run_prompt_def mock_start_turn_def check_turn_def bindA_assoc good_turn_def
        tool_loop.simps example_callbacks_def Let_def)
qed

lemma offline_session_fields:
  "se_provider (offline_session J D mock con) = Some (mock_provider mock)"
  "active_provider_type (offline_session J D mock con) = Custom"
  "se_active_model (offline_session J D mock con) = ''mock-demo-v1''"
  by (simp_all add: offline_session_def active_provider_type_def)

text \<open>What is written is written behind what was there.\<close>

lemma cout_cout:
  assumes "object_ref con"
  shows "snd (cout con b (obj_put con ((obj_get con w)\<lparr>cs_out := cs_out (obj_get con w) @ a\<rparr>) w)) =
    obj_put con ((obj_get con w)\<lparr>cs_out := cs_out (obj_get con w) @ a @ b\<rparr>) w"
  using object_ref.get_put [OF assms] object_ref.put_put [OF assms] by simp

lemma ask_offline:
  assumes "separate_refs mock con" and "obj_get mock w = 0"
  shows "ask_example con (offline_session J D mock con, w) =
    (Ret 0, (offline_session J D mock con, snd (cout con (concat (map (\<lambda>l. l @ nl) (drop 9 example_lines))) w)))"
proof -
  note refs = object_ref.get_put [OF separate_refs.axioms(2) [OF assms(1)]]
    object_ref.put_put [OF separate_refs.axioms(2) [OF assms(1)]]
    separate_refs.one_kept [OF assms(1)]
  show ?thesis
    by (simp add: ask_example_def bindA_on_snd offline_prompt session_entries_def with_provider_def
        offline_session_fields refs assms(2) read_obj_def api_success_def dec_0)
      (simp add: example_lines_def mock_answer_def example_question_def nl_def)
qed

lemma example_setup:
  "(new_session example_config)\<lparr>se_tools := Some (example_registry J D), se_confirm := Some (operator_confirm con),
     se_provider := Some (mock_provider mock), se_api_key := ''dummy-mock-key'',
     se_active_model := ''mock-demo-v1'', se_available_models := [''mock-demo-v1'']\<rparr> = offline_session J D mock con"
  by (simp add: offline_session_def)

text \<open>C39: the example program. Without an API key in the environment the program contacts no server, on any
  platform: it prints the transcript of \<open>example_lines\<close> (the two tools, the demonstration provider and
  its model, the question and the fixed answer, and a count of zero turns), reads nothing, writes no
  error and returns 0.\<close>

theorem offline_example_transcript:
  assumes "separate_refs mock con"
    and "detected env ''GEMINI_API_KEY'' = None" and "detected env ''DEEPSEEK_API_KEY'' = None"
    and "detected env ''OPENROUTER_API_KEY'' = None"
  shows "basic_agent_main P slots D mock con env w =
    (Ret 0, obj_put con ((obj_get con w)\<lparr>cs_out := cs_out (obj_get con w) @
       concat (map (\<lambda>l. l @ nl) example_lines)\<rparr>) (obj_put mock 0 w))"
proof -
  note refs = object_ref.get_put [OF separate_refs.axioms(2) [OF assms(1)]]
    object_ref.put_put [OF separate_refs.axioms(2) [OF assms(1)]]
    object_ref.get_put [OF separate_refs.axioms(1) [OF assms(1)]]
    separate_refs.one_kept [OF assms(1)] separate_refs.other_kept [OF assms(1)]
    separate_refs.put_commute [OF assms(1)]
  have "basic_agent_main P slots D mock con env w =
      (case ask_example con (offline_session (pf_json P) D mock con, snd (cout con
          (concat (map (\<lambda>l. l @ nl) (take 9 example_lines))) (obj_put mock 0 w)))
       of (r, s, w1) \<Rightarrow> (r, w1))"
    by (simp add: basic_agent_main_def local_session_def Let_def set_tools_def set_confirmation_handler_def bindA_assoc
        bindA_on_snd example_registry_facts refs configure_offline [OF assms(2-4)] example_setup dec_2)
      (simp add: example_lines_def nl_def calculator_definition_def system_action_definition_def)
  then show ?thesis
    by (simp add: ask_offline [OF assms(1)] refs)
      (metis append_take_drop_id concat_append map_append)
qed

lemma demo_refs:
  "obj_get first_obj (a, w) = a" "obj_put first_obj b (a, w) = (b, w)"
  "obj_get second_obj (a, c, u) = c" "obj_put second_obj d (a, c, u) = (a, d, u)"
  by (simp_all add: first_obj_def second_obj_def)

text \<open>Whole numbers in place of \<^verbatim>\<open>double\<close>.\<close>

definition int_doubles :: "int double_lib" where
  "int_doubles = \<lparr>dl_value = (\<lambda>j k d. ref_value j k (\<lambda>v. case v of JInt i \<Rightarrow> Some i | _ \<Rightarrow> None) d),
     dl_zero = 0, dl_add = (+), dl_sub = (-), dl_mul = (*), dl_div = (div), dl_eq = (=), dl_json = JInt\<rparr>"

theorem offline_example_transcript_witness:
  "\<forall>P slots D. basic_agent_main P slots (D :: int double_lib) first_obj second_obj (\<lambda>_. None)
      (0, \<lparr>cs_in = [], cs_out = [], cs_err = []\<rparr>, ()) =
    (Ret 0, (0, \<lparr>cs_in = [], cs_out = concat (map (\<lambda>l. l @ nl) example_lines), cs_err = []\<rparr>, ()))"
  by (intro allI)
    (simp add: offline_example_transcript [OF neighbours.separate_refs_axioms] detected_def demo_refs)

section \<open>Approval at the terminal\<close>

definition says_yes :: "console \<Rightarrow> bool" where
  "says_yes c \<longleftrightarrow> (case cs_in c of (a # l) # ls \<Rightarrow> a = CHR ''y'' \<or> a = CHR ''Y'' | _ \<Rightarrow> False)"

definition asked :: "confirmation_request \<Rightarrow> console \<Rightarrow> console" where
  "asked req c = c\<lparr>cs_in := tl (cs_in c), cs_out := cs_out c @ confirmation_question req\<rparr>"

lemma operator_confirm_asks:
  assumes "object_ref con"
  shows "operator_confirm con req w =
    (Ret (says_yes (obj_get con w)), obj_put con (asked req (obj_get con w)) w)"
proof -
  obtain ls out err where "obj_get con w = \<lparr>cs_in = ls, cs_out = out, cs_err = err\<rparr>"
    by (cases "obj_get con w")
  then show ?thesis
    by (simp add: operator_confirm_def getline_def read_obj_def modify_obj_def object_ref.get_put [OF assms]
        object_ref.put_put [OF assms] says_yes_def asked_def split: list.split)
qed

text \<open>C38: approval at the terminal. In the example's session the command tool shows the operator one
  question that names the command, before it reads one line; the command completes exactly when
  that line starts with y or Y. Any other line, an empty one, and the end of the input reject it, and the
  command appears in no result.\<close>

theorem command_needs_yes:
  assumes "object_ref con" and "json_laws J" and "field arguments ''command'' = Some (JStr command)"
  shows "execute_tool (example_registry J D) ''execute_command'' arguments
      (call_context (Some (operator_confirm con)) cancel) w =
    (Ret (if says_yes (obj_get con w) then command_completed command else command_rejected),
     obj_put con (asked (command_request arguments command) (obj_get con w)) w)"
  using json_laws.value_string_str [OF assms(2,3)]
  by (simp add: execute_tool_def find_tool_def example_registry_tools system_action_tool_def system_action_def
      call_context_def operator_confirm_asks [OF assms(1)])

theorem command_needs_yes_witness:
  "fst (execute_tool (example_registry (json_ref [] (\<lambda>_. [])) int_doubles) ''execute_command''
      (JObj [(''command'', JStr ''ls'')]) (call_context (Some (operator_confirm first_obj)) None)
      (\<lparr>cs_in = [''no'', ''yes''], cs_out = [], cs_err = []\<rparr>, ())) = Ret command_rejected"
  using command_needs_yes [OF first_obj.object_ref_axioms json_ref.json_laws_axioms,
      of "JObj [(''command'', JStr ''ls'')]" "''ls''" "[]" "\<lambda>_. []" int_doubles None "(\<lparr>cs_in = [''no'', ''yes''], cs_out = [], cs_err = []\<rparr>, ())"]
  by (simp add: says_yes_def demo_refs)

text \<open>The tool itself does not insist: without a handler it completes the command unasked.\<close>

lemma command_unasked_without_handler:
  assumes "json_laws J" and "field arguments ''command'' = Some (JStr command)"
  shows "t_execute (system_action_tool J) arguments (call_context None cancel) w = (Ret (command_completed command), w)"
  using json_laws.value_string_str [OF assms]
  by (simp add: system_action_tool_def system_action_def call_context_def)

section \<open>The calculator\<close>

text \<open>What is assumed of the conversion to \<^verbatim>\<open>double\<close>: a lookup with a default.\<close>

definition reads_doubles :: "'d double_lib \<Rightarrow> (json \<Rightarrow> 'd option) \<Rightarrow> bool" where
  "reads_doubles D conv \<longleftrightarrow> (\<forall>j k d. value_result j k conv d (dl_value D j k d))"

fun arithmetic :: "'d double_lib \<Rightarrow> string \<Rightarrow> 'd \<Rightarrow> 'd \<Rightarrow> string + 'd" where
  "arithmetic D op a b =
     (case map_of [(''add'', dl_add D), (''sub'', dl_sub D), (''mul'', dl_mul D), (''div'', dl_div D)] op of
        None \<Rightarrow> Inl (''Unsupported operation: '' @ op)
      | Some f \<Rightarrow> if op = ''div'' \<and> dl_eq D b (dl_zero D) then Inl ''Division by zero is undefined.'' else Inr (f a b))"

lemma calculator_computes:
  assumes "json_laws J" and "reads_doubles D conv"
    and "field arguments ''a'' = Some ja" "conv ja = Some a" and "field arguments ''b'' = Some jb" "conv jb = Some b"
    and "field arguments ''op'' = Some (JStr op)"
  shows "t_execute (calculator_tool J D) arguments ctxt w =
    (Ret (case arithmetic D op a b of Inl m \<Rightarrow> tool_failure m
       | Inr r \<Rightarrow> tool_success (JObj [(''result'', dl_json D r)])), w)"
proof -
  have obj: "is_JObj arguments" using assms(3) by (cases arguments) auto
  have "dl_value D arguments ''a'' (dl_zero D) = Ret a" "dl_value D arguments ''b'' (dl_zero D) = Ret b"
    using assms(2) [unfolded reads_doubles_def, rule_format, of arguments "''a''" "dl_zero D"]
      assms(2) [unfolded reads_doubles_def, rule_format, of arguments "''b''" "dl_zero D"] assms(3-6) obj
    by (simp_all add: value_result_def)
  moreover have "j_value_string J arguments ''op'' ''add'' = Ret op"
    using json_laws.value_string_str [OF assms(1,7)] .
  ultimately show ?thesis
    by (simp add: calculator_tool_def calculate_def calculated_def)
qed

end
