(* ===== verification/Requests.thy ===== *)
theory Requests
  imports Turns Turn_Steps Workflow
begin

text \<open>
  What a turn, an execution and a workflow cost at the network. A counter of the world that each HTTP
  request raises by at most one is followed from the retry loop through the providers, the session and
  the runtime to the orchestrator.
\<close>

section \<open>A streamed turn\<close>

text \<open>Only \<open>h_send\<close> raises the counter: not the clock, not the random number, not the callbacks.\<close>

definition counts_requests :: "('w \<Rightarrow> nat) \<Rightarrow> 'w platform \<Rightarrow> 'w stream_callbacks \<Rightarrow> bool" where
  "counts_requests f P callbacks \<longleftrightarrow>
     (\<forall>n w. f (sleep_for (pf_sys P) n w) \<le> f w) \<and> (\<forall>a b w. f (snd (uniform_int (pf_sys P) a b w)) \<le> f w) \<and>
     (\<forall>ep req. raises f 1 (h_send (pf_client P ep) req)) \<and>
     (\<forall>s. raises f 0 (call_opt (cb_on_text callbacks) s)) \<and> (\<forall>s. raises f 0 (call_opt (cb_on_progress callbacks) s))"

lemma counts_requests_steady:
  "counts_requests f P callbacks \<Longrightarrow> raises f 0 (load_flag cancel) \<Longrightarrow> steady_host (no_more f) P callbacks cancel"
  by (simp add: counts_requests_def steady_host_def raises_0 no_more_def)

abbreviation (input) of_world :: "('w \<Rightarrow> nat) \<Rightarrow> 'v \<times> 'w \<Rightarrow> nat" where
  "of_world f s \<equiv> f (snd s)"

lemma raises_world: "raises (of_world f) 0 m \<longleftrightarrow> within (on_world (no_more f)) m"
  by (simp add: raises_def within_def on_world_def no_more_def)

lemma raises_on_snd_world: "raises f n m \<Longrightarrow> raises (of_world f) n (on_snd m)"
  by (auto simp: raises_def on_snd_def split_def)

lemma raises_with_local: "raises (of_world f) n m \<Longrightarrow> raises f n (with_local v m)"
  by (auto simp: raises_def with_local_def split_def)

lemma quiet_waits_steady:
  fixes f :: "'w \<Rightarrow> nat"
  assumes "steady_host (no_more f) P callbacks cancel"
  shows "quiet_waits (\<lambda>s :: turn_vars \<times> 'w. f (snd s)) (pf_sys P) H cancel (cb_on_progress callbacks)"
proof -
  have host: "waits_within (on_world (no_more f) :: turn_vars \<times> 'w \<Rightarrow> turn_vars \<times> 'w \<Rightarrow> bool)
      (pf_sys P) cancel (cb_on_progress callbacks)"
    by (rule world_no_more.steady_host_turn(1) [OF assms])
  show ?thesis
    using host world_no_more.turn.within_wait_until [OF host] world_no_more.turn.within_retry_delay [OF host]
    by (simp add: quiet_waits_def raises_world waits_within_def)
qed

lemma raises_stream_request:
  fixes parse :: "string \<Rightarrow> (turn_vars \<times> 'w, unit) act"
  assumes host: "steady_host (no_more f) P callbacks cancel" and send: "\<And>req. raises f 1 (h_send H req)"
    and parse: "\<And>ev. within (on_world (no_more f)) (parse ev)"
  shows "raises (of_world f) 1 (stream_request_body P H path headers request_json parse cancel)"
proof -
  have flag: "within (no_more f) (load_flag cancel)" using host by (simp add: steady_host_def)
  have deliver: "within (on_world (no_more f)) (deliver parse ev)" for ev
    unfolding deliver_def by (intro world_no_more.turn.within_bindA world_no_more.within_write parse)
  have body: "raises (of_world f) 0 (run_transfer cancel parse status decoder es)" for status decoder es
    unfolding raises_world
    by (intro world_no_more.turn.within_run_transfer world_no_more.within_on_snd flag deliver world_no_more.within_write)
  have finish: "raises (of_world f) 0 (with_decoder (sse_finish (deliver parse)) decoder)" for decoder
    unfolding raises_world by (rule world_no_more.turn.within_decoder(2) [OF deliver])
  have cleared: "raises (of_world f) 0 (modifyA (\<lambda>(v, w). (v\<lparr>sv_error_body := []\<rparr>, w)) :: (turn_vars \<times> 'w, unit) act)"
    unfolding raises_world by (rule world_no_more.within_write)
  show ?thesis
    unfolding stream_request_body_def stream_post_def
    by (intro raises_bind_quiet [OF raises_lift_out] raises_bind_quiet [OF cleared]
        raises_bind_then_quiet [OF raises_on_snd_world [OF send]])
      (auto simp: Let_def intro!: raises_bind_quiet body finish split: http_result.splits)
qed

lemma raises_stream_turn:
  fixes parse :: "string \<Rightarrow> (turn_vars \<times> 'w, unit) act"
  assumes host: "steady_host (no_more f) P callbacks cancel" and send: "\<And>req. raises f 1 (h_send H req)"
    and parse: "\<And>ev. within (on_world (no_more f)) (parse ev)"
    and finish: "raises (of_world f) 0 finish"
  shows "raises f 3 (stream_turn P H name path headers request_json parse callbacks cancel finish)"
proof -
  have "raises (of_world f) 3 (execute_stream_with_retry (pf_sys P) H
      (stream_request_body P H path headers request_json parse cancel)
      sv_received_event sv_error_body cancel (cb_on_progress callbacks) max_request_attempts)"
    using raises_stream_from [OF raises_stream_request [OF host send parse] quiet_waits_steady [OF host],
        where attempt = 0 and max_attempts = 3]
    unfolding execute_stream_with_retry_def max_request_attempts_def attempts_left_def by simp
  moreover have "raises (of_world f) 0 (read_answer P H name cancel finish response)" for response
  proof -
    have load: "raises (of_world f) 0 (on_snd (load_flag cancel))"
      using host by (intro raises_on_snd_world) (simp add: steady_host_def raises_0)
    have err: "raises (of_world f) 0 (on_snd (parse_error J st nm b))" for J st nm b
      unfolding parse_error_def raises_world
      by (intro world_no_more.within_on_snd no_more.within_try_std no_more.within_bindA no_more.within_lift_out
          no_more.within_ret)
    have "raises (of_world f) 0 (try_std finish (\<lambda>what. ret (t what)))" for t
      using finish unfolding raises_world
      by (intro world_no_more.turn.within_try_std world_no_more.turn.within_ret)
    then show ?thesis
      unfolding read_answer_def
      by (auto intro!: raises_bind_quiet load err raises_readA split: http_result.splits)
  qed
  ultimately show ?thesis
    unfolding stream_turn_def by (intro raises_with_local raises_bind_then_quiet)
qed

section \<open>The three providers\<close>

text \<open>The object is a part of the world that the counter does not look at.\<close>

definition counter_ignores :: "('w \<Rightarrow> nat) \<Rightarrow> ('w, 's) ref_to \<Rightarrow> bool" where
  "counter_ignores f self \<longleftrightarrow> (\<forall>s w. f (obj_put self s w) = f w)"

lemma raises_objects [simp]:
  "counter_ignores f self \<Longrightarrow> raises f 0 (modify_obj self g)" "raises f 0 (read_obj self h)"
  by (simp_all add: counter_ignores_def raises_def modify_obj_def read_obj_def)

lemma raises_openai_finish:
  assumes "\<And>m. raises f 0 (push m)"
  shows "raises (of_world f) 0 (openai_finish P push)"
  unfolding openai_finish_def
  by (auto intro!: raises_bind_quiet raises_readA raises_on_snd_world assms)

lemma raises_gemini_finish:
  assumes "counter_ignores f self"
  shows "raises (of_world f) 0 (gemini_finish P self)"
  unfolding gemini_finish_def gemini_push_def
  by (auto simp: assms intro!: raises_bind_quiet raises_readA raises_on_snd_world)

lemma raises_push_responses:
  "(\<And>m. raises f 0 (push m)) \<Longrightarrow> raises f 0 (forA rs (push_tool_response J push))"
  unfolding raises_0 push_tool_response_def
  by (intro no_more.within_forA no_more.within_bindA no_more.within_lift_out) blast

lemma raises_trim:
  "counter_ignores f self \<Longrightarrow> raises f 0 (deepseek_trim_history P self n)"
  "counter_ignores f op \<Longrightarrow> raises f 0 (openrouter_trim_history P op n)"
  "counter_ignores f gm \<Longrightarrow> raises f 0 (gemini_trim_history gm n)"
  unfolding deepseek_trim_history_def openrouter_trim_history_def gemini_trim_history_def
  by (auto intro!: raises_bind_quiet)

lemma counted_turn:
  fixes parse :: "string \<Rightarrow> (turn_vars \<times> 'w, unit) act"
  assumes "counts_requests f P callbacks" and "raises f 0 (load_flag cancel)"
    and "\<And>ev. within (on_world (no_more f)) (parse ev)" and "raises (of_world f) 0 finish"
  shows "raises f 3 (stream_turn P (pf_client P ep) name path headers request_json parse callbacks cancel finish)"
  by (rule raises_stream_turn [OF counts_requests_steady [OF assms(1,2)] _ assms(3,4)])
    (use assms(1) in \<open>simp add: counts_requests_def\<close>)

lemma deepseek_turn_cost:
  assumes host: "counts_requests f P callbacks" and self: "counter_ignores f self"
  shows "turn_cost f 3 callbacks (deepseek_provider P self)"
proof -
  have push: "raises f 0 (deepseek_push self m)" for m by (simp add: deepseek_push_def self)
  have "raises f 3 (deepseek_execute_turn_request P self k m reg callbacks c)" if c: "raises f 0 (load_flag c)" for k m reg c
    unfolding deepseek_execute_turn_request_def
    by (auto simp del: ret_apply split: option.split intro!: raises_bind_quiet [OF raises_objects(2)] raises_bind_quiet [OF c]
        counted_turn [OF host c] world_no_more.within_world_parsers [OF counts_requests_steady [OF host c]]
        raises_openai_finish push)
  then show ?thesis
    unfolding turn_cost_def deepseek_provider_def deepseek_start_turn_def deepseek_continue_turn_def
      deepseek_reset_session_def
    by (auto simp: self raises_trim simp del: ret_apply intro!: raises_bind_quiet push raises_push_responses)
qed

lemma openrouter_turn_cost:
  assumes host: "counts_requests f P callbacks" and self: "counter_ignores f self"
  shows "turn_cost f 3 callbacks (openrouter_provider P self)"
proof -
  have push: "raises f 0 (openrouter_push self m)" for m by (simp add: openrouter_push_def self)
  have caps: "raises f 0 (openrouter_model_capabilities self m)" for m by (simp add: openrouter_model_capabilities_def)
  have turn: "raises f 3 (openrouter_execute_turn_request P self k m reg callbacks c)" if c: "raises f 0 (load_flag c)" for k m reg c
    unfolding openrouter_execute_turn_request_def
    by (auto simp del: ret_apply split: option.split intro!: raises_bind_quiet [OF raises_objects(2)] raises_bind_quiet [OF c]
        raises_bind_quiet [OF caps] counted_turn [OF host c]
        world_no_more.within_world_parsers [OF counts_requests_steady [OF host c]] raises_openai_finish push)
  have responses: "raises f 0 (forA rs (push_tool_response J (openrouter_push self)))" for rs J
    by (rule raises_push_responses [OF push])
  show ?thesis
    unfolding turn_cost_def openrouter_provider_def openrouter_start_turn_def openrouter_continue_turn_def
      openrouter_reset_session_def
    by (auto simp: self raises_trim caps Let_def simp del: ret_apply intro!: raises_bind_quiet push responses turn)
qed

lemma gemini_turn_cost:
  assumes host: "counts_requests f P callbacks" and self: "counter_ignores f self"
  shows "turn_cost f 3 callbacks (gemini_provider P self)"
proof -
  have push: "raises f 0 (gemini_push self m)" for m by (simp add: gemini_push_def self)
  have "raises f 3 (gemini_execute_turn_request P self k m i reg callbacks c)" if c: "raises f 0 (load_flag c)" for k m i reg c
    unfolding gemini_execute_turn_request_def
    by (auto simp del: ret_apply split: option.split intro!: raises_bind_quiet [OF raises_objects(2)] raises_bind_quiet [OF c]
        counted_turn [OF host c] world_no_more.within_world_parsers [OF counts_requests_steady [OF host c]]
        raises_gemini_finish self)
  then show ?thesis
    unfolding turn_cost_def gemini_provider_def gemini_start_turn_def gemini_continue_turn_def gemini_reset_session_def
    by (auto simp: self raises_trim simp del: ret_apply intro!: raises_bind_quiet push)
qed

section \<open>A prompt and a workflow\<close>

text \<open>One of the three provider classes, over an object the counter does not look at.\<close>

definition counted_provider :: "('w \<Rightarrow> nat) \<Rightarrow> 'w platform \<Rightarrow> 'w provider \<Rightarrow> bool" where
  "counted_provider f P p \<longleftrightarrow>
     (\<exists>self. counter_ignores f self \<and> p = deepseek_provider P self) \<or>
     (\<exists>self. counter_ignores f self \<and> p = openrouter_provider P self) \<or>
     (\<exists>self. counter_ignores f self \<and> p = gemini_provider P self)"

lemma counted_provider_cost:
  "counts_requests f P callbacks \<Longrightarrow> counted_provider f P p \<Longrightarrow> turn_cost f 3 callbacks p"
  by (auto simp: counted_provider_def deepseek_turn_cost openrouter_turn_cost gemini_turn_cost)

text \<open>A host over which a workflow runs: the world of the orchestrator with a counter and one object.\<close>

type_synonym request_world = "(orch_vars \<times> nat \<times> deepseek_object) rworld"

definition demo_object :: "(request_world, deepseek_object) ref_to" where
  "demo_object = \<lparr>obj_get = (\<lambda>(v, o', n, s). s), obj_put = (\<lambda>s (v, o', n, t). (v, o', n, s))\<rparr>"

definition unreachable_http :: "request_world http_lib" where
  "unreachable_http = (plain_http [])\<lparr>h_send := \<lambda>req (v, o', n, s). (Ret ([], No_response (Error_Other ''down'')), (v, o', Suc n, s))\<rparr>"

definition unreachable_platform :: "request_world platform" where
  "unreachable_platform = demo_platform\<lparr>pf_client := \<lambda>_. unreachable_http\<rparr>"

definition deepseek_runtime :: "request_world runtime" where
  "deepseek_runtime = \<lparr>rt_provider = Some (deepseek_provider unreachable_platform demo_object), rt_api_key = ''key'',
     rt_model = ''model'', rt_tools = []\<rparr>"

definition quiet_workflow :: "(runtime_vars \<times> nat \<times> deepseek_object) oworld orchestration_callbacks" where
  "quiet_workflow = \<lparr>oc_on_stage_started = None, oc_on_stage_finished = None, oc_before_next_stage = None,
     oc_runtime = \<lparr>cb_on_text = None, cb_on_progress = None\<rparr>\<rparr>"

text \<open>C19: the cost of a workflow at the network. Over any of the three providers a workflow makes at most three
  HTTP requests for each turn its stages may take, whatever the servers answer or fail to answer,
  whatever the models ask for, and however the workflow ends: a counter that only the requests raise,
  each by at most one, grows by at most three times the budgets of the stages.\<close>

theorem workflow_requests_bounded:
  assumes "workflow_within (no_more (counter c)) env callbacks"
    and "counts_requests (counter c) P (rehost_callbacks (oc_runtime callbacks))"
    and "\<And>profile p. rt_provider (rt profile) = Some p \<Longrightarrow> counted_provider (counter c) P p"
    and "\<And>profile. host_within (no_more (counter c)) renv (rehost_callbacks (oc_runtime callbacks))
      (rehost_confirm confirm) (rt_tools (rt profile))"
  shows "c (snd (snd (snd (orchestrator_execute env (agent_orchestrator J renv rt reg) task callbacks confirm (v, r, g)))))
    \<le> c g + 3 * workflow_budget task reg"
proof -
  have "runtimes_cost c 3 renv rt (rehost_callbacks (oc_runtime callbacks)) (rehost_confirm confirm)"
    using assms(2-4) by (auto simp: runtimes_cost_def intro: counted_provider_cost)
  from raises_orchestrator_execute [OF assms(1) this, of task reg J] show ?thesis
    unfolding raises_def by (auto simp: split_def dest: spec [of _ "(v, r, g)"])
qed

theorem workflow_requests_bounded_witness:
  "fst (snd (snd (snd (orchestrator_execute id (agent_orchestrator plain_json id (\<lambda>_. deepseek_runtime) make_registry)
     (quick_task\<lparr>ot_constraints := \<lparr>tk_max_steps = Some 3, tk_read_only = True, tk_notes = []\<rparr>\<rparr>) quiet_workflow None
     (free_vars, new_runtime_vars, 0, new_deepseek ''e''))))) \<le> 36"
proof -
  let ?task = "quick_task\<lparr>ot_constraints := \<lparr>tk_max_steps = Some 3, tk_read_only = True, tk_notes = []\<rparr>\<rparr>"
  have "fst (snd (snd (snd (orchestrator_execute id (agent_orchestrator plain_json id (\<lambda>_. deepseek_runtime) make_registry)
      ?task quiet_workflow None (free_vars, new_runtime_vars, 0, new_deepseek ''e'')))))
      \<le> fst (0 :: nat, new_deepseek ''e'') + 3 * workflow_budget ?task make_registry"
  proof (rule workflow_requests_bounded)
    show "workflow_within (no_more (counter fst)) id quiet_workflow"
      by (simp add: workflow_within_def quiet_workflow_def no_more_def)
    show "counts_requests (counter fst) unreachable_platform (rehost_callbacks (oc_runtime quiet_workflow))"
      by (auto simp: counts_requests_def unreachable_platform_def demo_platform_def unreachable_http_def raises_def
          rehost_callbacks_def quiet_workflow_def)
    show "counted_provider (counter fst) unreachable_platform p" if "rt_provider deepseek_runtime = Some p" for p
    proof -
      have "counter_ignores (counter fst) demo_object" by (auto simp: counter_ignores_def demo_object_def)
      then show ?thesis using that by (auto simp: counted_provider_def deepseek_runtime_def)
    qed
    show "host_within (no_more (counter fst)) id (rehost_callbacks (oc_runtime quiet_workflow)) (rehost_confirm None)
        (rt_tools deepseek_runtime)"
      by (simp add: host_within_def no_more_def rehost_callbacks_def rehost_confirm_def quiet_workflow_def deepseek_runtime_def)
  qed
  also have "fst (0 :: nat, new_deepseek ''e'') + 3 * workflow_budget ?task make_registry \<le> 36"
    by (simp add: workflow_budget_def stages_def make_registry_eq find_profile_def stage_budget_def)
  finally show ?thesis .
qed

end
