(* ===== verification/Replay.thy ===== *)
theory Replay
  imports Turns Turn_Steps
begin

text \<open>
  No replay, for whole turns. Once a turn has handed text to the consumer it sends no further request:
  the retry loop is the place that decides, the parsers are the place that calls the consumer, and the
  link between the two is the variable \<^verbatim>\<open>received_event\<close>, which the event callback sets first.
\<close>

section \<open>A network that must stay silent\<close>

text \<open>\<open>heard\<close> tells that the consumer has received text; a request made after that is undefined behaviour.\<close>

definition hushed :: "('w \<Rightarrow> bool) \<Rightarrow> 'w http_lib \<Rightarrow> 'w http_lib" where
  "hushed heard H = H\<lparr>h_send := \<lambda>req w. if heard w then (Undef, w) else h_send H req w\<rparr>"

definition hushed_platform :: "('w \<Rightarrow> bool) \<Rightarrow> 'w platform \<Rightarrow> 'w platform" where
  "hushed_platform heard P = P\<lparr>pf_client := \<lambda>ep. hushed heard (pf_client P ep)\<rparr>"

lemma hushed_fields [simp]:
  "h_aborted (hushed heard H) = h_aborted H" "h_has_header (hushed heard H) = h_has_header H"
  "h_header_value (hushed heard H) = h_header_value H" "h_error_text (hushed heard H) = h_error_text H"
  "\<not> heard w \<Longrightarrow> h_send (hushed heard H) req w = h_send H req w"
  by (simp_all add: hushed_def)

lemma hushed_platform_fields [simp]:
  "pf_json (hushed_platform heard P) = pf_json P" "pf_sys (hushed_platform heard P) = pf_sys P"
  "pf_sort (hushed_platform heard P) = pf_sort P"
  "pf_client (hushed_platform heard P) ep = hushed heard (pf_client P ep)"
  by (simp_all add: hushed_platform_def)

lemma hushed_retry_delay [simp]: "retry_delay S (hushed heard H) response attempt = retry_delay S H response attempt"
  unfolding retry_delay_def hushed_fields ..

lemma hushed_answer [simp]: "read_answer (hushed_platform heard P) (hushed heard H) = read_answer P H"
  unfolding fun_eq_iff read_answer_def hushed_fields hushed_platform_fields by simp

lemma hushed_finish [simp]:
  "openai_finish (hushed_platform heard P) push = openai_finish P push"
  "gemini_finish (hushed_platform heard P) self = gemini_finish P self"
  unfolding openai_finish_def gemini_finish_def hushed_platform_fields by (rule refl)+

section \<open>The link\<close>

text \<open>Nobody has heard anything that is not noted in \<^verbatim>\<open>received_event\<close>; the steps keep it so.\<close>

definition noted :: "('w \<Rightarrow> bool) \<Rightarrow> turn_vars \<times> 'w \<Rightarrow> bool" where
  "noted heard s \<longleftrightarrow> (heard (snd s) \<longrightarrow> sv_received_event (fst s))"

definition stays_noted :: "('w \<Rightarrow> bool) \<Rightarrow> turn_vars \<times> 'w \<Rightarrow> turn_vars \<times> 'w \<Rightarrow> bool" where
  "stays_noted heard s s' \<longleftrightarrow> (noted heard s \<longrightarrow> noted heard s')"

interpretation stays_noted: turn_relation "stays_noted heard" for heard
  by unfold_locales (auto simp: stays_noted_def)

interpretation received: turn_relation "same (\<lambda>s :: turn_vars \<times> 'w. sv_received_event (fst s))"
  by unfold_locales

text \<open>Nothing but the consumer of text makes it heard.\<close>

definition only_text_heard :: "('w \<Rightarrow> bool) \<Rightarrow> 'w platform \<Rightarrow> 'w stream_callbacks \<Rightarrow> 'w flag_ptr \<Rightarrow> bool" where
  "only_text_heard heard P callbacks cancel \<longleftrightarrow>
     (\<forall>n w. heard (sleep_for (pf_sys P) n w) \<longrightarrow> heard w) \<and>
     (\<forall>a b w. heard (snd (uniform_int (pf_sys P) a b w)) \<longrightarrow> heard w) \<and>
     (\<forall>ep req w. heard (snd (h_send (pf_client P ep) req w)) \<longrightarrow> heard w) \<and>
     (\<forall>w. heard (snd (load_flag cancel w)) \<longrightarrow> heard w) \<and>
     (\<forall>s w. heard (snd (call_opt (cb_on_progress callbacks) s w)) \<longrightarrow> heard w)"

lemma within_noted_on_snd:
  "(\<And>w. heard (snd (m w)) \<longrightarrow> heard w) \<Longrightarrow> within (stays_noted heard) (on_snd m)"
  by (auto simp: within_def stays_noted_def noted_def)

lemma within_noted_write:
  "(\<And>v w. sv_received_event (g v w) = sv_received_event v) \<Longrightarrow> within (stays_noted heard) (modifyA (\<lambda>(v, w). (g v w, w)))"
  by (auto simp: within_def stays_noted_def noted_def)

lemma parsers_keep_received:
  "within (same (\<lambda>s :: turn_vars \<times> 'w. sv_received_event (fst s))) (parse_gemini_stream_chunk J on_text ev)"
  "within (same (\<lambda>s :: turn_vars \<times> 'w. sv_received_event (fst s))) (parse_deepseek_stream_chunk J on_text ev)"
  "within (same (\<lambda>s :: turn_vars \<times> 'w. sv_received_event (fst s))) (parse_openrouter_stream_chunk J on_text ev)"
proof -
  have "parses_within (same (\<lambda>s :: turn_vars \<times> 'w. sv_received_event (fst s))) on_text"
    by (auto simp: parses_within_def same_def within_def)
  from received.within_parsers [OF this]
  show "within (same (\<lambda>s :: turn_vars \<times> 'w. sv_received_event (fst s))) (parse_gemini_stream_chunk J on_text ev)"
    "within (same (\<lambda>s :: turn_vars \<times> 'w. sv_received_event (fst s))) (parse_deepseek_stream_chunk J on_text ev)"
    "within (same (\<lambda>s :: turn_vars \<times> 'w. sv_received_event (fst s))) (parse_openrouter_stream_chunk J on_text ev)"
    by auto
qed

lemma deliver_noted:
  fixes parse :: "string \<Rightarrow> (turn_vars \<times> 'w, unit) act"
  assumes "within (same (\<lambda>s :: turn_vars \<times> 'w. sv_received_event (fst s))) (parse ev)"
  shows "within (stays_noted heard) (deliver parse ev)"
proof -
  have "sv_received_event (fst (snd (deliver parse ev (v, w))))" for v w
    using assms [unfolded within_def, rule_format, of "(v\<lparr>sv_received_event := True\<rparr>, w)"]
    by (simp add: deliver_def same_def)
  then show ?thesis by (auto simp: within_def stays_noted_def noted_def)
qed

lemma request_noted:
  fixes parse :: "string \<Rightarrow> (turn_vars \<times> 'w, unit) act"
  assumes host: "only_text_heard heard P callbacks cancel"
    and parse: "\<And>ev. within (same (\<lambda>s :: turn_vars \<times> 'w. sv_received_event (fst s))) (parse ev)"
  shows "within (stays_noted heard) (stream_request_body P (pf_client P ep) path headers request_json parse cancel)"
proof -
  have load: "within (stays_noted heard) (on_snd (load_flag cancel))"
    and send: "within (stays_noted heard) (on_snd (h_send (pf_client P ep) req))" for req
    by (rule within_noted_on_snd, use host in \<open>unfold only_text_heard_def, blast\<close>)+
  have body: "within (stays_noted heard) (modifyA (\<lambda>(v, w). (sv_error_body_update g v, w)))" for g
    by (rule within_noted_write) simp
  show ?thesis
    unfolding stream_request_body_def
    by (intro stays_noted.within_bindA stays_noted.within_lift_out
        stays_noted.within_stream_post [OF load deliver_noted [OF parse] body send])
qed

lemma hushed_request:
  assumes "\<not> heard w"
  shows "stream_request_body (hushed_platform heard P) (hushed heard H) path headers request_json parse cancel (v, w) =
    stream_request_body P H path headers request_json parse cancel (v, w)"
  unfolding stream_request_body_def stream_post_def hushed_platform_fields hushed_fields(1)
  by (intro bindA_cong_at refl) (use assms in auto)

section \<open>The loop, the turn and the providers\<close>

lemma waits_noted:
  assumes "only_text_heard heard P callbacks cancel"
  shows "waits_within (stays_noted heard) (pf_sys P) cancel (cb_on_progress callbacks)"
proof -
  have "within (stays_noted heard) (on_snd (load_flag cancel))"
    "\<And>m. within (stays_noted heard) (on_snd (call_opt (cb_on_progress callbacks) m))"
    by (rule within_noted_on_snd, use assms in \<open>unfold only_text_heard_def, blast\<close>)+
  moreover have "stays_noted heard (v, w) (v, sleep_for (pf_sys P) n w)"
    "stays_noted heard (v, w) (v, snd (uniform_int (pf_sys P) a b w))" for v w n a b
    using assms unfolding only_text_heard_def stays_noted_def noted_def fst_conv snd_conv by blast+
  ultimately show ?thesis by (simp add: waits_within_def)
qed

lemma on_snd_fst: "on_snd m s = (r, s1) \<Longrightarrow> fst s1 = fst s"
  by (auto simp: on_snd_def split: prod.splits)

lemma notedD: "within (stays_noted heard) m \<Longrightarrow> noted heard s \<Longrightarrow> m s = (r, s1) \<Longrightarrow> noted heard s1"
  using withinD [of "stays_noted heard" m s r s1] by (simp add: stays_noted_def)

text \<open>A loop that makes its requests only while nothing is received cannot tell the two networks apart.\<close>

lemma hushed_loop:
  assumes host: "waits_within (stays_noted heard) S cancel on_progress"
    and request: "within (stays_noted heard) request"
    and agree: "\<And>s. \<not> heard (snd s) \<Longrightarrow> request' s = request s"
  shows "noted heard s \<Longrightarrow> \<not> sv_received_event (fst s) \<Longrightarrow>
    execute_stream_from S (hushed heard H) request' sv_received_event error_body cancel on_progress m attempt s =
    execute_stream_from S H request sv_received_event error_body cancel on_progress m attempt s"
proof (induction attempt arbitrary: s rule: attempt_induct [of m])
  case (1 attempt)
  have flag: "within (stays_noted heard) (on_snd (load_flag cancel))"
    and notice: "\<And>msg. within (stays_noted heard) (on_snd (call_opt on_progress msg))"
    using host by (simp_all add: waits_within_def)
  note delay = stays_noted.within_retry_delay [OF host] and wait = stays_noted.within_wait_until [OF host]
  let ?rec = "\<lambda>N request. execute_stream_from S N request sv_received_event error_body cancel on_progress m (Suc attempt)"
  let ?tail = "\<lambda>N request response. bindA (on_snd (retry_delay S H response attempt)) (\<lambda>delay.
         bindA (on_snd (call_opt on_progress (retry_notice response delay attempt m))) (\<lambda>_.
         bindA (on_snd (readA (steady_now S))) (\<lambda>now.
         bindA (on_snd (wait_until S cancel (now + delay) (Suc delay))) (\<lambda>cut.
           if cut then ret response else ?rec N request))))"
  have tail: "?tail (hushed heard H) request' response s1 = ?tail H request response s1"
    if s1: "noted heard s1" "\<not> sv_received_event (fst s1)" and lt: "int attempt + 1 < m" for response s1
  proof (rule bindA_cong_at [OF refl], rule bindA_cong_at [OF refl], rule bindA_cong_at [OF refl], rule bindA_cong_at [OF refl])
    fix d s2 u s3 t s4 cut s5
    assume run: "on_snd (retry_delay S H response attempt) s1 = (Ret d, s2)"
      "on_snd (call_opt on_progress (retry_notice response d attempt m)) s2 = (Ret u, s3)"
      "on_snd (readA (steady_now S)) s3 = (Ret t, s4)"
      "on_snd (wait_until S cancel (t + d) (Suc d)) s4 = (Ret cut, s5)"
    have "noted heard s4" using notedD [OF notice notedD [OF delay s1(1) run(1)] run(2)] run(3) by auto
    then have "noted heard s5" using run(4) by (rule notedD [OF wait])
    moreover have "fst s5 = fst s1" using run by (auto dest!: on_snd_fst)
    ultimately have "?rec (hushed heard H) request' s5 = ?rec H request s5"
      using s1(2) by (intro 1(1) lt) auto
    then show "(if cut then ret response else ?rec (hushed heard H) request') s5 =
        (if cut then ret response else ?rec H request) s5" by simp
  qed
  have start: "request' s1 = request s1" if "on_snd (call_opt on_progress msg) s = (r, s1)" for msg r s1
    using agree [of s1] notedD [OF notice 1(2) that] on_snd_fst [OF that] 1(3) by (auto simp: noted_def)
  have finish: "noted heard s3" if "on_snd (call_opt on_progress msg) s = (r, s1)" "request s1 = (r', s2)"
      "on_snd (load_flag cancel) s2 = (r'', s3)" for msg r s1 r' s2 r'' s3
    using notedD [OF flag notedD [OF request notedD [OF notice 1(2) that(1)] that(2)] that(3)] .
  show ?case
    unfolding execute_stream_from.simps [of S _ _ sv_received_event error_body cancel on_progress m attempt]
      hushed_retry_delay
    apply (rule bindA_cong_at, rule refl)
    apply (rule bindA_cong_at, erule start)
    apply (rule bindA_cong_at, rule refl)+
    using tail finish by (auto simp: split_def)
qed

lemma hushed_stream_turn:
  assumes host: "only_text_heard heard P callbacks cancel" and "\<not> heard w"
    and parse: "\<And>ev. within (same (\<lambda>s :: turn_vars \<times> 'w. sv_received_event (fst s))) (parse ev)"
  shows "stream_turn (hushed_platform heard P) (hushed heard (pf_client P ep)) name path headers request_json parse
      callbacks cancel finish w =
    stream_turn P (pf_client P ep) name path headers request_json parse callbacks cancel finish w"
proof -
  have "execute_stream_with_retry (pf_sys P) (hushed heard (pf_client P ep))
      (stream_request_body (hushed_platform heard P) (hushed heard (pf_client P ep)) path headers request_json parse cancel)
      sv_received_event sv_error_body cancel (cb_on_progress callbacks) max_request_attempts (new_turn_vars, w) =
    execute_stream_with_retry (pf_sys P) (pf_client P ep)
      (stream_request_body P (pf_client P ep) path headers request_json parse cancel)
      sv_received_event sv_error_body cancel (cb_on_progress callbacks) max_request_attempts (new_turn_vars, w)"
    unfolding execute_stream_with_retry_def
  proof (rule hushed_loop [OF waits_noted [OF host] request_noted [OF host parse]])
    show "stream_request_body (hushed_platform heard P) (hushed heard (pf_client P ep)) path headers request_json parse cancel s =
        stream_request_body P (pf_client P ep) path headers request_json parse cancel s" if "\<not> heard (snd s)" for s
      using hushed_request [of heard "snd s" P "pf_client P ep" path headers request_json parse cancel "fst s"] that by simp
  qed (use assms(2) in \<open>simp_all add: noted_def new_turn_vars_def\<close>)
  then show ?thesis
    unfolding stream_turn_def with_local_def hushed_platform_fields hushed_answer bindA_apply by (rule arg_cong)
qed

text \<open>Neither does the object behind the provider.\<close>

definition unheard_object :: "('w \<Rightarrow> bool) \<Rightarrow> ('w, 's) ref_to \<Rightarrow> bool" where
  "unheard_object heard self \<longleftrightarrow> (\<forall>s w. heard (obj_put self s w) \<longrightarrow> heard w)"

lemma unheard_modify: "unheard_object heard self \<Longrightarrow> \<not> heard w \<Longrightarrow> modify_obj self f w = (r, w1) \<Longrightarrow> \<not> heard w1"
  by (auto simp: unheard_object_def modify_obj_def)

lemma unheard_flag: "only_text_heard heard P callbacks cancel \<Longrightarrow> \<not> heard w \<Longrightarrow> load_flag cancel w = (r, w1) \<Longrightarrow> \<not> heard w1"
  unfolding only_text_heard_def by (metis snd_conv)

lemma hushed_deepseek_execute:
  assumes host: "only_text_heard heard P callbacks cancel" and w: "\<not> heard w"
  shows "deepseek_execute_turn_request (hushed_platform heard P) self key model tools callbacks cancel w =
    deepseek_execute_turn_request P self key model tools callbacks cancel w"
proof (cases "ds_client (obj_get self w)")
  case (Some ep)
  obtain c w1 where l: "load_flag cancel w = (Ret c, w1)" by (rule load_flag_cases)
  have "\<not> heard w1" using unheard_flag [OF host w l] .
  then show ?thesis
    by (simp add: deepseek_execute_turn_request_def read_obj_def Some l
        hushed_stream_turn [OF host _ parsers_keep_received(2)])
qed (simp add: deepseek_execute_turn_request_def read_obj_def)

lemma hushed_openrouter_execute:
  assumes host: "only_text_heard heard P callbacks cancel" and w: "\<not> heard w"
  shows "openrouter_execute_turn_request (hushed_platform heard P) self key model tools callbacks cancel w =
    openrouter_execute_turn_request P self key model tools callbacks cancel w"
proof (cases "or_client (obj_get self w)")
  case (Some ep)
  obtain c w1 where l: "load_flag cancel w = (Ret c, w1)" by (rule load_flag_cases)
  have "\<not> heard w1" using unheard_flag [OF host w l] .
  then show ?thesis
    by (simp add: openrouter_execute_turn_request_def openrouter_model_capabilities_def read_obj_def Some l
        hushed_stream_turn [OF host _ parsers_keep_received(3)])
qed (simp add: openrouter_execute_turn_request_def read_obj_def)

lemma hushed_gemini_execute:
  assumes host: "only_text_heard heard P callbacks cancel" and w: "\<not> heard w"
  shows "gemini_execute_turn_request (hushed_platform heard P) self key model instruction tools callbacks cancel w =
    gemini_execute_turn_request P self key model instruction tools callbacks cancel w"
proof (cases "gm_client (obj_get self w)")
  case (Some ep)
  obtain c w1 where l: "load_flag cancel w = (Ret c, w1)" by (rule load_flag_cases)
  have "\<not> heard w1" using unheard_flag [OF host w l] .
  then show ?thesis
    by (simp add: gemini_execute_turn_request_def read_obj_def Some l
        hushed_stream_turn [OF host _ parsers_keep_received(1)])
qed (simp add: gemini_execute_turn_request_def read_obj_def)

text \<open>The pushes before a turn.\<close>

abbreviation unheard_steps :: "('w \<Rightarrow> bool) \<Rightarrow> ('w, 'a) act \<Rightarrow> bool" where
  "unheard_steps heard \<equiv> within (no_more (\<lambda>w. of_bool (heard w)))"

lemma unheard_steps_iff: "unheard_steps heard m \<longleftrightarrow> (\<forall>w. heard (snd (m w)) \<longrightarrow> heard w)"
  unfolding within_def no_more_def by (simp add: of_bool_def)

lemma unheard_stepsD: "unheard_steps heard m \<Longrightarrow> m w = (r, w1) \<Longrightarrow> \<not> heard w \<Longrightarrow> \<not> heard w1"
  unfolding unheard_steps_iff by (metis snd_conv)

lemma unheard_modify_steps: "unheard_object heard self \<Longrightarrow> unheard_steps heard (modify_obj self f)"
  unfolding unheard_steps_iff unheard_object_def modify_obj_def modifyA_apply snd_conv by blast

lemma unheard_responses:
  "(\<And>m. unheard_steps heard (push m)) \<Longrightarrow> unheard_steps heard (forA rs (push_tool_response J push))"
  unfolding push_tool_response_def
  by (intro no_more.within_forA no_more.within_bindA no_more.within_lift_out) blast

lemma hushed_after:
  assumes "unheard_steps heard m" and "\<not> heard w" and "\<And>a w1. \<not> heard w1 \<Longrightarrow> k a w1 = k' a w1"
  shows "bindA m k w = bindA m k' w"
  by (rule bindA_cong_at [OF refl], rule assms(3), erule unheard_stepsD [OF assms(1) _ assms(2)])

lemma hushed_deepseek:
  assumes host: "only_text_heard heard P callbacks cancel" and self: "unheard_object heard self" and w: "\<not> heard w"
  shows "deepseek_start_turn (hushed_platform heard P) self key model i u tools callbacks cancel w =
      deepseek_start_turn P self key model i u tools callbacks cancel w" (is ?start)
    and "deepseek_continue_turn (hushed_platform heard P) self key model i rs tools callbacks cancel w =
      deepseek_continue_turn P self key model i rs tools callbacks cancel w" (is ?continue)
proof -
  have push: "unheard_steps heard (deepseek_push self m)" for m
    unfolding deepseek_push_def by (rule unheard_modify_steps [OF self])
  have system: "unheard_steps heard (if b then deepseek_push self m else ret ())" for b m
    using push by simp
  show ?start
    unfolding deepseek_start_turn_def read_obj_def bindA_readA
    by (intro hushed_after [OF system] hushed_after [OF push] hushed_deepseek_execute [OF host] w)
  show ?continue
    unfolding deepseek_continue_turn_def hushed_platform_fields
    by (intro hushed_after [OF unheard_responses [OF push]] hushed_deepseek_execute [OF host] w)
qed

lemma hushed_gemini:
  assumes host: "only_text_heard heard P callbacks cancel" and self: "unheard_object heard self" and w: "\<not> heard w"
  shows "gemini_start_turn (hushed_platform heard P) self key model i u tools callbacks cancel w =
      gemini_start_turn P self key model i u tools callbacks cancel w" (is ?start)
    and "gemini_continue_turn (hushed_platform heard P) self key model i rs tools callbacks cancel w =
      gemini_continue_turn P self key model i rs tools callbacks cancel w" (is ?continue)
proof -
  have push: "unheard_steps heard (gemini_push self m)" for m
    unfolding gemini_push_def by (rule unheard_modify_steps [OF self])
  show ?start
    unfolding gemini_start_turn_def by (intro hushed_after [OF push] hushed_gemini_execute [OF host] w)
  show ?continue
    unfolding gemini_continue_turn_def by (intro hushed_after [OF push] hushed_gemini_execute [OF host] w)
qed

lemma hushed_openrouter:
  assumes host: "only_text_heard heard P callbacks cancel" and self: "unheard_object heard self" and w: "\<not> heard w"
  shows "openrouter_start_turn (hushed_platform heard P) self key model i u tools callbacks cancel w =
      openrouter_start_turn P self key model i u tools callbacks cancel w" (is ?start)
    and "openrouter_continue_turn (hushed_platform heard P) self key model i rs tools callbacks cancel w =
      openrouter_continue_turn P self key model i rs tools callbacks cancel w" (is ?continue)
proof -
  have push: "unheard_steps heard (openrouter_push self m)" for m
    unfolding openrouter_push_def by (rule unheard_modify_steps [OF self])
  have system: "unheard_steps heard (if b then openrouter_push self m else ret ())" for b m
    using push by simp
  have flag: "unheard_steps heard (load_flag cancel)"
    unfolding unheard_steps_iff using host unfolding only_text_heard_def by blast
  have read: "unheard_steps heard (read_obj self f)" for f by (simp add: read_obj_def)
  have caps: "unheard_steps heard (openrouter_model_capabilities self m)" for m
    by (simp add: openrouter_model_capabilities_def read)
  have turn: "(if c then ret cancelled_turn else k) w1 = (if c then ret cancelled_turn else k') w1"
    if "k w1 = k' w1" for c k k' and w1 :: 'a
    using that by simp
  show ?start
    unfolding openrouter_start_turn_def Let_def
    by (intro hushed_after [OF flag] turn hushed_after [OF caps] hushed_after [OF read] hushed_after [OF system]
        hushed_after [OF push] hushed_openrouter_execute [OF host] w)
  show ?continue
    unfolding openrouter_continue_turn_def hushed_platform_fields
    by (intro hushed_after [OF flag] turn hushed_after [OF unheard_responses [OF push]]
        hushed_openrouter_execute [OF host] w)
qed

section \<open>No replay\<close>

text \<open>The three provider classes over an object, as functions of the platform.\<close>

definition built_in_classes ::
    "('w, deepseek_object) ref_to \<Rightarrow> ('w, openrouter_object) ref_to \<Rightarrow> ('w, gemini_object) ref_to \<Rightarrow>
     ('w platform \<Rightarrow> 'w provider) list" where
  "built_in_classes ds op gm =
     [\<lambda>P. deepseek_provider P ds, \<lambda>P. openrouter_provider P op, \<lambda>P. gemini_provider P gm]"

definition hearing :: "('s \<times> string list) stream_callbacks" where
  "hearing = \<lparr>cb_on_text = Some (\<lambda>said (s, texts). (Ret (), (s, texts @ [said]))), cb_on_progress = None\<rparr>"

definition anything_heard :: "'s \<times> string list \<Rightarrow> bool" where
  "anything_heard = (\<lambda>(s, texts). texts \<noteq> [])"

type_synonym three_objects = "(deepseek_object \<times> openrouter_object \<times> gemini_object) \<times> string list"

definition demo_ds :: "(three_objects, deepseek_object) ref_to" where
  "demo_ds = \<lparr>obj_get = (\<lambda>((d, r, g), t). d), obj_put = (\<lambda>d ((_, r, g), t). ((d, r, g), t))\<rparr>"

definition demo_or :: "(three_objects, openrouter_object) ref_to" where
  "demo_or = \<lparr>obj_get = (\<lambda>((d, r, g), t). r), obj_put = (\<lambda>r ((d, _, g), t). ((d, r, g), t))\<rparr>"

definition demo_gm :: "(three_objects, gemini_object) ref_to" where
  "demo_gm = \<lparr>obj_get = (\<lambda>((d, r, g), t). g), obj_put = (\<lambda>g ((d, r, _), t). ((d, r, g), t))\<rparr>"

definition three_new :: three_objects where
  "three_new = ((new_deepseek ''e'', new_openrouter default_openrouter_config, new_gemini ''e''), [])"

text \<open>C6: text is never sent twice. Within one turn of DeepSeek, OpenRouter or Gemini, once the consumer
  has received a piece of text no further HTTP request is made, whatever the server does to the
  connection and however often it asks for a retry: a network on which a request after that is
  undefined behaviour gives exactly the same turn.\<close>

theorem turns_never_replay:
  assumes "only_text_heard heard P callbacks cancel" and "\<not> heard w"
    and "unheard_object heard ds" and "unheard_object heard op" and "unheard_object heard gm"
    and "F \<in> set (built_in_classes ds op gm)"
  shows "p_start_turn (F (hushed_platform heard P)) key model instruction said registry callbacks cancel w =
      p_start_turn (F P) key model instruction said registry callbacks cancel w \<and>
    p_continue_turn (F (hushed_platform heard P)) key model instruction rs registry callbacks cancel w =
      p_continue_turn (F P) key model instruction rs registry callbacks cancel w"
  using assms(6) hushed_deepseek [OF assms(1,3,2)] hushed_openrouter [OF assms(1,4,2)] hushed_gemini [OF assms(1,5,2)]
  by (auto simp: built_in_classes_def deepseek_provider_def openrouter_provider_def gemini_provider_def)

theorem turns_never_replay_witness:
  "p_start_turn (deepseek_provider (hushed_platform anything_heard demo_platform) demo_ds) ''key'' ''m'' [] ''hi'' []
      hearing None three_new =
    p_start_turn (deepseek_provider demo_platform demo_ds) ''key'' ''m'' [] ''hi'' [] hearing None three_new"
proof -
  have "only_text_heard anything_heard demo_platform (hearing :: three_objects stream_callbacks) None"
    by (auto simp: only_text_heard_def anything_heard_def demo_platform_def demo_http_def plain_http_def hearing_def)
  moreover have "unheard_object anything_heard demo_ds" "unheard_object anything_heard demo_or"
    "unheard_object anything_heard demo_gm"
    by (auto simp: unheard_object_def anything_heard_def demo_ds_def demo_or_def demo_gm_def)
  ultimately show ?thesis
    using turns_never_replay [of anything_heard demo_platform hearing None three_new demo_ds demo_or demo_gm
        "\<lambda>P. deepseek_provider P demo_ds"]
    by (simp add: anything_heard_def built_in_classes_def three_new_def)
qed

end
