(* ===== verification/Dialogue.thy ===== *)
theory Dialogue
  imports Gemini_Turn Session
begin

text \<open>
  A whole conversation over the wire. The relation \<open>dialogue\<close> says what the user may expect of one prompt:
  the server answers each request with a stream of events; while the streams ask for tools, the tools
  run in order and their results are handed back; the text of the last stream is the answer. What a
  provider must do for it is the locale \<open>wire_laws\<close>; all three providers are instances, so that a prompt of
  a session over any of them implements the dialogue, from the bytes of the transfer to the result.
\<close>

section \<open>The specification\<close>

text \<open>The arguments a session passes with every turn of one prompt.\<close>

record 'w exchange =
  su_key :: string
  su_model :: string
  su_instruction :: string
  su_registry :: "'w tool_registry"
  su_callbacks :: "'w stream_callbacks"
  su_cancel :: "'w flag_ptr"

definition exchange_of :: "'w session \<Rightarrow> 'w stream_callbacks \<Rightarrow> 'w flag_ptr \<Rightarrow> 'w exchange" where
  "exchange_of s callbacks cancel = \<lparr>su_key = se_api_key s, su_model = se_active_model s,
     su_instruction = cf_system_instruction (se_config s), su_registry = session_registry s,
     su_callbacks = callbacks, su_cancel = cancel\<rparr>"

text \<open>
  A provider seen from its server: how a prompt opens the history, one request, what it means that the
  server answers it with a text and tool calls, and how results are handed back.
\<close>

record 'w wire =
  wi_provider :: "'w provider"
  wi_opened :: "string \<Rightarrow> 'w \<Rightarrow> 'w"
  wi_turn :: "('w, model_turn) act"
  wi_answered :: "'w \<Rightarrow> string \<Rightarrow> tool_call list \<Rightarrow> 'w \<Rightarrow> bool"
  wi_handed :: "tool_response list \<Rightarrow> ('w, unit) act"

inductive dialogue ::
    "'w wire \<Rightarrow> 'w tool_registry \<Rightarrow> 'w confirmation_fn \<Rightarrow> 'w flag_ptr \<Rightarrow> nat \<Rightarrow> 'w \<Rightarrow> string \<Rightarrow> 'w \<Rightarrow> bool"
  for W registry confirm cancel where
  last_answer: "wi_answered W w answer [] w1 \<Longrightarrow> dialogue W registry confirm cancel n w answer w1"
| tool_round: "wi_answered W w said calls w1 \<Longrightarrow> calls \<noteq> [] \<Longrightarrow>
    mapA (answer_call registry (call_context confirm cancel)) calls w1 = (Ret rs, w2) \<Longrightarrow>
    wi_handed W rs w2 = (Ret (), w3) \<Longrightarrow>
    dialogue W registry confirm cancel n w3 answer w4 \<Longrightarrow>
    dialogue W registry confirm cancel (Suc n) w answer w4"

text \<open>A dialogue within \<open>n\<close> rounds is one within more.\<close>

lemma dialogue_mono:
  "dialogue W registry confirm cancel n w answer w' \<Longrightarrow> n \<le> m \<Longrightarrow> dialogue W registry confirm cancel m w answer w'"
proof (induction arbitrary: m rule: dialogue.induct)
  case (tool_round w said calls w1 rs w2 w3 n answer w4)
  then obtain k where "m = Suc k" "n \<le> k" by (cases m) auto
  with tool_round show ?case by (auto intro: dialogue.tool_round)
qed (rule last_answer)

section \<open>What a provider promises\<close>

locale wire_laws =
  fixes served :: bool and W :: "'w wire" and U :: "'w exchange"
  assumes opens: "served \<Longrightarrow>
      p_start_turn (wi_provider W) (su_key U) (su_model U) (su_instruction U) said (su_registry U) (su_callbacks U)
        (su_cancel U) w = wi_turn W (wi_opened W said w)"
    and continues: "served \<Longrightarrow>
      p_continue_turn (wi_provider W) (su_key U) (su_model U) (su_instruction U) rs (su_registry U) (su_callbacks U)
        (su_cancel U) = bindA (wi_handed W rs) (\<lambda>_. wi_turn W)"
    and answers: "served \<Longrightarrow> wi_answered W w said calls w1 \<Longrightarrow> wi_turn W w = (Ret (good_turn said calls), w1)"
begin

lemma converse_dialogue:
  assumes "served" and "dialogue W registry confirm cancel n w answer w'"
  shows "bindA (wi_turn W) (converse (\<lambda>rs. bindA (wi_handed W rs) (\<lambda>_. wi_turn W))
      (answer_call registry (call_context confirm cancel)) n) w = (Ret (api_success answer), w')"
  using assms(2)
proof (induction rule: dialogue.induct)
  case (last_answer w answer w1 n)
  from answers [OF assms(1) this] show ?case by (simp add: converse.simps good_turn_def)
next
  case (tool_round w said calls w1 rs w2 w3 n answer w4)
  have "bindA (bindA (wi_handed W rs) (\<lambda>_. wi_turn W))
      (converse (\<lambda>rs. bindA (wi_handed W rs) (\<lambda>_. wi_turn W))
        (answer_call registry (call_context confirm cancel)) n) w2 = (Ret (api_success answer), w4)"
    unfolding bindA_assoc using tool_round(4,6) by simp
  with answers [OF assms(1) tool_round(1)] tool_round(2,3) show ?case
    by (simp add: converse.simps [of _ _ "Suc n"] good_turn_def)
qed

lemma world_prompt_dialogue:
  assumes "served" and "U = exchange_of s callbacks cancel" and "never_set cancel" and "cb_on_progress callbacks = None"
    and "p_trim_history (wi_provider W) (cf_max_history_entries (se_config s)) w = (Ret (), w1)"
    and "dialogue W (session_registry s) (se_confirm s) cancel n (wi_opened W said w1) answer w2"
    and "n \<le> nat (cf_max_tool_rounds (se_config s))" and "cf_max_tool_rounds (se_config s) < int_max"
  shows "world_prompt s (wi_provider W) said callbacks cancel w = (Ret (api_success answer), w2)"
proof -
  note laws = opens [OF assms(1), unfolded assms(2) exchange_of_def exchange.simps]
    continues [OF assms(1), unfolded assms(2) exchange_of_def exchange.simps]
  have "run_prompt s (wi_provider W) said callbacks cancel w1 = (Ret (api_success answer), w2)"
    using converse_dialogue [OF assms(1) dialogue_mono [OF assms(6,7)]]
    by (simp add: run_prompt_def Let_def tool_loop_converse [OF assms(3,4,8)] int_max_def laws bindA_apply)
  then show ?thesis
    using assms(5) by (simp add: world_prompt_def bindA_load [OF assms(3)])
qed

end

section \<open>The three providers\<close>

text \<open>A lawful JSON library, no cancellation, no progress notices, and a text callback that returns.\<close>

definition quiet_exchange :: "'w platform \<Rightarrow> 'w exchange \<Rightarrow> bool" where
  "quiet_exchange P U \<longleftrightarrow> json_laws (pf_json P) \<and> never_set (su_cancel U) \<and>
     cb_on_progress (su_callbacks U) = None \<and> returns (call_opt (cb_on_text (su_callbacks U)))"

text \<open>The events of an answer assemble to pieces of text and tool calls that carry an identifier and a name.\<close>

definition openai_assembled ::
    "json_lib \<Rightarrow> (json \<Rightarrow> content option) \<Rightarrow> string list \<Rightarrow> string list \<Rightarrow>
     call_state list \<Rightarrow> bool" where
  "openai_assembled J view events pieces calls \<longleftrightarrow>
     (\<exists>frs. events_content J view events = Some (pieces, frs) \<and> calls = fold apply_fragment frs [] \<and>
        list_all named_call calls)"

definition deepseek_answered ::
    "'w platform \<Rightarrow> ('w, deepseek_object) ref_to \<Rightarrow> 'w exchange \<Rightarrow> 'w \<Rightarrow> string list \<Rightarrow> call_state list \<Rightarrow> 'w \<Rightarrow> bool" where
  "deepseek_answered P self U w pieces calls w2 \<longleftrightarrow>
     (\<exists>ep body events w1.
        ds_client (obj_get self w) = Some ep \<and>
        j_dump (pf_json P) (build_deepseek_payload (su_model U) (ds_messages (obj_get self w)) (su_registry U)) = Ret body \<and>
        answers_with (pf_client P ep) (stream_request ''/chat/completions'' [bearer (su_key U)] body) w events w1 \<and>
        openai_assembled (pf_json P) packet_content events pieces calls \<and>
        w2 = snd (deepseek_push self (assistant_message (concat pieces) (map call_json calls))
          (consume (cb_on_text (su_callbacks U)) pieces w1)))"

text \<open>The history before the first request: a system message in front of a fresh one, then the user's.\<close>

definition deepseek_opened :: "('w, deepseek_object) ref_to \<Rightarrow> string \<Rightarrow> string \<Rightarrow> 'w \<Rightarrow> 'w" where
  "deepseek_opened self instruction said w =
     snd (deepseek_push self (user_message said)
       (if ds_messages (obj_get self w) = [] \<and> instruction \<noteq> []
        then snd (deepseek_push self (system_message instruction) w) else w))"

definition deepseek_wire :: "'w platform \<Rightarrow> ('w, deepseek_object) ref_to \<Rightarrow> 'w exchange \<Rightarrow> 'w wire" where
  "deepseek_wire P self U = \<lparr>
     wi_provider = deepseek_provider P self,
     wi_opened = deepseek_opened self (su_instruction U),
     wi_turn = deepseek_execute_turn_request P self (su_key U) (su_model U) (su_registry U) (su_callbacks U) (su_cancel U),
     wi_answered = (\<lambda>w said calls w1. \<exists>pieces states. deepseek_answered P self U w pieces states w1 \<and>
       said = concat pieces \<and> calls = map (call_of (pf_json P)) states),
     wi_handed = (\<lambda>rs. forA rs (push_tool_response (pf_json P) (deepseek_push self)))\<rparr>"

interpretation ds_wire: wire_laws "quiet_exchange P U" "deepseek_wire P self U" U
proof
  fix w said calls w1
  assume quiet: "quiet_exchange P U" and "wi_answered (deepseek_wire P self U) w said calls w1"
  then obtain pieces states where answered: "deepseek_answered P self U w pieces states w1"
      and parts: "said = concat pieces" "calls = map (call_of (pf_json P)) states"
    by (auto simp: deepseek_wire_def)
  note deepseek_turn_ok [where P = P and self = self and w = w and model = "su_model U" and key = "su_key U" and
      tools = "su_registry U" and callbacks = "su_callbacks U" and cancel = "su_cancel U", THEN conjunct1]
  from this answered quiet parts show "wi_turn (deepseek_wire P self U) w = (Ret (good_turn said calls), w1)"
    unfolding deepseek_answered_def openai_assembled_def quiet_exchange_def deepseek_wire_def wire.simps by blast
qed (simp_all add: deepseek_wire_def deepseek_provider_def deepseek_start_turn_def deepseek_opened_def deepseek_push_def
    deepseek_continue_turn_def read_obj_def modify_obj_def)

definition openrouter_answered ::
    "'w platform \<Rightarrow> ('w, openrouter_object) ref_to \<Rightarrow> 'w exchange \<Rightarrow> 'w \<Rightarrow> string list \<Rightarrow> call_state list \<Rightarrow> 'w \<Rightarrow> bool" where
  "openrouter_answered P self U w pieces calls w2 \<longleftrightarrow>
     (\<exists>ep body events w1.
        or_client (obj_get self w) = Some ep \<and>
        j_dump (pf_json P) (build_openrouter_payload (su_model U) (or_messages (obj_get self w)) (su_registry U)
          (mc_supports_tools (capabilities_in (or_model_capabilities (obj_get self w)) (su_model U)))) = Ret body \<and>
        answers_with (pf_client P ep)
          (stream_request (join_api_path (oc_api_path_prefix (or_config (obj_get self w))) ''/chat/completions'')
            (openrouter_headers (or_config (obj_get self w)) (su_key U)) body) w events w1 \<and>
        openai_assembled (pf_json P) openrouter_content events pieces calls \<and>
        w2 = snd (openrouter_push self (assistant_message (concat pieces) (map call_json calls))
          (consume (cb_on_text (su_callbacks U)) pieces w1)))"

text \<open>
  A model that takes no system message gets the instruction in front of the first message of the user; the
  code tests the history again after a system message may have been added.
\<close>

definition openrouter_opened ::
    "('w, openrouter_object) ref_to \<Rightarrow> string \<Rightarrow> string \<Rightarrow> string \<Rightarrow> 'w \<Rightarrow> 'w" where
  "openrouter_opened self model instruction said w =
     (let supported = mc_supports_system_instruction (capabilities_in (or_model_capabilities (obj_get self w)) model);
          w1 = (if or_messages (obj_get self w) = [] \<and> instruction \<noteq> [] \<and> supported
                then snd (openrouter_push self (system_message instruction) w) else w);
          opening = (if \<not> supported \<and> instruction \<noteq> [] \<and> or_messages (obj_get self w1) = []
                     then instruction @ [CHR 0x0A, CHR 0x0A] @ said else said)
      in snd (openrouter_push self (user_message opening) w1))"

definition openrouter_wire :: "'w platform \<Rightarrow> ('w, openrouter_object) ref_to \<Rightarrow> 'w exchange \<Rightarrow> 'w wire" where
  "openrouter_wire P self U = \<lparr>
     wi_provider = openrouter_provider P self,
     wi_opened = openrouter_opened self (su_model U) (su_instruction U),
     wi_turn = openrouter_execute_turn_request P self (su_key U) (su_model U) (su_registry U) (su_callbacks U) (su_cancel U),
     wi_answered = (\<lambda>w said calls w1. \<exists>pieces states. openrouter_answered P self U w pieces states w1 \<and>
       said = concat pieces \<and> calls = map (call_of (pf_json P)) states),
     wi_handed = (\<lambda>rs. forA rs (push_tool_response (pf_json P) (openrouter_push self)))\<rparr>"

interpretation or_wire: wire_laws "quiet_exchange P U" "openrouter_wire P self U" U
proof
  fix w said calls w1
  assume quiet: "quiet_exchange P U" and "wi_answered (openrouter_wire P self U) w said calls w1"
  then obtain pieces states where answered: "openrouter_answered P self U w pieces states w1"
      and parts: "said = concat pieces" "calls = map (call_of (pf_json P)) states"
    by (auto simp: openrouter_wire_def)
  note openrouter_turn_ok [where P = P and self = self and w = w and model = "su_model U" and key = "su_key U" and
      tools = "su_registry U" and callbacks = "su_callbacks U" and cancel = "su_cancel U" and
      config = "or_config (obj_get self w)", THEN conjunct1]
  from this answered quiet parts show "wi_turn (openrouter_wire P self U) w = (Ret (good_turn said calls), w1)"
    unfolding openrouter_answered_def openai_assembled_def quiet_exchange_def openrouter_wire_def wire.simps by blast
next
  fix said w
  assume "quiet_exchange P U"
  then have "never_set (su_cancel U)" by (simp add: quiet_exchange_def)
  then show "p_start_turn (wi_provider (openrouter_wire P self U)) (su_key U) (su_model U) (su_instruction U) said
      (su_registry U) (su_callbacks U) (su_cancel U) w =
    wi_turn (openrouter_wire P self U) (wi_opened (openrouter_wire P self U) said w)"
    by (simp add: openrouter_wire_def openrouter_provider_def openrouter_start_turn_def openrouter_opened_def Let_def
        openrouter_model_capabilities_def bindA_load openrouter_push_def read_obj_def modify_obj_def)
next
  fix rs
  assume "quiet_exchange P U"
  then have "never_set (su_cancel U)" by (simp add: quiet_exchange_def)
  then show "p_continue_turn (wi_provider (openrouter_wire P self U)) (su_key U) (su_model U) (su_instruction U) rs
      (su_registry U) (su_callbacks U) (su_cancel U) =
    bindA (wi_handed (openrouter_wire P self U) rs) (\<lambda>_. wi_turn (openrouter_wire P self U))"
    by (simp add: openrouter_wire_def openrouter_provider_def openrouter_continue_turn_def bindA_load)
qed

text \<open>The answer of Gemini is the sequence of its parts; all results of a round go back in one message.\<close>

definition gemini_answered ::
    "'w platform \<Rightarrow> ('w, gemini_object) ref_to \<Rightarrow> 'w exchange \<Rightarrow> 'w \<Rightarrow> json list \<Rightarrow> 'w \<Rightarrow> bool" where
  "gemini_answered P self U w parts w2 \<longleftrightarrow>
     (\<exists>ep body events w1.
        gm_client (obj_get self w) = Some ep \<and>
        j_dump (pf_json P) (build_gemini_payload (su_instruction U) (gm_contents (obj_get self w)) (su_registry U)) =
          Ret body \<and>
        answers_with (pf_client P ep)
          (stream_request (''/v1beta/models/'' @ su_model U @ '':streamGenerateContent?alt=sse'') [gemini_key (su_key U)]
            body) w events w1 \<and>
        parts = concat (map (event_parts (pf_json P)) events) \<and> parts \<noteq> [] \<and>
        list_all plain_part parts \<and> list_all good_call (part_calls parts) \<and>
        w2 = snd (gemini_push self (gemini_content ''model'' parts)
          (consume (cb_on_text (su_callbacks U)) (part_texts parts) w1)))"

definition gemini_wire :: "'w platform \<Rightarrow> ('w, gemini_object) ref_to \<Rightarrow> 'w exchange \<Rightarrow> 'w wire" where
  "gemini_wire P self U = \<lparr>
     wi_provider = gemini_provider P self,
     wi_opened = (\<lambda>said w. snd (gemini_push self (gemini_content ''user'' [text_part said]) w)),
     wi_turn = gemini_execute_turn_request P self (su_key U) (su_model U) (su_instruction U) (su_registry U)
       (su_callbacks U) (su_cancel U),
     wi_answered = (\<lambda>w said calls w1. \<exists>parts. gemini_answered P self U w parts w1 \<and>
       said = concat (part_texts parts) \<and> calls = map gemini_call_of (part_calls parts)),
     wi_handed = (\<lambda>rs. gemini_push self (gemini_content ''user'' (map gemini_response_part rs)))\<rparr>"

interpretation gm_wire: wire_laws "quiet_exchange P U" "gemini_wire P self U" U
proof
  fix w said calls w1
  assume quiet: "quiet_exchange P U" and "wi_answered (gemini_wire P self U) w said calls w1"
  then obtain parts where answered: "gemini_answered P self U w parts w1"
      and parts: "said = concat (part_texts parts)" "calls = map gemini_call_of (part_calls parts)"
    by (auto simp: gemini_wire_def)
  note gemini_turn_ok [where P = P and self = self and w = w and model = "su_model U" and key = "su_key U" and
      tools = "su_registry U" and callbacks = "su_callbacks U" and cancel = "su_cancel U" and
      instruction = "su_instruction U"]
  from this answered quiet parts show "wi_turn (gemini_wire P self U) w = (Ret (good_turn said calls), w1)"
    unfolding gemini_answered_def quiet_exchange_def gemini_wire_def wire.simps by blast
qed (simp_all add: gemini_wire_def gemini_provider_def gemini_start_turn_def gemini_continue_turn_def gemini_push_def
    modify_obj_def)

section \<open>Properties\<close>

definition built_in_wires ::
    "'w platform \<Rightarrow> ('w, deepseek_object) ref_to \<Rightarrow> ('w, openrouter_object) ref_to \<Rightarrow> ('w, gemini_object) ref_to \<Rightarrow>
     'w exchange \<Rightarrow> 'w wire list" where
  "built_in_wires P ds op gm U = [deepseek_wire P ds U, openrouter_wire P op U, gemini_wire P gm U]"

lemma built_in_wire_laws: "W \<in> set (built_in_wires P ds op gm U) \<Longrightarrow> wire_laws (quiet_exchange P U) W U"
  using ds_wire.wire_laws_axioms or_wire.wire_laws_axioms gm_wire.wire_laws_axioms
  by (auto simp: built_in_wires_def)

text \<open>C7: from the wire to the answer. A prompt of a session over DeepSeek, OpenRouter or Gemini implements
  the dialogue with its server: when the server answers the request for the current history with streams
  that ask for tools, in at most the configured number of rounds, and then with a last stream, the tools
  of each round run in order, each request carries the whole history with every result, the consumer
  gets every piece of text in order, and the result of the prompt is the text of the last stream.\<close>

theorem prompt_implements_dialogue:
  assumes "quiet_exchange P U" and "U = exchange_of s callbacks cancel"
    and "W \<in> set (built_in_wires P ds op gm U)" and "prompt_ready s (wi_provider W)"
    and "p_trim_history (wi_provider W) (cf_max_history_entries (se_config s)) w = (Ret (), w1)"
    and "dialogue W (session_registry s) (se_confirm s) cancel n (wi_opened W said w1) answer w2"
    and "n \<le> nat (cf_max_tool_rounds (se_config s))" and "cf_max_tool_rounds (se_config s) < int_max"
  shows "prompt said callbacks cancel (s, w) = (Ret (api_success answer), (s, w2))"
proof -
  have quiet: "never_set cancel" "cb_on_progress callbacks = None"
    using assms(1,2) by (auto simp: quiet_exchange_def exchange_of_def)
  from wire_laws.world_prompt_dialogue [OF built_in_wire_laws [OF assms(3)] assms(1,2) quiet assms(5-8)] show ?thesis
    using prompt_on_world [OF assms(4)] by simp
qed

text \<open>A server that answers the first request (one message) with a tool call and the next (three messages) with text.\<close>

definition talk_events :: "(string \<times> json) list" where
  "talk_events =
    [(''a'', delta_event [(''tool_calls'', JArr [JObj [(''index'', JInt 0), (''id'', JStr ''c1''),
        (''function'', JObj [(''name'', JStr ''f''), (''arguments'', JStr ''{}'')])]])]),
     (''b'', delta_event [(''content'', JStr ''seven'')])]"

definition talk_dump :: "json \<Rightarrow> string" where
  "talk_dump j = (case field j ''messages'' of Some (JArr [_]) \<Rightarrow> ''1'' | Some (JArr [_, _, _]) \<Rightarrow> ''3'' | _ \<Rightarrow> ''x'')"

definition talk_stream :: "string \<Rightarrow> transfer_event list" where
  "talk_stream ev = [Ev_headers 200, Ev_data (''data: '' @ ev @ [lf, lf])]"

definition talk_platform :: "'w platform" where
  "talk_platform = demo_platform\<lparr>pf_json := json_ref talk_events talk_dump,
     pf_client := \<lambda>_. plain_http [(''1'', talk_stream ''a'', status_only 200), (''3'', talk_stream ''b'', status_only 200)]\<rparr>"

definition seven_tool :: "(deepseek_object \<times> nat) tool" where
  "seven_tool = \<lparr>t_definition = \<lparr>td_name = ''f'', td_description = [], td_parameter_schema = JObj []\<rparr>,
     t_requires_confirmation = (\<lambda>_. False),
     t_execute = (\<lambda>_ _ (s, k). (Ret (tool_success (JInt 7)), (s, Suc k)))\<rparr>"

definition talk_session :: "(deepseek_object \<times> nat) session" where
  "talk_session = (new_session default_config)\<lparr>se_tools := Some [(''f'', seven_tool)],
     se_provider := Some (deepseek_provider talk_platform first_obj), se_api_key := ''k'', se_active_model := ''m''\<rparr>"

definition talk_object :: "json list \<Rightarrow> deepseek_object" where
  "talk_object ms = (new_deepseek ''e'')\<lparr>ds_messages := ms\<rparr>"

lemma talk_laws: "json_laws (pf_json talk_platform)"
  by (simp add: talk_platform_def json_ref.json_laws_axioms)

lemma talk_answers:
  assumes "ev = ''a'' \<and> hq_body request = ''1'' \<or> ev = ''b'' \<and> hq_body request = ''3''"
  shows "answers_with (pf_client talk_platform ep) request w [ev] w"
  unfolding answers_with_def
  by (rule exI [of _ 200], rule exI [of _ "[Ev_data (''data: '' @ ev @ [lf, lf])]"],
      rule exI [of _ "\<lparr>hr_status = 200, hr_headers = [], hr_body = []\<rparr>"],
      rule exI [of _ "[([lf], [ev])]"], rule exI [of _ None])
    (use assms in \<open>auto simp: talk_platform_def talk_stream_def plain_http_def status_only_def stream_ok_def stream_text_def
      stream_payloads_def eol_ok_def frame_ok_def plain_line_def sse_frame_def payload_def lf_def cr_def\<close>)

definition talk_call :: call_state where
  "talk_call = \<lparr>cs_id = JStr ''c1'', cs_type = JStr ''function'', cs_name = JStr ''f'', cs_arguments = ''{}''\<rparr>"

lemma talk_content:
  "events_content (pf_json talk_platform) packet_content [''a''] =
    Some ([], [\<lparr>fr_index = 0, fr_id = Some (JStr ''c1''), fr_type = None, fr_name = Some (JStr ''f''), fr_arguments = Some ''{}''\<rparr>])"
  "events_content (pf_json talk_platform) packet_content [''b''] = Some ([''seven''], [])"
  by (simp_all add: events_content_def event_content_def talk_platform_def json_ref_def talk_events_def delta_event_def
      packet_content_def delta_content_def fragment_of_def fragment_index_def Let_def)

lemma talk_apply: "fold apply_fragment
    [\<lparr>fr_index = 0, fr_id = Some (JStr ''c1''), fr_type = None, fr_name = Some (JStr ''f''), fr_arguments = Some ''{}''\<rparr>] [] =
    [talk_call]"
  by (simp add: talk_call_def apply_fragment_def grown_def blank_state_def update_call_def or_keep_def the_text_def)

lemma talk_dumps: "j_dump (pf_json talk_platform) j = Ret (talk_dump j)"
  by (simp add: talk_platform_def json_ref_def)

definition talk_exchange :: "(deepseek_object \<times> nat) exchange" where
  "talk_exchange = exchange_of talk_session demo_callbacks None"

lemma talk_exchange_simps [simp]:
  "su_key talk_exchange = ''k''" "su_model talk_exchange = ''m''" "su_instruction talk_exchange = []"
  "su_callbacks talk_exchange = demo_callbacks" "su_cancel talk_exchange = None"
  by (simp_all add: talk_exchange_def exchange_of_def talk_session_def new_session_def default_config_def)

lemma talk_assembled:
  "openai_assembled (pf_json talk_platform) packet_content [''a''] [] [talk_call]"
  "openai_assembled (pf_json talk_platform) packet_content [''b''] [''seven''] []"
  unfolding openai_assembled_def talk_content by (simp_all add: talk_apply [simplified] talk_call_def named_call_def)

lemma talk_answered:
  "deepseek_answered talk_platform first_obj talk_exchange (talk_object [m1], k) [] [talk_call]
    (talk_object [m1, assistant_message [] [call_json talk_call]], k)" (is ?one)
  "deepseek_answered talk_platform first_obj talk_exchange (talk_object [m1, m2, m3], k) [''seven''] []
    (talk_object [m1, m2, m3, assistant_message ''seven'' []], k)" (is ?two)
proof -
  note facts = talk_object_def first_obj_def new_deepseek_def talk_dumps talk_dump_def build_deepseek_payload_def
    deepseek_push_def modify_obj_def consume_def demo_callbacks_def
  show ?one
    unfolding deepseek_answered_def
    by (rule exI [of _ "''e''"], rule exI [of _ "''1''"], rule exI [of _ "[''a'']"], rule exI [of _ "(talk_object [m1], k)"],
        intro conjI, simp add: facts, simp add: facts, rule talk_answers, simp add: stream_request_def, rule talk_assembled)
      (simp add: facts)
  show ?two
    unfolding deepseek_answered_def
    by (rule exI [of _ "''e''"], rule exI [of _ "''3''"], rule exI [of _ "[''b'']"], rule exI [of _ "(talk_object [m1, m2, m3], k)"],
        intro conjI, simp add: facts, simp add: facts, rule talk_answers, simp add: stream_request_def, rule talk_assembled)
      (simp add: facts)
qed

theorem prompt_implements_dialogue_witness:
  "prompt ''hi'' demo_callbacks None (talk_session, (new_deepseek ''e'', 0)) =
    (Ret (api_success ''seven''), (talk_session,
      (talk_object [user_message ''hi'', assistant_message [] [call_json talk_call], tool_message ''c1'' ''x'',
         assistant_message ''seven'' []], 1)))"
proof -
  let ?P = "talk_platform :: (deepseek_object \<times> nat) platform"
  let ?W = "deepseek_wire ?P first_obj talk_exchange"
  let ?d = "dialogue ?W (session_registry talk_session) None None"
  let ?h = "[user_message ''hi'', assistant_message [] [call_json talk_call], tool_message ''c1'' ''x'']"
  let ?close = "(talk_object (?h @ [assistant_message ''seven'' []]), 1)"
  have call: "call_of (pf_json ?P) talk_call = \<lparr>cl_id = ''c1'', cl_name = ''f'', cl_arguments = JObj []\<rparr>"
    by (simp add: call_of_def talk_call_def parsed_arguments_def talk_platform_def json_ref_def talk_events_def ref_throw_def)
  have "wi_answered ?W (talk_object ?h, 1) ''seven'' [] ?close"
    unfolding deepseek_wire_def wire.simps
    by (rule exI [of _ "[''seven'']"], rule exI [of _ "[]"]) (use talk_answered(2) in simp)
  then have two: "?d 0 (talk_object ?h, 1) ''seven'' ?close" by (rule last_answer)
  have one: "wi_answered ?W (talk_object [user_message ''hi''], 0) [] [call_of (pf_json ?P) talk_call]
      (talk_object [user_message ''hi'', assistant_message [] [call_json talk_call]], 0)"
    unfolding deepseek_wire_def wire.simps
    by (rule exI [of _ "[]"], rule exI [of _ "[talk_call]"]) (use talk_answered(1) in simp)
  have talked: "?d (Suc 0) (talk_object [user_message ''hi''], 0) ''seven'' ?close"
    by (rule tool_round [OF one _ _ _ two,
          where rs = "[\<lparr>rp_call_id = ''c1'', rp_name = ''f'', rp_result = JInt 7\<rparr>]" and
            ?w2.0 = "(talk_object [user_message ''hi'', assistant_message [] [call_json talk_call]], 1)"])
      (simp_all add: call answer_call_def execute_tool_def find_tool_def talk_session_def session_registry_def seven_tool_def
        tool_success_def call_response_def push_tool_response_def talk_dumps talk_dump_def deepseek_wire_def
        talk_object_def deepseek_push_def modify_obj_def first_obj_def new_deepseek_def)
  have opened: "wi_opened ?W ''hi'' (new_deepseek ''e'', 0) = (talk_object [user_message ''hi''], 0)"
    by (simp add: deepseek_wire_def deepseek_opened_def talk_object_def deepseek_push_def modify_obj_def first_obj_def
        new_deepseek_def)
  have trimmed: "p_trim_history (wi_provider ?W) (cf_max_history_entries (se_config talk_session)) (new_deepseek ''e'', 0) =
      (Ret (), (new_deepseek ''e'', 0))"
    by (simp add: deepseek_wire_def deepseek_provider_def deepseek_trim_history_def read_obj_def modify_obj_def first_obj_def
        new_deepseek_def history_keep_from_def erase_excess_eq)
  have quiet: "quiet_exchange ?P talk_exchange"
    by (simp add: quiet_exchange_def talk_laws demo_progress demo_returns)
  have ready: "prompt_ready talk_session (wi_provider ?W)"
    by (simp add: prompt_ready_def talk_session_def new_session_def deepseek_wire_def)
  have "se_confirm talk_session = None" "cf_max_tool_rounds (se_config talk_session) = 12"
    by (simp_all add: talk_session_def new_session_def default_config_def)
  with talked show ?thesis
    using prompt_implements_dialogue [OF quiet talk_exchange_def _ ready trimmed, of first_obj undefined undefined
        "Suc 0" "''hi''" "''seven''" ?close]
    by (simp add: opened int_max_def built_in_wires_def)
qed

end
