(* ===== verification/Completion.thy ===== *)
theory Completion
  imports Workflow
begin

text \<open>
  That a workflow gets done. The order and the scope of the stages are facts of \<open>Orchestrator\<close> about any
  host; here the host is willing: no thread cancels, the callbacks return and let the workflow proceed,
  and each agent returns a completed result that depends on its context only. A condition \<open>K\<close> on the rest
  of the world says what the agents and the host rely on and keep. Then the workflow is the
  fixed line of four agents of a reference function, each fed with the outputs before it.
\<close>

section \<open>Actions that return within a condition\<close>

definition gives :: "('w \<Rightarrow> bool) \<Rightarrow> ('w, 'a) act \<Rightarrow> ('a \<Rightarrow> bool) \<Rightarrow> bool" where
  "gives I m Q \<longleftrightarrow> (\<forall>w. I w \<longrightarrow> (\<exists>a w1. m w = (Ret a, w1) \<and> I w1 \<and> Q a))"

lemma givesE:
  assumes "gives I m Q" and "I w"
  obtains a w1 where "m w = (Ret a, w1)" and "I w1" and "Q a"
  using assms unfolding gives_def by blast

lemma gives_mono: "gives I m Q \<Longrightarrow> (\<And>a. Q a \<Longrightarrow> R a) \<Longrightarrow> gives I m R"
  unfolding gives_def by meson

lemma gives_ret [intro, simp]: "Q a \<Longrightarrow> gives I (ret a) Q" "Q a \<Longrightarrow> gives I (Pair (Ret a)) Q"
  by (simp_all add: gives_def)

lemma gives_bindA:
  assumes "gives I m Q" and "\<And>a. Q a \<Longrightarrow> gives I (k a) R"
  shows "gives I (bindA m k) R"
  unfolding gives_def
proof (intro allI impI)
  fix w assume "I w"
  with assms(1) obtain a w1 where m: "m w = (Ret a, w1)" and "I w1" "Q a" by (rule givesE)
  from assms(2) [OF this(3)] this(2) obtain b w2 where "k a w1 = (Ret b, w2)" "I w2" "R b" by (rule givesE)
  with m show "\<exists>b w2. bindA m k w = (Ret b, w2) \<and> I w2 \<and> R b" by simp
qed

lemma gives_try_any: "gives I m Q \<Longrightarrow> gives I (try_any m h) Q"
  unfolding gives_def try_any_def by fastforce

lemma gives_guarded: "gives I m Q \<Longrightarrow> gives I (guarded_call m) (\<lambda>r. \<exists>a. r = Some a \<and> Q a)"
  unfolding guarded_call_def by (rule gives_try_any, erule gives_bindA) auto

section \<open>A willing host\<close>

definition calm :: "('h \<Rightarrow> bool) \<Rightarrow> 'h oworld \<Rightarrow> bool" where
  "calm K w \<longleftrightarrow> \<not> ov_cancel_requested (fst w) \<and> K (snd w)"

definition willing :: "('h \<Rightarrow> bool) \<Rightarrow> ('h oworld \<Rightarrow> 'h oworld) \<Rightarrow> 'h oworld orchestration_callbacks \<Rightarrow> bool" where
  "willing K env callbacks \<longleftrightarrow>
     (\<forall>w. calm K w \<longrightarrow> calm K (env w)) \<and>
     (\<forall>f. oc_on_stage_started callbacks = Some f \<longrightarrow> (\<forall>pid. gives (calm K) (f pid) (\<lambda>_. True))) \<and>
     (\<forall>f. oc_on_stage_finished callbacks = Some f \<longrightarrow> (\<forall>pid r. gives (calm K) (f pid r) (\<lambda>_. True))) \<and>
     (\<forall>f. oc_before_next_stage callbacks = Some f \<longrightarrow> (\<forall>pid r a. gives (calm K) (f pid r a) (\<lambda>d. d = Proceed)))"

text \<open>Runtimes that complete the contexts of the workflow with the result of \<open>work\<close>.\<close>

definition agents_do ::
    "('h \<Rightarrow> bool) \<Rightarrow> orchestration_task \<Rightarrow> (agent_profile \<Rightarrow> ('h oworld, 'h oworld iruntime option) act) \<Rightarrow>
     'h oworld stream_callbacks \<Rightarrow> 'h oworld confirmation_fn \<Rightarrow> (agent_context \<Rightarrow> agent_result) \<Rightarrow> bool" where
  "agents_do K task factory callbacks confirm work \<longleftrightarrow>
     (\<forall>profile \<in> set standard_profiles. gives (calm K) (factory profile) (\<lambda>built. \<exists>rt. built = Some rt \<and>
        (\<forall>produced. let ctxt = stage_context task (ap_id profile) profile produced in
           gives (calm K) (ir_execute rt ctxt callbacks confirm) (\<lambda>r. r = work ctxt) \<and>
           ar_status (work ctxt) = Completed)))"

lemma gives_set_active: "gives (calm K) (set_orch (\<lambda>v. v\<lparr>ov_active := b\<rparr>)) (\<lambda>_. True)"
  by (auto simp: gives_def set_orch_def calm_def)

lemma gives_load_cancel: "willing K env callbacks \<Longrightarrow> gives (calm K) (load_cancel env) (\<lambda>c. \<not> c)"
  unfolding gives_def willing_def load_cancel_def by (auto simp: calm_def Let_def)

lemma gives_execute_stage:
  assumes "willing K env callbacks" and "gives (calm K) (ir_execute runtime ctxt (oc_runtime callbacks) confirm) (\<lambda>r. r = result)"
  shows "gives (calm K) (execute_stage env callbacks confirm pid runtime ctxt) (\<lambda>r. r = Some result)"
proof -
  have started: "gives (calm K) (call_opt (oc_on_stage_started callbacks) pid) (\<lambda>_. True)"
    using assms(1) by (cases "oc_on_stage_started callbacks") (auto simp: willing_def)
  have run: "gives (calm K)
      (bindA (call_opt (oc_on_stage_started callbacks) pid) (\<lambda>_.
       bindA (load_cancel env) (\<lambda>c.
         if c then ret None
         else bindA (ir_execute runtime ctxt (oc_runtime callbacks) confirm) (\<lambda>result. ret (Some result)))))
      (\<lambda>r. r = Some result)"
    by (rule gives_bindA [OF started], rule gives_bindA [OF gives_load_cancel [OF assms(1)]], simp,
        rule gives_bindA [OF assms(2)], simp)
  show ?thesis
    unfolding execute_stage_def
    by (rule gives_bindA [OF gives_set_active], rule gives_bindA [OF gives_try_any [OF run]],
        rule gives_bindA [OF gives_set_active], simp)
qed

definition next_flow ::
    "string \<times> artifact_type \<Rightarrow> agent_result \<Rightarrow> orchestration_result \<Rightarrow> orchestration_result" where
  "next_flow stage result flow = flow\<lparr>or_executions := or_executions flow @ [\<lparr>er_profile_id = fst stage, er_result = result\<rparr>],
     or_artifacts := or_artifacts flow @ stage_outputs stage result\<rparr>"

lemma gives_finish_stage:
  assumes "willing K env callbacks" and "ar_status result = Completed"
  shows "gives (calm K) (finish_stage env callbacks last_stage stage result flow) (\<lambda>r. r = (True, next_flow stage result flow))"
proof -
  have finished: "gives (calm K) (guarded_call (call_finished callbacks pid result)) (\<lambda>r. \<exists>a. r = Some a \<and> True)" for pid
    by (rule gives_guarded)
      (use assms(1) in \<open>cases "oc_on_stage_finished callbacks"; auto simp: call_finished_def willing_def\<close>)
  have before: "gives (calm K) (guarded_call (f pid result a)) (\<lambda>r. \<exists>d. r = Some d \<and> d = Proceed)"
    if "oc_before_next_stage callbacks = Some f" for f pid a
    by (rule gives_guarded) (use assms(1) that in \<open>simp add: willing_def\<close>)
  note load = gives_load_cancel [OF assms(1)]
  show ?thesis
  proof (cases "if last_stage then None else oc_before_next_stage callbacks")
    case None
    show ?thesis
      unfolding finish_stage_def Let_def None option.case
      by (rule gives_bindA [OF finished], clarsimp split del: if_split, rule gives_bindA [OF load], simp add: assms(2) next_flow_def)
  next
    case (Some f)
    then have f: "oc_before_next_stage callbacks = Some f" by (simp split: if_splits)
    show ?thesis
      unfolding finish_stage_def Let_def Some option.case
      by (rule gives_bindA [OF finished], clarsimp split del: if_split, rule gives_bindA [OF load], simp add: assms(2),
          rule gives_bindA [OF before [OF f]], clarsimp, rule gives_bindA [OF load], simp add: next_flow_def)
  qed
qed

section \<open>The reference workflow\<close>

fun assembled ::
    "orchestration_task \<Rightarrow> (agent_context \<Rightarrow> agent_result) \<Rightarrow> ((string \<times> artifact_type) \<times> agent_profile) list \<Rightarrow>
     orchestration_result \<Rightarrow> orchestration_result" where
  "assembled task work [] flow =
     stop_with flow Orch_completed (ar_summary (er_result (last (or_executions flow)))) (or_error flow)"
| "assembled task work ((stage, profile) # rest) flow =
     assembled task work rest
       (next_flow stage (work (stage_context task (fst stage) profile (or_artifacts flow))) flow)"

lemma standard_ids:
  "ap_id explorer = ''explorer''" "ap_id planner = ''planner''" "ap_id coder = ''coder''" "ap_id reviewer = ''reviewer''"
  by (simp_all add: standard_defs)

lemma gives_run_stages:
  assumes "willing K env callbacks" and "agents_do K task factory (oc_runtime callbacks) confirm work"
    and "\<And>stage profile. (stage, profile) \<in> set staged \<Longrightarrow> profile \<in> set standard_profiles \<and> fst stage = ap_id profile"
  shows "gives (calm K) (run_stages env factory task callbacks confirm staged flow) (\<lambda>r. r = assembled task work staged flow)"
  using assms(3)
proof (induction staged arbitrary: flow)
  case Nil
  show ?case by simp
next
  case (Cons sp rest)
  obtain stage profile where sp: "sp = (stage, profile)" by (cases sp)
  let ?ctxt = "stage_context task (fst stage) profile (or_artifacts flow)"
  have profile: "profile \<in> set standard_profiles" "fst stage = ap_id profile" using Cons.prems [of stage profile] sp by simp_all
  have built: "gives (calm K) (guarded_call (factory profile)) (\<lambda>b. \<exists>rt. b = Some (Some rt) \<and>
      gives (calm K) (ir_execute rt ?ctxt (oc_runtime callbacks) confirm) (\<lambda>r. r = work ?ctxt) \<and>
      ar_status (work ?ctxt) = Completed)"
    by (rule gives_mono [OF gives_guarded]) (use assms(2) profile in \<open>auto simp: agents_do_def Let_def\<close>)
  have rest: "gives (calm K) (run_stages env factory task callbacks confirm rest flow)
      (\<lambda>r. r = assembled task work rest flow)" for flow
    by (rule Cons.IH, rule Cons.prems) simp
  show ?case
    unfolding sp run_stages.simps Let_def assembled.simps
    by (rule gives_bindA [OF gives_load_cancel [OF assms(1)]], simp, rule gives_bindA [OF built], clarsimp,
        rule gives_bindA [OF gives_execute_stage [OF assms(1)]], assumption, clarsimp,
        rule gives_bindA [OF gives_finish_stage [OF assms(1)]], assumption, clarsimp, rule rest)
qed

lemma assembled_standard:
  assumes "re = work (stage_context task ''explorer'' explorer [])"
    and "rp = work (stage_context task ''planner'' planner (stage_outputs (stages ! 0) re))"
    and "rc = work (stage_context task ''coder'' coder (stage_outputs (stages ! 0) re @ stage_outputs (stages ! 1) rp))"
    and "rr = work (stage_context task ''reviewer'' reviewer
      (stage_outputs (stages ! 0) re @ stage_outputs (stages ! 1) rp @ stage_outputs (stages ! 2) rc))"
  shows "assembled task work
      [(stages ! 0, explorer), (stages ! 1, planner), (stages ! 2, coder), (stages ! 3, reviewer)] empty_workflow =
    \<lparr>or_status = Orch_completed, or_summary = ar_summary rr,
     or_executions = [\<lparr>er_profile_id = ''explorer'', er_result = re\<rparr>, \<lparr>er_profile_id = ''planner'', er_result = rp\<rparr>,
       \<lparr>er_profile_id = ''coder'', er_result = rc\<rparr>, \<lparr>er_profile_id = ''reviewer'', er_result = rr\<rparr>],
     or_artifacts = stage_outputs (stages ! 0) re @ stage_outputs (stages ! 1) rp @ stage_outputs (stages ! 2) rc @
       stage_outputs (stages ! 3) rr, or_error = None\<rparr>"
proof -
  have ids: "fst (stages ! 0) = ''explorer''" "fst (stages ! 1) = ''planner''" "fst (stages ! 2) = ''coder''"
    "fst (stages ! 3) = ''reviewer''" by (simp_all add: stages_def)
  show ?thesis
    by (simp add: next_flow_def empty_workflow_def stop_with_def ids assms(4) [symmetric] assms(3) [symmetric]
        assms(2) [symmetric] assms(1) [symmetric] del: One_nat_def)
qed

lemma willing_workflow:
  assumes "willing K env callbacks" and "agents_do K task factory (oc_runtime callbacks) confirm work"
    and "oo_registry orch = make_registry" and "oo_factory orch = Some factory"
    and "orchestration_valid task" and "4 \<le> ot_max_agent_runs task" and "\<not> ov_executing v" and "K h"
    and "re = work (stage_context task ''explorer'' explorer [])"
    and "rp = work (stage_context task ''planner'' planner (stage_outputs (stages ! 0) re))"
    and "rc = work (stage_context task ''coder'' coder (stage_outputs (stages ! 0) re @ stage_outputs (stages ! 1) rp))"
    and "rr = work (stage_context task ''reviewer'' reviewer
      (stage_outputs (stages ! 0) re @ stage_outputs (stages ! 1) rp @ stage_outputs (stages ! 2) rc))"
  shows "\<exists>v1 h1. orchestrator_execute env orch task callbacks confirm (v, h) =
    (Ret \<lparr>or_status = Orch_completed, or_summary = ar_summary rr,
       or_executions = [\<lparr>er_profile_id = ''explorer'', er_result = re\<rparr>, \<lparr>er_profile_id = ''planner'', er_result = rp\<rparr>,
         \<lparr>er_profile_id = ''coder'', er_result = rc\<rparr>, \<lparr>er_profile_id = ''reviewer'', er_result = rr\<rparr>],
       or_artifacts = stage_outputs (stages ! 0) re @ stage_outputs (stages ! 1) rp @ stage_outputs (stages ! 2) rc @
         stage_outputs (stages ! 3) rr, or_error = None\<rparr>, (v1, h1)) \<and> \<not> ov_executing v1 \<and> K h1"
proof -
  let ?staged = "[(stages ! 0, explorer), (stages ! 1, planner), (stages ! 2, coder), (stages ! 3, reviewer)]"
  let ?v = "v\<lparr>ov_executing := True, ov_cancel_requested := False\<rparr>"
  have start: "calm K (?v, h)" using assms(8) by (simp add: calm_def)
  have stages: "gives (calm K) (run_stages env factory task callbacks confirm ?staged empty_workflow)
      (\<lambda>r. r = assembled task work ?staged empty_workflow)"
    by (rule gives_run_stages [OF assms(1,2)]) (auto simp: standard_profiles_def stages_def standard_ids)
  obtain w1 where ran: "run_stages env factory task callbacks confirm ?staged empty_workflow (?v, h) =
      (Ret (assembled task work ?staged empty_workflow), w1)" and "calm K w1"
    by (rule givesE [OF stages start]) metis
  then obtain v1 h1
    where run: "run_stages env factory task callbacks confirm ?staged empty_workflow (?v, h) =
      (Ret (assembled task work ?staged empty_workflow), (v1, h1))" and "K h1"
    by (cases w1) (simp add: calm_def del: run_stages.simps assembled.simps)
  have "length stages \<le> ot_max_agent_runs task" using assms(6) by (simp add: stages_def)
  then show ?thesis
    using assms(3-5,7) run \<open>K h1\<close> unfolding assembled_standard [OF assms(9-12)]
    by (simp add: orchestrator_execute_def exclusively_def run_workflow_def quick_profiles set_orch_def finallyA_def
        del: run_stages.simps)
qed

section \<open>Property\<close>

text \<open>C5: a workflow gets done. When no thread cancels, the callbacks return and let the workflow proceed, the
  runtimes complete the contexts of the workflow, and all of them keep what they rely on, an idle
  orchestrator over the standard registry completes a valid task with a budget of four runs: the explorer,
  the planner, the coder and the reviewer each run once, on the outputs of the ones before, the result has
  the four results, all their outputs in order and the summary of the reviewer, and the orchestrator is
  free again.\<close>

theorem workflow_completes:
  assumes "willing K env callbacks" and "agents_do K task factory (oc_runtime callbacks) confirm work"
    and "oo_registry orch = make_registry" and "oo_factory orch = Some factory"
    and "orchestration_valid task" and "4 \<le> ot_max_agent_runs task" and "\<not> ov_executing v" and "K h"
    and "re = work (stage_context task ''explorer'' explorer [])"
    and "rp = work (stage_context task ''planner'' planner (stage_outputs (stages ! 0) re))"
    and "rc = work (stage_context task ''coder'' coder (stage_outputs (stages ! 0) re @ stage_outputs (stages ! 1) rp))"
    and "rr = work (stage_context task ''reviewer'' reviewer
      (stage_outputs (stages ! 0) re @ stage_outputs (stages ! 1) rp @ stage_outputs (stages ! 2) rc))"
  shows "\<exists>v1 h1. orchestrator_execute env orch task callbacks confirm (v, h) =
    (Ret \<lparr>or_status = Orch_completed, or_summary = ar_summary rr,
       or_executions = [\<lparr>er_profile_id = ''explorer'', er_result = re\<rparr>, \<lparr>er_profile_id = ''planner'', er_result = rp\<rparr>,
         \<lparr>er_profile_id = ''coder'', er_result = rc\<rparr>, \<lparr>er_profile_id = ''reviewer'', er_result = rr\<rparr>],
       or_artifacts = stage_outputs (stages ! 0) re @ stage_outputs (stages ! 1) rp @ stage_outputs (stages ! 2) rc @
         stage_outputs (stages ! 3) rr, or_error = None\<rparr>, (v1, h1)) \<and> \<not> ov_executing v1 \<and> K h1"
  by (rule willing_workflow [OF assms])

text \<open>The runtimes that complete at once do any work that only names the profile.\<close>

definition quick_work :: "agent_context \<Rightarrow> agent_result" where
  "quick_work ctxt = \<lparr>ar_status = Completed, ar_summary = ap_id (ac_profile ctxt), ar_artifacts = [], ar_error = None\<rparr>"

definition named_factory :: "agent_profile \<Rightarrow> (nat oworld, nat oworld iruntime option) act" where
  "named_factory profile = ret (Some \<lparr>
     ir_execute = (\<lambda>ctxt _ _ (v, n). (Ret (quick_work ctxt), (v, Suc n))), ir_cancel = ret ()\<rparr>)"

theorem workflow_completes_witness:
  "\<exists>flow w1. orchestrator_execute id (quick_orchestrator\<lparr>oo_factory := Some named_factory\<rparr>) quick_task quick_callbacks None
      (free_vars, 0) = (Ret flow, w1) \<and> or_status flow = Orch_completed \<and> or_summary flow = ''reviewer'' \<and>
    map ca_content (or_artifacts flow) = [''explorer'', ''planner'', ''coder'', ''reviewer'']"
proof -
  let ?orch = "quick_orchestrator\<lparr>oo_factory := Some named_factory\<rparr>"
  have willing: "willing (\<lambda>_. True) id quick_callbacks" by (simp add: willing_def quick_callbacks_def)
  have able: "agents_do (\<lambda>_. True) quick_task named_factory (oc_runtime quick_callbacks) None quick_work"
    by (simp add: agents_do_def named_factory_def gives_def calm_def quick_work_def Let_def)
  have orch: "oo_registry ?orch = make_registry" "oo_factory ?orch = Some named_factory"
    by (simp_all add: quick_orchestrator_def)
  have runs: "4 \<le> ot_max_agent_runs quick_task" and idle: "\<not> ov_executing free_vars"
    by (simp_all add: quick_task_def free_vars_def)
  from workflow_completes [OF willing able orch quick_valid(1) runs idle TrueI refl refl refl refl, of 0] show ?thesis
    by (auto simp: quick_work_def stage_context_def stage_outputs_def stages_def standard_defs)
qed

end
