(* ===== verification/Unset_Flag.thy ===== *)
theory Unset_Flag
  imports Dialogue Turn_Steps
begin

text \<open>
  A cancellation flag that stays unset might as well not be there. \<open>as_if I m m'\<close> says that within the
  condition \<open>I\<close> the action \<open>m\<close> does what \<open>m'\<close> does and leaves the condition true. It is proved for every
  operation of the code that is given a flag, from the wait of the retry loop to the three providers
  and to the prompt of a session, with no flag on the other side.
\<close>

section \<open>Actions that agree within a condition\<close>

definition holds :: "('w \<Rightarrow> bool) \<Rightarrow> 'w \<Rightarrow> 'w \<Rightarrow> bool" where
  "holds I w w' \<longleftrightarrow> (I w \<longrightarrow> I w')"

interpretation world_holds: world_relation "holds I" for I
  by unfold_locales (auto simp: holds_def)

lemma on_world_holds: "on_world (holds I) = holds (\<lambda>s. I (snd s))"
  by (auto simp: on_world_def holds_def fun_eq_iff)

definition as_if :: "('w \<Rightarrow> bool) \<Rightarrow> ('w, 'a) act \<Rightarrow> ('w, 'a) act \<Rightarrow> bool" where
  "as_if I m m' \<longleftrightarrow> (\<forall>w. I w \<longrightarrow> m w = m' w \<and> I (snd (m' w)))"

lemma as_ifD: "as_if I m m' \<Longrightarrow> I w \<Longrightarrow> m w = m' w" "as_if I m m' \<Longrightarrow> I w \<Longrightarrow> m' w = (r, w1) \<Longrightarrow> I w1"
  unfolding as_if_def by (blast, metis snd_conv)

lemma as_if_refl: "within (holds I) m \<Longrightarrow> as_if I m m"
  by (auto simp: as_if_def within_def holds_def)

lemma as_if_world: "within (on_world (holds I)) m \<Longrightarrow> as_if (\<lambda>s. I (snd s)) m m"
  unfolding on_world_holds by (rule as_if_refl)

lemma as_if_ret [intro, simp]: "as_if I (ret a) (ret a)" "as_if I (lift_out r) (lift_out r)" "as_if I (readA f) (readA f)"
  "as_if I (Pair (Ret a)) (Pair (Ret a))"
  by (simp_all add: as_if_def)

lemma as_if_bindA:
  assumes "as_if I m m'" and "\<And>a. as_if I (k a) (k' a)"
  shows "as_if I (bindA m k) (bindA m' k')"
  unfolding as_if_def
proof (intro allI impI)
  fix w assume w: "I w"
  obtain r w1 where m': "m' w = (r, w1)" by (cases "m' w")
  have "m w = (r, w1)" and w1: "I w1" using as_ifD [OF assms(1) w] m' by simp_all
  moreover have "k a w1 = k' a w1 \<and> I (snd (k' a w1))" for a
    using assms(2) [of a] w1 by (simp add: as_if_def)
  ultimately show "bindA m k w = bindA m' k' w \<and> I (snd (bindA m' k' w))"
    using m' by (cases r) simp_all
qed

lemma as_if_if: "(b \<Longrightarrow> as_if I m m') \<Longrightarrow> (\<not> b \<Longrightarrow> as_if I k k') \<Longrightarrow> as_if I (if b then m else k) (if b then m' else k')"
  by simp

lemma as_if_case_prod: "(\<And>x y. as_if I (k x y) (k' x y)) \<Longrightarrow> as_if I (case p of (x, y) \<Rightarrow> k x y) (case p of (x, y) \<Rightarrow> k' x y)"
  by (cases p) simp

lemma as_if_on_snd: "as_if I m m' \<Longrightarrow> as_if (\<lambda>s. I (snd s)) (on_snd m) (on_snd m')"
  by (auto simp: as_if_def)

lemma as_if_try_std: "as_if I m m' \<Longrightarrow> (\<And>s. as_if I (h s) (h' s)) \<Longrightarrow> as_if I (try_std m h) (try_std m' h')"
  unfolding as_if_def try_std_def by (auto split: prod.splits outcome.splits exn.splits)

lemma as_if_with_local: "as_if (\<lambda>s. I (snd s)) m m' \<Longrightarrow> as_if I (with_local v m) (with_local v m')"
  by (auto simp: as_if_def with_local_def split: prod.splits) (metis snd_conv)

text \<open>The flag is not set as long as the condition holds.\<close>

definition unset :: "('w \<Rightarrow> bool) \<Rightarrow> 'w flag_ptr \<Rightarrow> bool" where
  "unset I cancel \<longleftrightarrow> (\<forall>w. I w \<longrightarrow> load_flag cancel w = (Ret False, w))"

lemma as_if_load: "unset I cancel \<Longrightarrow> as_if I (load_flag cancel) (load_flag None)"
  by (simp add: unset_def as_if_def)

definition calm_host :: "('w \<Rightarrow> bool) \<Rightarrow> 'w platform \<Rightarrow> 'w stream_callbacks \<Rightarrow> 'w flag_ptr \<Rightarrow> bool" where
  "calm_host I P callbacks cancel \<longleftrightarrow> unset I cancel \<and> steady_host (holds I) P callbacks cancel \<and>
     (\<forall>ep req. within (holds I) (h_send (pf_client P ep) req))"

section \<open>The request\<close>

lemma as_if_wait_until:
  assumes "unset I cancel" and "\<And>n w. holds I w (sleep_for S n w)"
  shows "as_if I (wait_until S cancel deadline fuel) (wait_until S None deadline fuel)"
  unfolding as_if_def
proof (intro allI impI)
  show "wait_until S cancel deadline fuel w = wait_until S None deadline fuel w \<and>
      I (snd (wait_until S None deadline fuel w))" if "I w" for w
    using that
  proof (induction fuel arbitrary: w)
    case 0
    then show ?case by (simp add: wait_until.simps [of S _ _ 0])
  next
    case (Suc fuel)
    have "I (sleep_for S 20 w)" using assms(2) [of w 20] Suc.prems by (simp add: holds_def)
    moreover have "load_flag cancel w = (Ret False, w)" using assms(1) Suc.prems by (simp add: unset_def)
    ultimately show ?case
      using Suc.IH [of "sleep_for S 20 w"] Suc.prems by (simp add: wait_until.simps [of S _ _ "Suc fuel"] bindA_apply)
  qed
qed

lemma as_if_run_transfer:
  fixes on_event :: "string \<Rightarrow> ('a stream_vars_scheme \<times> 'w, unit) act"
  assumes "unset I cancel"
    and "\<And>bytes d. as_if (\<lambda>s. I (snd s)) (with_decoder (sse_push (deliver on_event) bytes) d)
      (with_decoder (sse_push (deliver on_event) bytes) d)"
  shows "as_if (\<lambda>s. I (snd s)) (run_transfer cancel on_event status decoder es) (run_transfer None on_event status decoder es)"
proof (induction es arbitrary: status decoder)
  case (Cons e es)
  note load = as_if_on_snd [OF as_if_load [OF assms(1)]]
  have body: "as_if (\<lambda>s. I (snd s)) (modifyA (\<lambda>(v, w). (v\<lparr>sv_error_body := sv_error_body v @ chunk\<rparr>, w)))
      (modifyA (\<lambda>(v :: 'a stream_vars_scheme, w). (v\<lparr>sv_error_body := sv_error_body v @ chunk\<rparr>, w)))" for chunk
    by (auto simp: as_if_def)
  show ?case
    by (cases e) (auto simp del: load_flag_None intro!: as_if_bindA [OF load] as_if_if as_if_bindA [OF body]
        as_if_bindA [OF assms(2)] Cons.IH)
qed simp

lemma as_if_stream_post:
  fixes on_event :: "string \<Rightarrow> (turn_vars \<times> 'w, unit) act"
  assumes "unset I cancel" and "\<And>req. within (holds I) (h_send H req)"
    and "\<And>ev. within (on_world (holds I)) (on_event ev)"
  shows "as_if (\<lambda>s. I (snd s)) (stream_post H path headers body on_event cancel) (stream_post H path headers body on_event None)"
proof -
  have deliver: "within (on_world (holds I)) (deliver on_event ev)" for ev
    unfolding deliver_def by (intro world_holds.turn.within_bindA world_holds.within_write assms(3))
  note decoder = world_holds.turn.within_decoder [OF deliver, THEN as_if_world]
  have clear: "as_if (\<lambda>s. I (snd s)) (modifyA (\<lambda>(v, w). (v\<lparr>sv_error_body := []\<rparr>, w)))
      (modifyA (\<lambda>(v :: turn_vars, w). (v\<lparr>sv_error_body := []\<rparr>, w)))"
    by (auto simp: as_if_def)
  have finish: "as_if (\<lambda>s. I (snd s))
      (case response of
         Response r \<Rightarrow> if hr_status r \<ge> 200 \<and> hr_status r < 300 then with_decoder (sse_finish (deliver on_event)) d else ret d
       | No_response _ \<Rightarrow> ret d)
      (case response of
         Response r \<Rightarrow> if hr_status r \<ge> 200 \<and> hr_status r < 300 then with_decoder (sse_finish (deliver on_event)) d else ret d
       | No_response _ \<Rightarrow> ret d)" for response d
    by (cases response) (auto intro: decoder)
  show ?thesis
    unfolding stream_post_def Let_def
    by (rule as_if_bindA [OF clear], rule as_if_bindA [OF as_if_on_snd [OF as_if_refl [OF assms(2)]]], rule as_if_case_prod,
        rule as_if_bindA [OF as_if_run_transfer [OF assms(1) decoder(1)]], rule as_if_case_prod,
        rule as_if_bindA [OF finish], rule as_if_ret)
qed

lemma as_if_stream_loop:
  fixes request :: "(turn_vars \<times> 'w, http_result) act"
  assumes "unset I cancel" and "waits_within (on_world (holds I) :: turn_vars \<times> 'w \<Rightarrow> _) S cancel on_progress"
    and "as_if (\<lambda>s. I (snd s)) request request'"
  shows "as_if (\<lambda>s. I (snd s))
    (execute_stream_from S H request received error_body cancel on_progress m attempt)
    (execute_stream_from S H request' received error_body None on_progress m attempt)"
proof (induction attempt rule: attempt_induct [of m])
  case (1 attempt)
  note load = as_if_on_snd [OF as_if_load [OF assms(1)]]
  have notice: "as_if (\<lambda>s :: turn_vars \<times> 'w. I (snd s)) (on_snd (call_opt on_progress m)) (on_snd (call_opt on_progress m))" for m
    by (rule as_if_world) (use assms(2) in \<open>simp add: waits_within_def\<close>)
  note delay = world_holds.turn.within_retry_delay [OF assms(2), THEN as_if_world]
  have wait: "as_if (\<lambda>s :: turn_vars \<times> 'w. I (snd s)) (on_snd (wait_until S cancel d f)) (on_snd (wait_until S None d f))" for d f
    by (rule as_if_on_snd [OF as_if_wait_until [OF assms(1)]]) (use assms(2) in \<open>simp add: waits_within_def on_world_def\<close>)
  show ?case
    unfolding execute_stream_from.simps [of S H _ received error_body _ on_progress m attempt]
    by (intro as_if_bindA notice assms(3) load as_if_if delay wait as_if_ret 1) simp_all
qed

section \<open>The turns\<close>

lemma as_if_stream_turn:
  assumes "calm_host I P callbacks cancel" and "\<And>ev. within (on_world (holds I)) (parse ev)"
    and "within (on_world (holds I)) finish"
  shows "as_if I (stream_turn P (pf_client P ep) name path headers request_json parse callbacks cancel finish)
    (stream_turn P (pf_client P ep) name path headers request_json parse callbacks None finish)"
proof -
  have unset: "unset I cancel" and steady: "steady_host (holds I) P callbacks cancel"
    and send: "\<And>req. within (holds I) (h_send (pf_client P ep) req)"
    using assms(1) by (simp_all add: calm_host_def)
  have request: "as_if (\<lambda>s. I (snd s)) (stream_request_body P (pf_client P ep) path headers request_json parse cancel)
      (stream_request_body P (pf_client P ep) path headers request_json parse None)"
    unfolding stream_request_body_def
    by (intro as_if_bindA as_if_ret as_if_stream_post unset send assms(2))
  note loop = as_if_stream_loop [OF unset world_holds.steady_host_turn(1) [OF steady] request]
  have answer: "as_if (\<lambda>s. I (snd s)) (read_answer P (pf_client P ep) name cancel finish response)
      (read_answer P (pf_client P ep) name None finish response)" for response
  proof -
    note load = as_if_on_snd [OF as_if_load [OF unset]]
    have err: "as_if (\<lambda>s. I (snd s)) (on_snd (parse_error J st name body) :: (turn_vars \<times> 'a, api_result) act)
        (on_snd (parse_error J st name body))" for J st body
      by (auto simp: as_if_def parse_error_def try_std_def bindA_def split: outcome.splits exn.splits)
    show ?thesis
      unfolding read_answer_def
      by (cases response) (auto simp del: load_flag_None
          intro!: as_if_bindA [OF load] as_if_if as_if_bindA err as_if_try_std as_if_world [OF assms(3)] as_if_ret)
  qed
  show ?thesis
    unfolding stream_turn_def execute_stream_with_retry_def
    by (intro as_if_with_local as_if_bindA loop answer)
qed

text \<open>The object of a provider is not a part of the condition.\<close>

definition apart :: "('w \<Rightarrow> bool) \<Rightarrow> ('w, 's) ref_to \<Rightarrow> bool" where
  "apart I self \<longleftrightarrow> (\<forall>s w. I w \<longrightarrow> I (obj_put self s w))"

lemma within_modify: "apart I self \<Longrightarrow> within (holds I) (modify_obj self f)"
  by (simp add: apart_def within_def holds_def modify_obj_def)

lemma within_responses:
  "(\<And>m. within (holds I) (push m)) \<Longrightarrow> within (holds I) (forA rs (push_tool_response J push))"
  unfolding push_tool_response_def
  by (intro world_holds.within_forA world_holds.within_bindA world_holds.within_lift_out) blast

lemma within_openai_finish:
  "(\<And>m. within (holds I) (push m)) \<Longrightarrow> within (on_world (holds I)) (openai_finish P push)"
  unfolding openai_finish_def
  by (auto intro!: world_holds.turn.within_bindA world_holds.within_on_snd)

lemma within_gemini_finish:
  "apart I self \<Longrightarrow> within (on_world (holds I)) (gemini_finish P self)"
  unfolding gemini_finish_def gemini_push_def
  by (auto intro!: world_holds.turn.within_bindA world_holds.within_on_snd world_holds.turn.within_if within_modify)

lemma as_if_read_obj [simp, intro]: "as_if I (read_obj self f) (read_obj self f)"
  by (simp add: read_obj_def)

lemma calm_parts:
  assumes "calm_host I P callbacks cancel"
  shows "as_if I (load_flag cancel) (load_flag None)" and "steady_host (holds I) P callbacks cancel"
  using assms by (auto simp: calm_host_def intro: as_if_load simp del: load_flag_None)

lemma as_if_deepseek_execute:
  assumes "calm_host I P callbacks cancel" and "apart I self"
  shows "as_if I (deepseek_execute_turn_request P self key model tools callbacks cancel)
    (deepseek_execute_turn_request P self key model tools callbacks None)"
proof -
  have push: "within (holds I) (deepseek_push self m)" for m
    unfolding deepseek_push_def by (rule within_modify [OF assms(2)])
  note turn = as_if_stream_turn [OF assms(1) world_holds.within_world_parsers(2) [OF calm_parts(2) [OF assms(1)]]
      within_openai_finish [OF push]]
  show ?thesis
    unfolding deepseek_execute_turn_request_def
    by (rule as_if_bindA [OF as_if_read_obj]) (auto simp del: load_flag_None split: option.split
        intro!: as_if_bindA [OF calm_parts(1) [OF assms(1)]] as_if_if as_if_ret as_if_bindA [OF as_if_read_obj] turn)
qed

lemma as_if_openrouter_execute:
  assumes "calm_host I P callbacks cancel" and "apart I self"
  shows "as_if I (openrouter_execute_turn_request P self key model tools callbacks cancel)
    (openrouter_execute_turn_request P self key model tools callbacks None)"
proof -
  have push: "within (holds I) (openrouter_push self m)" for m
    unfolding openrouter_push_def by (rule within_modify [OF assms(2)])
  note turn = as_if_stream_turn [OF assms(1) world_holds.within_world_parsers(3) [OF calm_parts(2) [OF assms(1)]]
      within_openai_finish [OF push]]
  show ?thesis
    unfolding openrouter_execute_turn_request_def openrouter_model_capabilities_def
    by (rule as_if_bindA [OF as_if_read_obj]) (auto simp del: load_flag_None split: option.split
        intro!: as_if_bindA [OF calm_parts(1) [OF assms(1)]] as_if_if as_if_ret as_if_bindA [OF as_if_read_obj]
          as_if_case_prod turn)
qed

lemma as_if_gemini_execute:
  assumes "calm_host I P callbacks cancel" and "apart I self"
  shows "as_if I (gemini_execute_turn_request P self key model instruction tools callbacks cancel)
    (gemini_execute_turn_request P self key model instruction tools callbacks None)"
proof -
  note turn = as_if_stream_turn [OF assms(1) world_holds.within_world_parsers(1) [OF calm_parts(2) [OF assms(1)]]
      within_gemini_finish [OF assms(2)]]
  show ?thesis
    unfolding gemini_execute_turn_request_def
    by (rule as_if_bindA [OF as_if_read_obj]) (auto simp del: load_flag_None split: option.split
        intro!: as_if_bindA [OF calm_parts(1) [OF assms(1)]] as_if_if as_if_ret as_if_bindA [OF as_if_read_obj] turn)
qed

text \<open>What a session asks of its provider.\<close>

definition heeds_only_set ::
    "('w \<Rightarrow> bool) \<Rightarrow> 'w provider \<Rightarrow> 'w stream_callbacks \<Rightarrow> 'w flag_ptr \<Rightarrow> bool" where
  "heeds_only_set I prov callbacks cancel \<longleftrightarrow>
     (\<forall>key model i said reg. as_if I (p_start_turn prov key model i said reg callbacks cancel)
        (p_start_turn prov key model i said reg callbacks None)) \<and>
     (\<forall>key model i rs reg. as_if I (p_continue_turn prov key model i rs reg callbacks cancel)
        (p_continue_turn prov key model i rs reg callbacks None)) \<and>
     (\<forall>n. within (holds I) (p_trim_history prov n))"

lemma deepseek_heeds:
  assumes "calm_host I P callbacks cancel" and "apart I self"
  shows "heeds_only_set I (deepseek_provider P self) callbacks cancel"
proof -
  have push: "within (holds I) (deepseek_push self m)" for m
    unfolding deepseek_push_def by (rule within_modify [OF assms(2)])
  have trim: "within (holds I) (deepseek_trim_history P self n)" for n
    unfolding deepseek_trim_history_def read_obj_def
    by (intro world_holds.within_bindA world_holds.within_readA world_holds.within_lift_out within_modify [OF assms(2)])
  note execute = as_if_deepseek_execute [OF assms]
  show ?thesis
    unfolding heeds_only_set_def deepseek_provider_def provider.simps deepseek_start_turn_def deepseek_continue_turn_def
    by (intro conjI allI trim as_if_bindA as_if_read_obj execute as_if_refl within_responses push
        world_holds.within_if world_holds.within_ret)
qed

lemma openrouter_heeds:
  assumes "calm_host I P callbacks cancel" and "apart I self"
  shows "heeds_only_set I (openrouter_provider P self) callbacks cancel"
proof -
  have push: "within (holds I) (openrouter_push self m)" for m
    unfolding openrouter_push_def by (rule within_modify [OF assms(2)])
  have trim: "within (holds I) (openrouter_trim_history P self n)" for n
    unfolding openrouter_trim_history_def read_obj_def
    by (intro world_holds.within_bindA world_holds.within_readA world_holds.within_lift_out within_modify [OF assms(2)])
  note execute = as_if_openrouter_execute [OF assms] and load = calm_parts(1) [OF assms(1)]
  show ?thesis
    unfolding heeds_only_set_def openrouter_provider_def provider.simps openrouter_start_turn_def
      openrouter_continue_turn_def openrouter_model_capabilities_def Let_def
    by (intro conjI allI trim as_if_bindA [OF load] as_if_if as_if_ret as_if_bindA as_if_read_obj execute as_if_refl
        within_responses push world_holds.within_if world_holds.within_ret)
qed

lemma gemini_heeds:
  assumes "calm_host I P callbacks cancel" and "apart I self"
  shows "heeds_only_set I (gemini_provider P self) callbacks cancel"
proof -
  have push: "within (holds I) (gemini_push self m)" for m
    unfolding gemini_push_def by (rule within_modify [OF assms(2)])
  have trim: "within (holds I) (gemini_trim_history self n)" for n
    unfolding gemini_trim_history_def read_obj_def
    by (intro world_holds.within_bindA world_holds.within_readA world_holds.within_lift_out within_modify [OF assms(2)])
  note execute = as_if_gemini_execute [OF assms]
  show ?thesis
    unfolding heeds_only_set_def gemini_provider_def provider.simps gemini_start_turn_def gemini_continue_turn_def
    by (intro conjI allI trim as_if_bindA execute as_if_refl push)
qed

section \<open>The prompt\<close>

text \<open>Tools that only look whether the flag is set.\<close>

definition tools_heed_only_set ::
    "('w \<Rightarrow> bool) \<Rightarrow> 'w tool_registry \<Rightarrow> 'w confirmation_fn \<Rightarrow> 'w flag_ptr \<Rightarrow> bool" where
  "tools_heed_only_set I registry confirm cancel \<longleftrightarrow>
     (\<forall>name tool arguments. (name, tool) \<in> set registry \<longrightarrow>
        as_if I (t_execute tool arguments (call_context confirm cancel))
          (t_execute tool arguments (call_context confirm None)))"

lemma as_if_execute_tool:
  assumes "tools_heed_only_set I registry confirm cancel"
  shows "as_if I (execute_tool registry name arguments (call_context confirm cancel))
    (execute_tool registry name arguments (call_context confirm None))"
  using assms by (auto simp: execute_tool_def find_tool_def tools_heed_only_set_def split: option.splits dest: map_of_SomeD)

lemma as_if_run_calls:
  assumes "unset I cancel" and "tools_heed_only_set I registry confirm cancel"
    and "\<And>m. within (holds I) (call_opt (cb_on_progress callbacks) m)"
  shows "as_if I (run_calls registry confirm callbacks cancel calls responses)
    (run_calls registry confirm callbacks None calls responses)"
proof (induction calls arbitrary: responses)
  case (Cons call calls)
  show ?case
    unfolding run_calls.simps
    by (intro as_if_bindA [OF as_if_load [OF assms(1)]] as_if_if as_if_ret as_if_bindA [OF as_if_refl [OF assms(3)]]
        as_if_bindA [OF as_if_execute_tool [OF assms(2)]] Cons.IH)
qed simp

lemma as_if_check_turn:
  "unset I cancel \<Longrightarrow> as_if I k k' \<Longrightarrow> as_if I (check_turn cancel turn k) (check_turn None turn k')"
  unfolding check_turn_def by (intro as_if_bindA as_if_load as_if_if as_if_ret)

lemma as_if_tool_loop:
  assumes "unset I cancel" and "tools_heed_only_set I registry confirm cancel"
    and "\<And>m. within (holds I) (call_opt (cb_on_progress callbacks) m)"
    and "\<And>rs. as_if I (continue_turn rs) (continue_turn' rs)"
  shows "as_if I (tool_loop continue_turn registry confirm callbacks cancel m round turn)
    (tool_loop continue_turn' registry confirm callbacks None m round turn)"
proof (induction round arbitrary: turn rule: round_induct [where m = m])
  case (1 round)
  note run = as_if_run_calls [OF assms(1-3)]
  have rest: "as_if I
      (bindA (load_flag cancel) (\<lambda>c. if c then ret api_cancelled
         else bindA (continue_turn rs) (\<lambda>turn'. check_turn cancel turn'
           (tool_loop continue_turn registry confirm callbacks cancel m (round + 1) turn'))))
      (bindA (load_flag None) (\<lambda>c. if c then ret api_cancelled
         else bindA (continue_turn' rs) (\<lambda>turn'. check_turn None turn'
           (tool_loop continue_turn' registry confirm callbacks None m (round + 1) turn'))))"
    if "round + 1 \<le> m" for rs
    by (intro as_if_bindA [OF as_if_load [OF assms(1)]] as_if_if as_if_ret as_if_bindA [OF assms(4)]
        as_if_check_turn [OF assms(1)] 1 that) simp
  show ?case
  proof (cases "round + 1 \<le> m")
    case True
    then show ?thesis
      unfolding tool_loop.simps [of _ _ _ _ _ m round]
      by (intro as_if_if as_if_ret as_if_bindA [OF run])
        (auto simp del: load_flag_None split: option.split intro!: rest as_if_ret)
  qed (simp add: tool_loop.simps [of _ _ _ _ _ m round] as_if_def)
qed

lemma as_if_world_prompt:
  assumes "unset I cancel" and "steady_host (holds I) P callbacks cancel" and "heeds_only_set I prov callbacks cancel"
    and "tools_heed_only_set I (session_registry s) (se_confirm s) cancel"
  shows "as_if I (world_prompt s prov said callbacks cancel) (world_prompt s prov said callbacks None)"
proof -
  have notice: "within (holds I) (call_opt (cb_on_progress callbacks) m)" for m
    using assms(2) by (simp add: steady_host_def)
  have start: "as_if I (p_start_turn prov key model i u reg callbacks cancel) (p_start_turn prov key model i u reg callbacks None)"
    and continue: "as_if I (p_continue_turn prov key model i rs reg callbacks cancel)
      (p_continue_turn prov key model i rs reg callbacks None)"
    and trim: "as_if I (p_trim_history prov n) (p_trim_history prov n)" for key model i u reg rs n
    using assms(3) by (simp_all add: heeds_only_set_def as_if_refl)
  show ?thesis
    unfolding world_prompt_def run_prompt_def Let_def
    by (intro as_if_bindA [OF as_if_load [OF assms(1)]] as_if_if as_if_ret as_if_bindA [OF trim] as_if_bindA [OF start]
        as_if_check_turn [OF assms(1)] as_if_tool_loop [OF assms(1,4) notice] continue)
qed

end
