(* ===== verification/Runtime_Dialogue.thy ===== *)
theory Runtime_Dialogue
  imports Unset_Flag Runtime
begin

text \<open>
  From the task of a runtime to the bytes of the server and back. An execution of \<^verbatim>\<open>AgentRuntime\<close> over a
  built-in provider, whose object is a part of the host and which nobody cancels, implements the
  dialogue with the server: it completes with the text of the last stream.
\<close>

section \<open>A provider of the host\<close>

definition hosted :: "('h, 's) ref_to \<Rightarrow> ('v \<times> 'h, 's) ref_to" where
  "hosted self = \<lparr>obj_get = (\<lambda>(v, h). obj_get self h), obj_put = (\<lambda>s (v, h). (v, obj_put self s h))\<rparr>"

definition uncancelled :: "'h rworld \<Rightarrow> bool" where
  "uncancelled w \<longleftrightarrow> \<not> rv_cancelled (fst w)"

lemma apart_hosted: "apart uncancelled (hosted self)"
  by (auto simp: apart_def uncancelled_def hosted_def)

lemma hosted_ref: "object_ref self \<Longrightarrow> object_ref (hosted self)"
  by (auto simp: object_ref_def hosted_def)

lemma modify_hosted: "modify_obj (hosted self) f (v, h) = (Ret (), (v, obj_put self (f (obj_get self h)) h))"
  by (simp add: modify_obj_def hosted_def)

text \<open>After a reset the history is empty, and there is nothing to trim.\<close>

lemma hosted_reset:
  assumes "W \<in> set (built_in_wires P (hosted ds) (hosted op) (hosted gm) U)"
  shows "\<exists>h1. \<forall>v. p_reset_session (wi_provider W) (v, h) = (Ret (), (v, h1))"
  using assms
  by (auto simp: built_in_wires_def deepseek_wire_def openrouter_wire_def gemini_wire_def deepseek_provider_def
      openrouter_provider_def gemini_provider_def deepseek_reset_session_def openrouter_reset_session_def
      gemini_reset_session_def modify_hosted)

lemma trim_after_reset:
  assumes "object_ref ds" and "object_ref op" and "object_ref gm"
    and "W \<in> set (built_in_wires P (hosted ds) (hosted op) (hosted gm) U)"
    and "p_reset_session (wi_provider W) (v, h) = (Ret (), (v, h1))"
  shows "p_trim_history (wi_provider W) n (v1, h1) = (Ret (), (v1, h1))"
  using assms(4,5) object_ref.get_put [OF assms(1)] object_ref.put_put [OF assms(1)]
    object_ref.get_put [OF assms(2)] object_ref.put_put [OF assms(2)]
    object_ref.get_put [OF assms(3)] object_ref.put_put [OF assms(3)]
  by (auto simp: built_in_wires_def deepseek_wire_def openrouter_wire_def gemini_wire_def deepseek_provider_def
      openrouter_provider_def gemini_provider_def deepseek_reset_session_def openrouter_reset_session_def
      gemini_reset_session_def modify_hosted deepseek_trim_history_def openrouter_trim_history_def
      gemini_trim_history_def read_obj_def hosted_def modify_obj_def history_keep_from_def erase_excess_eq)

lemma hosted_heeds:
  assumes "calm_host uncancelled P callbacks cancel"
    and "W \<in> set (built_in_wires P (hosted ds) (hosted op) (hosted gm) U)"
  shows "heeds_only_set uncancelled (wi_provider W) callbacks cancel"
  using assms(2) deepseek_heeds [OF assms(1) apart_hosted] openrouter_heeds [OF assms(1) apart_hosted]
    gemini_heeds [OF assms(1) apart_hosted]
  by (auto simp: built_in_wires_def deepseek_wire_def openrouter_wire_def gemini_wire_def)

section \<open>The execution\<close>

lemma unset_cancelled: "unset uncancelled (cancelled_flag id)"
  by (simp add: unset_def uncancelled_def cancelled_flag_def load_flag_def)

text \<open>The variables of the runtime when the session starts its prompt.\<close>

definition prompting :: "runtime_vars \<Rightarrow> runtime_vars" where
  "prompting v = v\<lparr>rv_executing := True, rv_active := True, rv_cancelled := False, rv_needs_confirmation := False,
     rv_declined := False\<rparr>"

definition completed_with :: "agent_profile \<Rightarrow> string \<Rightarrow> agent_result" where
  "completed_with profile answer = \<lparr>ar_status = Completed, ar_summary = answer,
     ar_artifacts = [\<lparr>ca_type = Generic, ca_producer = ap_id profile, ca_content = answer\<rparr>], ar_error = None\<rparr>"

lemma runtime_prompt_dialogue:
  assumes "W \<in> set (built_in_wires P (hosted ds) (hosted op) (hosted gm) U)"
    and "s = runtime_session rt (wi_provider W) ctxt registry (step_budget ctxt) confirm"
    and "U = exchange_of s callbacks None" and "quiet_exchange P U"
    and "calm_host uncancelled P callbacks (cancelled_flag id)"
    and "tools_heed_only_set uncancelled registry (Some (runtime_confirm confirm)) (cancelled_flag id)"
    and "int (step_budget ctxt) \<le> int_max"
    and "p_trim_history (wi_provider W) 40 (prompting v, h1) = (Ret (), (prompting v, h1))"
    and "dialogue W registry (Some (runtime_confirm confirm)) None n (wi_opened W said (prompting v, h1)) answer (v3, h3)"
    and "n < step_budget ctxt"
  shows "world_prompt s (wi_provider W) said callbacks (cancelled_flag id) (prompting v, h1) =
      (Ret (api_success answer), (v3, h3)) \<and> \<not> rv_cancelled v3"
proof -
  have fields: "session_registry s = registry" "se_confirm s = Some (runtime_confirm confirm)"
    "cf_max_history_entries (se_config s) = 40" "cf_max_tool_rounds (se_config s) = int (step_budget ctxt - 1)"
    by (simp_all add: assms(2) runtime_session_def session_registry_def)
  have quiet: "cb_on_progress callbacks = None" using assms(3,4) by (simp add: quiet_exchange_def exchange_of_def)
  have bounds: "n \<le> nat (cf_max_tool_rounds (se_config s))" "cf_max_tool_rounds (se_config s) < int_max"
    using assms(7,10) by (auto simp: fields)
  have plain: "world_prompt s (wi_provider W) said callbacks None (prompting v, h1) = (Ret (api_success answer), (v3, h3))"
    by (rule wire_laws.world_prompt_dialogue [OF built_in_wire_laws [OF assms(1)] assms(4,3) never_set_None quiet _ _ bounds])
      (use assms(8,9) fields in simp_all)
  have "as_if uncancelled (world_prompt s (wi_provider W) said callbacks (cancelled_flag id))
      (world_prompt s (wi_provider W) said callbacks None)"
    using as_if_world_prompt [OF unset_cancelled _ hosted_heeds [OF assms(5,1)]] assms(5,6) fields
    by (auto simp: calm_host_def)
  moreover have "uncancelled (prompting v, h1)" by (simp add: uncancelled_def prompting_def)
  ultimately show ?thesis using plain as_ifD by (fastforce simp: uncancelled_def)
qed

lemma guarded_prompt_completes:
  assumes "j_dump J (runtime_prompt ctxt) = Ret said"
    and "world_prompt s prov said callbacks (cancelled_flag id) (v\<lparr>rv_active := True\<rparr>, h1) =
      (Ret (api_success answer), (v3, h3))"
    and "p_reset_session prov (v3\<lparr>rv_active := False\<rparr>, h3) = (Ret (), (v3\<lparr>rv_active := False\<rparr>, h4))"
  shows "guarded_prompt J id s prov ctxt callbacks (v, h1) = (Ret (api_success answer), (v3\<lparr>rv_active := False\<rparr>, h4))"
  using assms
  by (simp add: guarded_prompt_def with_session_guard_def world_finish_def set_vars_def)

lemma world_run_dialogue:
  assumes "p_model_capabilities prov (se_active_model s) (u, h) = (Ret caps, (u, h))"
    and "mc_supports_system_instruction caps" and "mc_supports_tools caps"
    and "\<And>u. p_reset_session prov (u, h) = (Ret (), (u, h1))"
    and "guarded_prompt J id s prov ctxt callbacks
      (u\<lparr>rv_needs_confirmation := False, rv_declined := False, rv_cancelled := False\<rparr>, h1) =
      (Ret (api_success answer), (v4, h4))"
    and "\<not> rv_cancelled v4" and "\<not> rv_needs_confirmation v4" and "\<not> rv_declined v4"
  shows "world_run J id s prov ctxt callbacks (u, h) = (Ret (completed_with (ac_profile ctxt) answer), (v4, h4))"
  using assms
  by (simp add: world_run_def set_vars_def cancelled_flag_def load_flag_def api_success_def runtime_result_def
      completed_with_def)

lemma runtime_dialogue:
  assumes "object_ref ds" and "object_ref op" and "object_ref gm"
    and "W \<in> set (built_in_wires P (hosted ds) (hosted op) (hosted gm) U)"
    and "U = exchange_of (runtime_session rt (wi_provider W) ctxt registry (step_budget ctxt) confirm) callbacks None"
    and "quiet_exchange P U" and "calm_host uncancelled P callbacks (cancelled_flag id)"
    and "tools_heed_only_set uncancelled registry (Some (runtime_confirm confirm)) (cancelled_flag id)"
    and "can_start rt ctxt" and "rt_provider rt = Some (wi_provider W)" and "\<not> rv_executing v"
    and "filter_tools (ac_profile ctxt) (ac_task ctxt) (rt_tools rt) [] [] = Some registry"
    and "p_model_capabilities (wi_provider W) (rt_model rt) (v\<lparr>rv_executing := True\<rparr>, h) =
      (Ret caps, (v\<lparr>rv_executing := True\<rparr>, h))"
    and "mc_supports_system_instruction caps" and "mc_supports_tools caps"
    and "j_dump J (runtime_prompt ctxt) = Ret said"
    and "p_reset_session (wi_provider W) (v, h) = (Ret (), (v, h1))"
    and "dialogue W registry (Some (runtime_confirm confirm)) None n (wi_opened W said (prompting v, h1)) answer (v3, h3)"
    and "n < step_budget ctxt" and "\<not> rv_needs_confirmation v3" and "\<not> rv_declined v3"
    and "p_reset_session (wi_provider W) (v3, h3) = (Ret (), (v3, h4))"
  shows "\<exists>v4. runtime_execute J id rt ctxt callbacks confirm (v, h) =
      (Ret (completed_with (ac_profile ctxt) answer), (v4, h4)) \<and> \<not> rv_executing v4 \<and> \<not> rv_active v4"
proof -
  let ?prov = "wi_provider W" and ?u = "v\<lparr>rv_executing := True\<rparr>"
  let ?s = "runtime_session rt ?prov ctxt registry (step_budget ctxt) confirm"
  note trim = trim_after_reset [OF assms(1-4,17), of 40 "prompting v"]
  have budget: "int (step_budget ctxt) \<le> int_max" using assms(9) by (simp add: can_start_def)
  have reset: "p_reset_session ?prov (u, h) = (Ret (), (u, h1))" for u
    using hosted_reset [OF assms(4), of h] assms(17) by auto
  have last: "p_reset_session ?prov (u, h3) = (Ret (), (u, h4))" for u
    using hosted_reset [OF assms(4), of h3] assms(22) by auto
  have start: "?u\<lparr>rv_needs_confirmation := False, rv_declined := False, rv_cancelled := False\<rparr>\<lparr>rv_active := True\<rparr> = prompting v"
    by (simp add: prompting_def)
  note talk = runtime_prompt_dialogue [OF assms(4) refl assms(5-8) budget trim assms(18,19)]
  have "guarded_prompt J id ?s ?prov ctxt callbacks
      (?u\<lparr>rv_needs_confirmation := False, rv_declined := False, rv_cancelled := False\<rparr>, h1) =
      (Ret (api_success answer), (v3\<lparr>rv_active := False\<rparr>, h4))"
    by (rule guarded_prompt_completes [OF assms(16) _ last]) (use talk start in simp)
  from world_run_dialogue [OF _ assms(14,15) reset this] assms(13,20,21) talk
  have run: "world_run J id ?s ?prov ctxt callbacks (?u, h) =
      (Ret (completed_with (ac_profile ctxt) answer), (v3\<lparr>rv_active := False\<rparr>, h4))"
    by (simp add: runtime_session_def)
  have "execute_checked J id rt ctxt callbacks confirm = world_run J id ?s ?prov ctxt callbacks"
    using assms(9,10,12) by (cases rule: execute_checked_cases [of rt ctxt J id callbacks confirm]) auto
  with run show ?thesis
    by (simp add: runtime_execute_idle [OF assms(11)] try_any_def)
qed

section \<open>Property\<close>

text \<open>C8: from the task to the wire and back. When a runtime over DeepSeek, OpenRouter or Gemini can start a task,
  the model supports instructions and tools, nobody cancels, and the server carries on the dialogue that
  opens with the JSON of the task, in less rounds than the step budget, then the execution completes: its
  result is the text of the last stream as the one artifact of the profile, provided no tool was declined
  or lacked a handler, and the runtime is idle again.\<close>

theorem runtime_implements_dialogue:
  assumes "object_ref ds" and "object_ref op" and "object_ref gm"
    and "W \<in> set (built_in_wires P (hosted ds) (hosted op) (hosted gm) U)"
    and "U = exchange_of (runtime_session rt (wi_provider W) ctxt registry (step_budget ctxt) confirm) callbacks None"
    and "quiet_exchange P U" and "calm_host uncancelled P callbacks (cancelled_flag id)"
    and "tools_heed_only_set uncancelled registry (Some (runtime_confirm confirm)) (cancelled_flag id)"
    and "can_start rt ctxt" and "rt_provider rt = Some (wi_provider W)" and "\<not> rv_executing v"
    and "filter_tools (ac_profile ctxt) (ac_task ctxt) (rt_tools rt) [] [] = Some registry"
    and "p_model_capabilities (wi_provider W) (rt_model rt) (v\<lparr>rv_executing := True\<rparr>, h) =
      (Ret caps, (v\<lparr>rv_executing := True\<rparr>, h))"
    and "mc_supports_system_instruction caps" and "mc_supports_tools caps"
    and "j_dump J (runtime_prompt ctxt) = Ret said"
    and "p_reset_session (wi_provider W) (v, h) = (Ret (), (v, h1))"
    and "dialogue W registry (Some (runtime_confirm confirm)) None n (wi_opened W said (prompting v, h1)) answer (v3, h3)"
    and "n < step_budget ctxt" and "\<not> rv_needs_confirmation v3" and "\<not> rv_declined v3"
  shows "\<exists>v4 h4. runtime_execute J id rt ctxt callbacks confirm (v, h) =
      (Ret (completed_with (ac_profile ctxt) answer), (v4, h4)) \<and> \<not> rv_executing v4 \<and> \<not> rv_active v4"
proof -
  from hosted_reset [OF assms(4), of h3] obtain h4
    where "p_reset_session (wi_provider W) (v3, h3) = (Ret (), (v3, h4))" by blast
  from runtime_dialogue [OF assms this] show ?thesis by blast
qed

text \<open>A runtime without tools over a server that answers with one text.\<close>

type_synonym three_providers = "deepseek_object \<times> openrouter_object \<times> gemini_object \<times> unit"

definition third_obj :: "(three_providers, gemini_object) ref_to" where
  "third_obj = \<lparr>obj_get = (\<lambda>(d, r, g, u). g), obj_put = (\<lambda>g (d, r, _, u). (d, r, g, u))\<rparr>"

lemma third_ref: "object_ref third_obj"
  by unfold_locales (auto simp: third_obj_def)

definition seven_platform :: "'w platform" where
  "seven_platform = talk_platform\<lparr>pf_json := json_ref talk_events (\<lambda>_. ''3'')\<rparr>"

definition seven_runtime :: "three_providers rworld runtime" where
  "seven_runtime = new_runtime (Some (deepseek_provider seven_platform (hosted first_obj))) ''k'' ''m'' []"

definition seven_context :: agent_context where
  "seven_context = \<lparr>ac_profile = explorer, ac_task = \<lparr>at_id = ''t'', at_objective = ''o'', at_working_directory = ''/w'',
     at_inputs = [], at_constraints = \<lparr>tk_max_steps = None, tk_read_only = False, tk_notes = []\<rparr>\<rparr>, ac_artifacts = []\<rparr>"

definition seven_exchange :: "three_providers rworld exchange" where
  "seven_exchange = exchange_of (runtime_session seven_runtime (deepseek_provider seven_platform (hosted first_obj))
     seven_context [] (step_budget seven_context) None) demo_callbacks None"

definition seven_host :: three_providers where
  "seven_host = (new_deepseek ''e'', new_openrouter default_openrouter_config, new_gemini ''e'', ())"

lemma seven_json:
  "json_laws (pf_json seven_platform)" "j_dump (pf_json seven_platform) j = Ret ''3''"
  "openai_assembled (pf_json seven_platform) packet_content [''b''] [''seven''] []"
proof -
  show "json_laws (pf_json seven_platform)" by (simp add: seven_platform_def json_ref.json_laws_axioms)
  show "j_dump (pf_json seven_platform) j = Ret ''3''" by (simp add: seven_platform_def json_ref_def)
  show "openai_assembled (pf_json seven_platform) packet_content [''b''] [''seven''] []"
    by (simp add: openai_assembled_def events_content_def event_content_def seven_platform_def json_ref_def talk_events_def
        delta_event_def packet_content_def delta_content_def fragment_of_def fragment_index_def Let_def)
qed

lemma seven_quiet: "quiet_exchange seven_platform seven_exchange"
  by (simp add: quiet_exchange_def seven_json seven_exchange_def exchange_of_def demo_progress demo_returns)

lemma seven_calm: "calm_host uncancelled seven_platform demo_callbacks (cancelled_flag id)"
  by (auto simp: calm_host_def steady_host_def holds_def within_def seven_platform_def talk_platform_def
      demo_platform_def plain_http_def demo_callbacks_def cancelled_flag_def load_flag_def unset_def uncancelled_def)

lemma seven_answered:
  assumes "ds_client (obj_get self w) = Some ep" and "su_callbacks U = demo_callbacks"
  shows "wi_answered (deepseek_wire seven_platform self U) w ''seven'' []
    (snd (deepseek_push self (assistant_message ''seven'' []) w))"
proof -
  have "answers_with (pf_client seven_platform ep) (stream_request ''/chat/completions'' [bearer key] ''3'') w [''b''] w" for key
    using talk_answers [of "''b''" "stream_request ''/chat/completions'' [bearer key] ''3''"]
    by (simp add: seven_platform_def stream_request_def)
  then have "deepseek_answered seven_platform self U w [''seven''] []
      (snd (deepseek_push self (assistant_message ''seven'' []) w))"
    unfolding deepseek_answered_def using assms
    by (intro exI [of _ ep] exI [of _ "''3''"] exI [of _ "[''b'']"] exI [of _ w])
      (simp add: seven_json consume_def demo_callbacks_def)
  then show ?thesis
    unfolding deepseek_wire_def wire.simps by (intro exI [of _ "[''seven'']"] exI [of _ "[]"]) simp
qed

theorem runtime_implements_dialogue_witness:
  "\<exists>v4 h4. runtime_execute (json_ref [] (\<lambda>_. ''task'')) id seven_runtime seven_context demo_callbacks None
      (idle_vars, seven_host) = (Ret (completed_with explorer ''seven''), (v4, h4)) \<and>
    \<not> rv_executing v4 \<and> \<not> rv_active v4"
proof -
  let ?W = "deepseek_wire seven_platform (hosted first_obj) seven_exchange"
  let ?opened = "wi_opened ?W ''task'' (prompting idle_vars, seven_host)"
  have refs: "object_ref (first_obj :: (three_providers, deepseek_object) ref_to)"
    "object_ref (second_obj :: (three_providers, openrouter_object) ref_to)" "object_ref third_obj"
    by (rule first_obj.object_ref_axioms, rule separate_refs.axioms(2) [OF neighbours.separate_refs_axioms], rule third_ref)
  have wire: "?W \<in> set (built_in_wires seven_platform (hosted first_obj) (hosted second_obj) (hosted third_obj) seven_exchange)"
    by (simp add: built_in_wires_def)
  have provider: "wi_provider ?W = deepseek_provider seven_platform (hosted first_obj)" by (simp add: deepseek_wire_def)
  have start: "can_start seven_runtime seven_context" and budget: "0 < step_budget seven_context"
    by (simp_all add: can_start_def seven_runtime_def seven_context_def new_runtime_def task_valid_def only_blanks_def
        blank_char_def step_budget_def explorer_def make_read_only_profile_def default_profile_def bindings_ok_def int_max_def)
  have push: "snd (deepseek_push (hosted first_obj) m (u, d, r)) = (u, d\<lparr>ds_messages := ds_messages d @ [m]\<rparr>, r)"
    for m d and u :: runtime_vars and r :: "openrouter_object \<times> gemini_object \<times> unit"
    by (simp add: deepseek_push_def modify_hosted) (simp add: first_obj_def)
  have history: "ds_messages (obj_get (hosted first_obj) (u, d, r)) = ds_messages d"
    for d and u :: runtime_vars and r :: "openrouter_object \<times> gemini_object \<times> unit"
    by (simp add: hosted_def first_obj_def)
  have "\<exists>d. ?opened = (prompting idle_vars, d, snd seven_host) \<and> ds_client d = Some ''e''"
    by (cases "su_instruction seven_exchange = []")
      (simp_all add: deepseek_wire_def deepseek_opened_def push history seven_host_def, simp_all add: new_deepseek_def)
  then obtain d where opened: "?opened = (prompting idle_vars, d, snd seven_host)" and client: "ds_client d = Some ''e''"
    by blast
  have talk: "dialogue ?W [] (Some (runtime_confirm None)) None 0 ?opened ''seven''
      (prompting idle_vars, d\<lparr>ds_messages := ds_messages d @ [assistant_message ''seven'' []]\<rparr>, snd seven_host)"
    unfolding opened push [symmetric]
    by (rule last_answer, rule seven_answered)
      (simp_all add: hosted_def first_obj_def client seven_exchange_def exchange_of_def)
  have reset: "p_reset_session (wi_provider ?W) (idle_vars, seven_host) = (Ret (), (idle_vars, seven_host))"
    unfolding provider
    by (simp add: deepseek_provider_def deepseek_reset_session_def modify_obj_def hosted_def first_obj_def
        seven_host_def new_deepseek_def)
  have profile: "ac_profile seven_context = explorer" by (simp add: seven_context_def)
  have shared: "seven_exchange = exchange_of (runtime_session seven_runtime (wi_provider ?W) seven_context []
      (step_budget seven_context) None) demo_callbacks None"
    unfolding provider by (rule seven_exchange_def)
  have held: "rt_provider seven_runtime = Some (wi_provider ?W)"
    unfolding provider by (simp add: seven_runtime_def new_runtime_def)
  have tools: "filter_tools (ac_profile seven_context) (ac_task seven_context) (rt_tools seven_runtime) [] [] = Some []"
    by (simp add: seven_runtime_def new_runtime_def)
  have able: "p_model_capabilities (wi_provider ?W) (rt_model seven_runtime) (idle_vars\<lparr>rv_executing := True\<rparr>, seven_host) =
      (Ret \<lparr>mc_supports_tools = True, mc_supports_streaming = True, mc_supports_system_instruction = True\<rparr>,
       (idle_vars\<lparr>rv_executing := True\<rparr>, seven_host))"
    unfolding provider by (simp add: deepseek_provider_def default_capabilities_def)
  show ?thesis
    unfolding profile [symmetric]
    by (rule runtime_implements_dialogue [OF refs wire shared seven_quiet seven_calm _ start held _ tools able
        _ _ _ reset talk budget])
      (simp_all add: tools_heed_only_set_def idle_vars_def json_ref_def prompting_def)
qed

end
