(* ===== verification/Workflow_Dialogue.thy ===== *)
theory Workflow_Dialogue
  imports Completion Runtime_Dialogue
begin

text \<open>
  A workflow over the wire. An orchestrator whose factory builds an \<^verbatim>\<open>AgentRuntime\<close> over a built-in provider
  for every stage, with servers that carry on the dialogue each stage opens, completes with the texts of
  the four last streams: the composition of \<open>Completion\<close> with \<open>Runtime_Dialogue\<close>, from the task of the
  user to the bytes of four transfers or more and back.
\<close>

section \<open>A stage with its server\<close>

text \<open>The host between two stages: nobody cancels the workflow, no execution is under way, and \<open>ok\<close> holds.\<close>

definition at_rest :: "('g \<Rightarrow> bool) \<Rightarrow> orch_vars \<times> 'g \<Rightarrow> bool" where
  "at_rest ok h \<longleftrightarrow> \<not> ov_cancel_requested (fst h) \<and> ok (snd h)"

abbreviation between :: "('g \<Rightarrow> bool) \<Rightarrow> runtime_vars \<times> 'g \<Rightarrow> bool" where
  "between ok \<equiv> \<lambda>(r, g). \<not> rv_executing r \<and> ok g"

text \<open>From a host at rest the model takes instructions and tools, and the server carries on the dialogue that
  opens with \<open>said\<close> within the budget, declines no tool, and leaves the host at rest.\<close>

definition carried_on ::
    "(orch_vars \<times> 'g) rworld wire \<Rightarrow> (orch_vars \<times> 'g) rworld tool_registry \<Rightarrow> (orch_vars \<times> 'g) rworld confirmation_fn \<Rightarrow>
     string \<Rightarrow> nat \<Rightarrow> ('g \<Rightarrow> bool) \<Rightarrow> string \<Rightarrow> string \<Rightarrow> runtime_vars \<Rightarrow> orch_vars \<times> 'g \<Rightarrow> bool" where
  "carried_on W registry confirm model budget ok said answer v h \<longleftrightarrow>
     (\<exists>caps. p_model_capabilities (wi_provider W) model (v\<lparr>rv_executing := True\<rparr>, h) =
         (Ret caps, (v\<lparr>rv_executing := True\<rparr>, h)) \<and>
        mc_supports_system_instruction caps \<and> mc_supports_tools caps) \<and>
     (\<exists>h1 n v3 h3 h4. p_reset_session (wi_provider W) (v, h) = (Ret (), (v, h1)) \<and>
        dialogue W registry (Some (runtime_confirm confirm)) None n (wi_opened W said (prompting v, h1)) answer (v3, h3) \<and>
        n < budget \<and> \<not> rv_needs_confirmation v3 \<and> \<not> rv_declined v3 \<and>
        p_reset_session (wi_provider W) (v3, h3) = (Ret (), (v3, h4)) \<and> at_rest ok h4)"

text \<open>The runtime of a stage can start its context, and its server answers it.\<close>

definition stage_served ::
    "json_lib \<Rightarrow> (orch_vars \<times> 'g) rworld platform \<Rightarrow> (orch_vars \<times> 'g, deepseek_object) ref_to \<Rightarrow>
     (orch_vars \<times> 'g, openrouter_object) ref_to \<Rightarrow> (orch_vars \<times> 'g, gemini_object) ref_to \<Rightarrow>
     (orch_vars \<times> 'g) rworld stream_callbacks \<Rightarrow> (orch_vars \<times> 'g) rworld confirmation_fn \<Rightarrow> ('g \<Rightarrow> bool) \<Rightarrow>
     (orch_vars \<times> 'g) rworld runtime \<Rightarrow> agent_context \<Rightarrow> string \<Rightarrow> bool" where
  "stage_served J P ds op gm callbacks confirm ok rt ctxt answer \<longleftrightarrow>
     (\<exists>W U registry said.
        W \<in> set (built_in_wires P (hosted ds) (hosted op) (hosted gm) U) \<and>
        U = exchange_of (runtime_session rt (wi_provider W) ctxt registry (step_budget ctxt) confirm) callbacks None \<and>
        quiet_exchange P U \<and> calm_host uncancelled P callbacks (cancelled_flag id) \<and>
        tools_heed_only_set uncancelled registry (Some (runtime_confirm confirm)) (cancelled_flag id) \<and>
        can_start rt ctxt \<and> rt_provider rt = Some (wi_provider W) \<and>
        filter_tools (ac_profile ctxt) (ac_task ctxt) (rt_tools rt) [] [] = Some registry \<and>
        j_dump J (runtime_prompt ctxt) = Ret said \<and>
        (\<forall>v h. at_rest ok h \<longrightarrow>
           carried_on W registry confirm (rt_model rt) (step_budget ctxt) ok said answer v h))"

lemma stage_served_executes:
  assumes "object_ref ds" and "object_ref op" and "object_ref gm"
    and "stage_served J P ds op gm callbacks confirm ok rt ctxt answer" and "\<not> rv_executing v" and "at_rest ok h"
  shows "\<exists>v4 h4. runtime_execute J id rt ctxt callbacks confirm (v, h) =
      (Ret (completed_with (ac_profile ctxt) answer), (v4, h4)) \<and> \<not> rv_executing v4 \<and> at_rest ok h4"
proof -
  from assms(4) obtain W U registry said where
      wire: "W \<in> set (built_in_wires P (hosted ds) (hosted op) (hosted gm) U)"
        "U = exchange_of (runtime_session rt (wi_provider W) ctxt registry (step_budget ctxt) confirm) callbacks None"
        "quiet_exchange P U" "calm_host uncancelled P callbacks (cancelled_flag id)"
        "tools_heed_only_set uncancelled registry (Some (runtime_confirm confirm)) (cancelled_flag id)"
      and start: "can_start rt ctxt" "rt_provider rt = Some (wi_provider W)"
      and tools: "filter_tools (ac_profile ctxt) (ac_task ctxt) (rt_tools rt) [] [] = Some registry"
      and said: "j_dump J (runtime_prompt ctxt) = Ret said"
      and talk: "carried_on W registry confirm (rt_model rt) (step_budget ctxt) ok said answer v h"
    using assms(6) unfolding stage_served_def by blast
  from talk obtain caps h1 n v3 h3 h4 where
      able: "p_model_capabilities (wi_provider W) (rt_model rt) (v\<lparr>rv_executing := True\<rparr>, h) =
        (Ret caps, (v\<lparr>rv_executing := True\<rparr>, h))" "mc_supports_system_instruction caps" "mc_supports_tools caps"
      and reset: "p_reset_session (wi_provider W) (v, h) = (Ret (), (v, h1))"
      and answered: "dialogue W registry (Some (runtime_confirm confirm)) None n (wi_opened W said (prompting v, h1)) answer (v3, h3)"
        "n < step_budget ctxt" "\<not> rv_needs_confirmation v3" "\<not> rv_declined v3"
      and last: "p_reset_session (wi_provider W) (v3, h3) = (Ret (), (v3, h4))" and rest: "at_rest ok h4"
    unfolding carried_on_def by blast
  from runtime_dialogue [OF assms(1-3) wire start assms(5) tools able said reset answered last] rest show ?thesis by blast
qed

section \<open>The stages of a workflow\<close>

definition workflow_served ::
    "json_lib \<Rightarrow> (orch_vars \<times> 'g) rworld platform \<Rightarrow> (orch_vars \<times> 'g, deepseek_object) ref_to \<Rightarrow>
     (orch_vars \<times> 'g, openrouter_object) ref_to \<Rightarrow> (orch_vars \<times> 'g, gemini_object) ref_to \<Rightarrow>
     (orch_vars \<times> 'g) rworld stream_callbacks \<Rightarrow> (orch_vars \<times> 'g) rworld confirmation_fn \<Rightarrow> ('g \<Rightarrow> bool) \<Rightarrow>
     (agent_profile \<Rightarrow> (orch_vars \<times> 'g) rworld runtime) \<Rightarrow> orchestration_task \<Rightarrow> (agent_context \<Rightarrow> string) \<Rightarrow> bool" where
  "workflow_served J P ds op gm callbacks confirm ok rt task answer \<longleftrightarrow>
     object_ref ds \<and> object_ref op \<and> object_ref gm \<and>
     (\<forall>profile \<in> set standard_profiles. \<forall>produced.
        let ctxt = stage_context task (ap_id profile) profile produced in
          stage_served J P ds op gm callbacks confirm ok (rt profile) ctxt (answer ctxt))"

lemma gives_agent_runtime:
  assumes "object_ref ds" and "object_ref op" and "object_ref gm"
    and "stage_served J P ds op gm (rehost_callbacks callbacks) (rehost_confirm confirm) ok rt ctxt answer"
  shows "gives (calm (between ok)) (ir_execute (agent_runtime J id rt) ctxt callbacks confirm)
    (\<lambda>r. r = completed_with (ac_profile ctxt) answer)"
  unfolding gives_def
proof (intro allI impI)
  fix w :: "(runtime_vars \<times> 'a) oworld"
  assume calm: "calm (between ok) w"
  obtain v r g where w: "w = (v, r, g)" by (cases w)
  from calm have "\<not> rv_executing r" "at_rest ok (v, g)" by (auto simp: w calm_def at_rest_def)
  from stage_served_executes [OF assms this] obtain r4 h4 where
      run: "runtime_execute J id rt ctxt (rehost_callbacks callbacks) (rehost_confirm confirm) (r, v, g) =
        (Ret (completed_with (ac_profile ctxt) answer), (r4, h4))" and "\<not> rv_executing r4" "at_rest ok h4"
    by blast
  then show "\<exists>a w1. ir_execute (agent_runtime J id rt) ctxt callbacks confirm w = (Ret a, w1) \<and>
      calm (between ok) w1 \<and> a = completed_with (ac_profile ctxt) answer"
    by (cases h4) (simp add: w agent_runtime_def rehost_def calm_def at_rest_def)
qed

lemma agents_do_served:
  assumes "workflow_served J P ds op gm (rehost_callbacks callbacks) (rehost_confirm confirm) ok rt task answer"
  shows "agents_do (between ok) task (agent_factory J id rt) callbacks confirm
    (\<lambda>ctxt. completed_with (ac_profile ctxt) (answer ctxt))"
  unfolding agents_do_def
proof
  fix profile assume profile: "profile \<in> set standard_profiles"
  have refs: "object_ref ds" "object_ref op" "object_ref gm" using assms by (simp_all add: workflow_served_def)
  have run: "gives (calm (between ok)) (ir_execute (agent_runtime J id (rt profile))
      (stage_context task (ap_id profile) profile produced) callbacks confirm)
      (\<lambda>r. r = completed_with (ac_profile (stage_context task (ap_id profile) profile produced))
        (answer (stage_context task (ap_id profile) profile produced)))" for produced
    by (rule gives_agent_runtime [OF refs]) (use assms profile in \<open>auto simp: workflow_served_def Let_def\<close>)
  have "gives (calm (between ok)) (rehost (set_vars (\<lambda>_. new_runtime_vars))) (\<lambda>_. True)"
    by (auto simp: gives_def rehost_def set_vars_def calm_def new_runtime_vars_def)
  then show "gives (calm (between ok)) (agent_factory J id rt profile) (\<lambda>built. \<exists>run. built = Some run \<and>
      (\<forall>produced. let ctxt = stage_context task (ap_id profile) profile produced in
        gives (calm (between ok)) (ir_execute run ctxt callbacks confirm)
          (\<lambda>r. r = completed_with (ac_profile ctxt) (answer ctxt)) \<and>
        ar_status (completed_with (ac_profile ctxt) (answer ctxt)) = Completed))"
    unfolding agent_factory_def
    by (rule gives_bindA) (use run in \<open>auto simp: Let_def completed_with_def intro: gives_ret\<close>)
qed

text \<open>What a stage leaves for the next ones.\<close>

definition report :: "artifact_type \<Rightarrow> string \<Rightarrow> string \<Rightarrow> context_artifact" where
  "report t producer content = \<lparr>ca_type = t, ca_producer = producer, ca_content = content\<rparr>"

lemma stage_outputs_completed:
  "stage_outputs stage (completed_with profile answer) = [report (snd stage) (fst stage) answer]"
  by (simp add: stage_outputs_def completed_with_def report_def)

section \<open>Property\<close>

text \<open>C9: a workflow over the wire. When the host lets the workflow proceed and the server of every stage carries
  on the dialogue that the stage opens over DeepSeek, OpenRouter or Gemini, an idle orchestrator that builds
  the runtimes of the library completes a valid task: the four answers are the texts of the last streams,
  each asked for in the context of the ones before, each recorded under its agent and type, and the
  last one is the summary.\<close>

theorem workflow_implements_dialogues:
  assumes "willing (between ok) id callbacks"
    and "workflow_served J P ds op gm (rehost_callbacks (oc_runtime callbacks)) (rehost_confirm confirm) ok rt task answer"
    and "orchestration_valid task" and "4 \<le> ot_max_agent_runs task"
    and "\<not> ov_executing v" and "\<not> rv_executing r" and "ok g"
    and "te = answer (stage_context task ''explorer'' explorer [])" and "e = report Exploration_report ''explorer'' te"
    and "tp = answer (stage_context task ''planner'' planner [e])" and "p = report Implementation_plan ''planner'' tp"
    and "tc = answer (stage_context task ''coder'' coder [e, p])" and "c = report Change_summary ''coder'' tc"
    and "tr = answer (stage_context task ''reviewer'' reviewer [e, p, c])"
  shows "\<exists>v1 r1 g1. orchestrator_execute id (agent_orchestrator J id rt make_registry) task callbacks confirm (v, r, g) =
    (Ret \<lparr>or_status = Orch_completed, or_summary = tr,
       or_executions = [\<lparr>er_profile_id = ''explorer'', er_result = completed_with explorer te\<rparr>,
         \<lparr>er_profile_id = ''planner'', er_result = completed_with planner tp\<rparr>,
         \<lparr>er_profile_id = ''coder'', er_result = completed_with coder tc\<rparr>,
         \<lparr>er_profile_id = ''reviewer'', er_result = completed_with reviewer tr\<rparr>],
       or_artifacts = [e, p, c, report Review_report ''reviewer'' tr], or_error = None\<rparr>, (v1, r1, g1)) \<and>
    \<not> ov_executing v1 \<and> \<not> rv_executing r1 \<and> ok g1"
proof -
  let ?orch = "agent_orchestrator J id rt make_registry"
  have orch: "oo_registry ?orch = make_registry" "oo_factory ?orch = Some (agent_factory J id rt)"
    by (simp_all add: agent_orchestrator_def)
  have calm: "between ok (r, g)" using assms(6,7) by simp
  have work: "completed_with (ac_profile (stage_context task pid profile produced)) t = completed_with profile t"
    for pid profile produced t by (simp add: stage_context_def)
  have outputs: "stage_outputs (stages ! 0) (completed_with explorer te) = [e]"
      "stage_outputs (stages ! 1) (completed_with planner tp) = [p]"
      "stage_outputs (stages ! 2) (completed_with coder tc) = [c]"
      "stage_outputs (stages ! 3) (completed_with reviewer tr) = [report Review_report ''reviewer'' tr]"
    unfolding stage_outputs_completed assms(9,11,13) by (simp_all add: stages_def)
  show ?thesis
    using willing_workflow [OF assms(1) agents_do_served [OF assms(2)] orch assms(3-5) calm, unfolded work,
      of "completed_with explorer te" "completed_with planner tp" "completed_with coder tc" "completed_with reviewer tr"]
    unfolding outputs append.simps assms(8,10,12,14) [symmetric] by (auto simp: completed_with_def)
qed

text \<open>A team over one DeepSeek object, whose server answers every agent with one text.\<close>

definition team_runtime :: "(orch_vars \<times> three_providers) rworld runtime" where
  "team_runtime = new_runtime (Some (deepseek_provider seven_platform (hosted (hosted first_obj)))) ''k'' ''m'' []"

definition team_connected :: "three_providers \<Rightarrow> bool" where
  "team_connected g \<longleftrightarrow> ds_client (fst g) \<noteq> None"

definition team_workflow :: "(runtime_vars \<times> three_providers) oworld orchestration_callbacks" where
  "team_workflow = \<lparr>oc_on_stage_started = None, oc_on_stage_finished = None, oc_before_next_stage = None,
     oc_runtime = demo_callbacks\<rparr>"

lemma team_push:
  "snd (deepseek_push (hosted (hosted first_obj)) m (v, o1, d, r)) = (v, o1, d\<lparr>ds_messages := ds_messages d @ [m]\<rparr>, r)"
  by (simp add: deepseek_push_def modify_hosted) (simp add: hosted_def first_obj_def)

lemma team_object: "obj_get (hosted (hosted first_obj)) (v, o1, d, r) = d"
  by (simp add: hosted_def first_obj_def)

lemma team_carried_on:
  assumes "at_rest team_connected h" and "su_callbacks U = demo_callbacks" and "0 < budget"
  shows "carried_on (deepseek_wire seven_platform (hosted (hosted first_obj)) U) registry confirm model budget
    team_connected said ''seven'' v h"
proof -
  let ?W = "deepseek_wire seven_platform (hosted (hosted first_obj)) U"
  obtain o1 d r where h: "h = (o1, d, r)" by (cases h)
  have reset: "p_reset_session (wi_provider ?W) (u, o1, d, r) = (Ret (), (u, o1, d\<lparr>ds_messages := []\<rparr>, r))"
    for u d and o1 :: orch_vars and r :: "openrouter_object \<times> gemini_object \<times> unit"
    by (simp add: deepseek_wire_def deepseek_provider_def deepseek_reset_session_def modify_hosted)
      (simp add: hosted_def first_obj_def)
  from assms(1) obtain ep where calm: "\<not> ov_cancel_requested o1" "ds_client d = Some ep"
    by (auto simp: h at_rest_def team_connected_def)
  have "\<exists>d1. wi_opened ?W said (prompting v, o1, d\<lparr>ds_messages := []\<rparr>, r) = (prompting v, o1, d1, r) \<and> ds_client d1 = Some ep"
    by (simp add: deepseek_wire_def deepseek_opened_def team_push team_object calm)
  then obtain d1 where opened: "wi_opened ?W said (prompting v, o1, d\<lparr>ds_messages := []\<rparr>, r) = (prompting v, o1, d1, r)"
      and client: "ds_client d1 = Some ep" by blast
  have talk: "dialogue ?W registry (Some (runtime_confirm confirm)) None 0 (prompting v, o1, d1, r) ''seven''
      (prompting v, o1, d1\<lparr>ds_messages := ds_messages d1 @ [assistant_message ''seven'' []]\<rparr>, r)"
    unfolding team_push [symmetric] by (rule last_answer, rule seven_answered) (simp_all add: team_object client assms(2))
  have able: "p_model_capabilities (wi_provider ?W) model w = (Ret default_capabilities, w)" for w
    by (simp add: deepseek_wire_def deepseek_provider_def)
  show ?thesis
    unfolding carried_on_def h
  proof (intro conjI exI)
    show "dialogue ?W registry (Some (runtime_confirm confirm)) None 0
        (wi_opened ?W said (prompting v, o1, d\<lparr>ds_messages := []\<rparr>, r)) ''seven''
        (prompting v, o1, d1\<lparr>ds_messages := ds_messages d1 @ [assistant_message ''seven'' []]\<rparr>, r)"
      unfolding opened by (rule talk)
    show "at_rest team_connected (o1, d1\<lparr>ds_messages := []\<rparr>, r)"
      by (simp add: at_rest_def team_connected_def calm client)
  qed (rule able, simp_all add: reset assms(3) prompting_def default_capabilities_def)
qed

lemma team_starts:
  assumes "profile \<in> set standard_profiles"
  shows "can_start team_runtime (stage_context quick_task pid profile produced)"
    and "0 < step_budget (stage_context quick_task pid profile produced)"
  using assms
  by (auto simp: can_start_def team_runtime_def new_runtime_def stage_context_def task_valid_def only_blanks_def
      blank_char_def step_budget_def standard_profiles_def standard_defs bindings_ok_def int_max_def quick_task_def)

lemma team_served:
  "workflow_served (json_ref [] (\<lambda>_. ''task'')) seven_platform (hosted first_obj) (hosted second_obj) (hosted third_obj)
    demo_callbacks None team_connected (\<lambda>_. team_runtime) quick_task (\<lambda>_. ''seven'')"
proof -
  let ?prov = "deepseek_provider seven_platform (hosted (hosted first_obj))"
  have "stage_served (json_ref [] (\<lambda>_. ''task'')) seven_platform (hosted first_obj) (hosted second_obj) (hosted third_obj)
      demo_callbacks None team_connected team_runtime ctxt ''seven''"
    if start: "can_start team_runtime ctxt" "0 < step_budget ctxt" for ctxt
  proof -
    let ?U = "exchange_of (runtime_session team_runtime ?prov ctxt [] (step_budget ctxt) None) demo_callbacks None"
    let ?W = "deepseek_wire seven_platform (hosted (hosted first_obj)) ?U"
    have wire: "?W \<in> set (built_in_wires seven_platform (hosted (hosted first_obj)) (hosted (hosted second_obj))
        (hosted (hosted third_obj)) ?U)" by (simp add: built_in_wires_def)
    have prov: "wi_provider ?W = ?prov" by (simp add: deepseek_wire_def)
    have quiet: "quiet_exchange seven_platform ?U"
      by (simp add: quiet_exchange_def seven_json exchange_of_def demo_progress demo_returns)
    have calm: "calm_host uncancelled seven_platform demo_callbacks (cancelled_flag id)" by (rule seven_calm)
    have talk: "carried_on ?W [] None (rt_model team_runtime) (step_budget ctxt) team_connected ''task'' ''seven'' v h"
      if "at_rest team_connected h" for v h
      by (rule team_carried_on [OF that _ start(2)]) (simp add: exchange_of_def)
    have held: "rt_provider team_runtime = Some (wi_provider ?W)"
      and tools: "filter_tools (ac_profile ctxt) (ac_task ctxt) (rt_tools team_runtime) [] [] = Some []"
      unfolding prov by (simp_all add: team_runtime_def new_runtime_def)
    have heed: "tools_heed_only_set uncancelled [] (Some (runtime_confirm None)) (cancelled_flag id)"
      and said: "j_dump (json_ref [] (\<lambda>_. ''task'')) (runtime_prompt ctxt) = Ret ''task''"
      by (simp_all add: tools_heed_only_set_def json_ref_def)
    show ?thesis
      unfolding stage_served_def
      by (intro exI [of _ ?W] exI [of _ ?U] exI [of _ "[]"] exI [of _ "''task''"] conjI allI impI wire quiet calm start
          held tools heed said talk) (simp_all add: prov)
  qed
  then show ?thesis
    unfolding workflow_served_def Let_def
    by (intro conjI ballI allI hosted_ref first_obj.object_ref_axioms third_ref
        separate_refs.axioms(2) [OF neighbours.separate_refs_axioms]) (use team_starts in simp)
qed

theorem workflow_implements_dialogues_witness:
  "\<exists>v1 r1 g1. orchestrator_execute id
      (agent_orchestrator (json_ref [] (\<lambda>_. ''task'')) id (\<lambda>_. team_runtime) make_registry) quick_task team_workflow None
      (free_vars, new_runtime_vars, seven_host) =
    (Ret \<lparr>or_status = Orch_completed, or_summary = ''seven'',
       or_executions = [\<lparr>er_profile_id = ''explorer'', er_result = completed_with explorer ''seven''\<rparr>,
         \<lparr>er_profile_id = ''planner'', er_result = completed_with planner ''seven''\<rparr>,
         \<lparr>er_profile_id = ''coder'', er_result = completed_with coder ''seven''\<rparr>,
         \<lparr>er_profile_id = ''reviewer'', er_result = completed_with reviewer ''seven''\<rparr>],
       or_artifacts = [report Exploration_report ''explorer'' ''seven'', report Implementation_plan ''planner'' ''seven'',
         report Change_summary ''coder'' ''seven'', report Review_report ''reviewer'' ''seven''], or_error = None\<rparr>,
     (v1, r1, g1)) \<and> \<not> ov_executing v1 \<and> \<not> rv_executing r1 \<and> team_connected g1"
proof -
  have willing: "willing (between team_connected) id team_workflow" by (simp add: willing_def team_workflow_def)
  have served: "workflow_served (json_ref [] (\<lambda>_. ''task'')) seven_platform (hosted first_obj) (hosted second_obj)
      (hosted third_obj) (rehost_callbacks (oc_runtime team_workflow)) (rehost_confirm None) team_connected
      (\<lambda>_. team_runtime) quick_task (\<lambda>_. ''seven'')"
    using team_served by (simp add: rehost_callbacks_def rehost_confirm_def team_workflow_def demo_callbacks_def)
  have runs: "4 \<le> ot_max_agent_runs quick_task" and idle: "\<not> ov_executing free_vars" "\<not> rv_executing new_runtime_vars"
      and connected: "team_connected seven_host"
    by (simp_all add: quick_task_def free_vars_def new_runtime_vars_def team_connected_def seven_host_def new_deepseek_def)
  show ?thesis
    by (rule workflow_implements_dialogues [OF willing served quick_valid(1) runs idle connected refl refl refl refl refl refl refl])
qed

end
