(* ===== verification/Approvals.thy ===== *)
theory Approvals
  imports Runtime
begin

text \<open>
  What a completed execution of \<^verbatim>\<open>AgentRuntime\<close> says about approvals. The confirmation lambda notes a denial
  and a missing handler, and the notes stay until the result is formed. Two executions with different
  handlers are compared: as long as nothing is noted they are the same, so that one that completes never
  depended on a denial or on a missing handler.
\<close>

section \<open>Actions that agree until a condition holds\<close>

text \<open>\<open>until B m m'\<close>: \<open>m'\<close> does what \<open>m\<close> does, unless \<open>B\<close> holds after \<open>m\<close>.\<close>

definition until :: "('w \<Rightarrow> bool) \<Rightarrow> ('w, 'a) act \<Rightarrow> ('w, 'a) act \<Rightarrow> bool" where
  "until B m m' \<longleftrightarrow> (\<forall>w. B (snd (m w)) \<or> m' w = m w)"

text \<open>A condition that lasts once it holds.\<close>

definition lasting :: "('w \<Rightarrow> bool) \<Rightarrow> 'w \<Rightarrow> 'w \<Rightarrow> bool" where
  "lasting B w w' \<longleftrightarrow> (B w \<longrightarrow> B w')"

interpretation lasting: step_relation "lasting B" for B
  by unfold_locales (auto simp: lasting_def)

lemma untilD: "until B m m' \<Longrightarrow> m w = (r, w1) \<Longrightarrow> \<not> B w1 \<Longrightarrow> m' w = (r, w1)"
  unfolding until_def by (metis snd_conv)

lemma until_refl [intro, simp]: "until B m m"
  by (simp add: until_def)

lemma lasting_within: "within (lasting B) m \<Longrightarrow> B w \<Longrightarrow> B (snd (m w))"
  by (simp add: within_def lasting_def)

lemma until_bindA:
  assumes "until B m m'" and "\<And>a. until B (k a) (k' a)" and "\<And>a. within (lasting B) (k a)"
  shows "until B (bindA m k) (bindA m' k')"
  unfolding until_def
proof
  fix w
  obtain r w1 where m: "m w = (r, w1)" by (cases "m w")
  show "B (snd (bindA m k w)) \<or> bindA m' k' w = bindA m k w"
  proof (cases "B w1")
    case True
    then have "B (snd (k a w1))" for a by (rule lasting_within [OF assms(3)])
    with True m show ?thesis by (cases r) simp_all
  next
    case False
    have "m' w = (r, w1)" by (rule untilD [OF assms(1) m False])
    with m assms(2) show ?thesis by (cases r) (simp_all add: until_def)
  qed
qed

lemma until_then: "(\<And>a. until B (k a) (k' a)) \<Longrightarrow> until B (bindA m k) (bindA m k')"
  unfolding until_def by (auto simp: bindA_def split: prod.splits outcome.splits)

lemma until_if: "(b \<Longrightarrow> until B m m') \<Longrightarrow> (\<not> b \<Longrightarrow> until B k k') \<Longrightarrow> until B (if b then m else k) (if b then m' else k')"
  by simp

lemma until_guard:
  assumes "until B m m'" and "within (lasting B) fin"
  shows "until B (with_session_guard fin m) (with_session_guard fin m')"
  unfolding until_def
proof
  fix w
  obtain r w1 where m: "m w = (r, w1)" by (cases "m w")
  show "B (snd (with_session_guard fin m w)) \<or> with_session_guard fin m' w = with_session_guard fin m w"
  proof (cases "B w1")
    case True
    with lasting_within [OF assms(2) True] m show ?thesis
      by (cases r; cases "fin w1") (auto simp: with_session_guard_def split: outcome.splits)
  next
    case False
    from untilD [OF assms(1) m False] m show ?thesis by (simp add: with_session_guard_def)
  qed
qed

section \<open>A prompt with two handlers\<close>

lemma until_run_calls:
  assumes "tools_within (lasting B) registry confirm callbacks cancel"
    and "\<And>name args. until B (execute_tool registry name args (call_context confirm cancel))
      (execute_tool registry name args (call_context confirm' cancel))"
  shows "until B (run_calls registry confirm callbacks cancel calls rs) (run_calls registry confirm' callbacks cancel calls rs)"
proof (induction calls arbitrary: rs)
  case (Cons call calls)
  show ?case
    unfolding run_calls.simps
    by (intro until_then until_if until_refl until_bindA [OF assms(2)] Cons.IH lasting.within_run_calls [OF assms(1)])
qed simp

lemma until_tool_loop:
  assumes "tools_within (lasting B) registry confirm callbacks cancel"
    and "\<And>name args. until B (execute_tool registry name args (call_context confirm cancel))
      (execute_tool registry name args (call_context confirm' cancel))"
    and "\<And>rs. within (lasting B) (continue_turn rs)"
  shows "until B (tool_loop continue_turn registry confirm callbacks cancel m round turn)
    (tool_loop continue_turn registry confirm' callbacks cancel m round turn)"
proof (induction round arbitrary: turn rule: round_induct [where m = m])
  case (1 round)
  have load: "within (lasting B) (load_flag cancel)" using assms(1) by (simp add: tools_within_def)
  note loop = lasting.within_tool_loop [where continue_turn = continue_turn, OF assms(1,3)]
  show ?case
  proof (cases "round + 1 \<le> m")
    case True
    have next_turn: "until B (check_turn cancel t (tool_loop continue_turn registry confirm callbacks cancel m (round + 1) t))
        (check_turn cancel t (tool_loop continue_turn registry confirm' callbacks cancel m (round + 1) t))" for t
      unfolding check_turn_def by (intro until_then until_if until_refl 1) (use True in simp_all)
    have rest: "within (lasting B) (bindA (load_flag cancel) (\<lambda>c. if c then ret api_cancelled
        else bindA (continue_turn rs) (\<lambda>t. check_turn cancel t
          (tool_loop continue_turn registry confirm callbacks cancel m (round + 1) t))))" for rs
      by (intro lasting.within_bindA load lasting.within_if lasting.within_ret assms(3) lasting.within_check_turn loop)
    show ?thesis
      unfolding tool_loop.simps [of _ _ _ _ _ m round]
      by (intro until_if until_refl until_bindA [OF until_run_calls [OF assms(1,2)]])
        (auto split: option.split intro!: until_then until_if next_turn rest)
  qed (auto simp: tool_loop.simps [of _ _ _ _ _ m round] until_def)
qed

section \<open>The notes of an execution\<close>

text \<open>A denial or a missing handler was noted.\<close>

definition noted :: "'h rworld \<Rightarrow> bool" where
  "noted w \<longleftrightarrow> rv_needs_confirmation (fst w) \<or> rv_declined (fst w)"

abbreviation keeps_notes :: "('h rworld, 'a) act \<Rightarrow> bool" where
  "keeps_notes \<equiv> within (lasting noted)"

text \<open>
  The notes are local variables of the execution: nothing outside it writes them. A tool uses the
  confirmation function of its context by calling it: with one that answers alike it behaves alike.
\<close>

definition asks_openly :: "'h rworld tool \<Rightarrow> bool" where
  "asks_openly t \<longleftrightarrow> tool_within (lasting noted) t \<and>
     (\<forall>args cancel g g'. keeps_notes (load_flag cancel) \<longrightarrow> (\<forall>req. keeps_notes (g req)) \<longrightarrow>
        (\<forall>req. until noted (g req) (g' req)) \<longrightarrow>
        until noted (t_execute t args (call_context (Some g) cancel)) (t_execute t args (call_context (Some g') cancel)))"

definition host_keeps_notes ::
    "('h rworld \<Rightarrow> 'h rworld) \<Rightarrow> 'h rworld runtime \<Rightarrow> 'h rworld stream_callbacks \<Rightarrow> 'h rworld confirmation_fn \<Rightarrow> bool" where
  "host_keeps_notes env rt callbacks confirm \<longleftrightarrow>
     (\<forall>w. lasting noted w (env w)) \<and> (\<forall>g m. cb_on_progress callbacks = Some g \<longrightarrow> keeps_notes (g m)) \<and>
     (\<forall>g req. confirm = Some g \<longrightarrow> keeps_notes (g req)) \<and>
     (\<forall>b t. b \<in> set (rt_tools rt) \<longrightarrow> tb_tool b = Some t \<longrightarrow> asks_openly t) \<and>
     (\<forall>prov. rt_provider rt = Some prov \<longrightarrow> keeps_notes (p_reset_session prov) \<and> (\<forall>n. keeps_notes (p_trim_history prov n)) \<and>
        (\<forall>k m i u reg. keeps_notes (p_start_turn prov k m i u reg callbacks (cancelled_flag env))) \<and>
        (\<forall>k m i rs reg. keeps_notes (p_continue_turn prov k m i rs reg callbacks (cancelled_flag env))))"

text \<open>A handler that does the same as another, except in place of a denial, where it may do anything.\<close>

definition approves_alike :: "'w confirmation_fn \<Rightarrow> 'w confirmation_fn \<Rightarrow> bool" where
  "approves_alike confirm confirm' \<longleftrightarrow>
     (\<forall>g. confirm = Some g \<longrightarrow> (\<exists>g'. confirm' = Some g' \<and>
        (\<forall>req w. (\<exists>w1. g req w = (Ret False, w1)) \<or> g' req w = g req w)))"

lemma until_runtime_confirm:
  assumes "approves_alike confirm confirm'"
  shows "until noted (runtime_confirm confirm req) (runtime_confirm confirm' req)"
proof (cases confirm)
  case None
  then show ?thesis by (simp add: until_def runtime_confirm_def set_vars_def noted_def split_def)
next
  case (Some g)
  with assms obtain g' where g': "confirm' = Some g'"
    "\<And>w. (\<exists>w1. g req w = (Ret False, w1)) \<or> g' req w = g req w"
    by (auto simp: approves_alike_def)
  show ?thesis
    unfolding until_def
  proof
    fix w
    show "noted (snd (runtime_confirm confirm req w)) \<or> runtime_confirm confirm' req w = runtime_confirm confirm req w"
      using g'(2) [of w]
    proof
      assume "\<exists>w1. g req w = (Ret False, w1)"
      then obtain v1 h1 where "g req w = (Ret False, (v1, h1))" by auto
      then show ?thesis by (simp add: Some runtime_confirm_def set_vars_def noted_def bindA_apply)
    next
      assume "g' req w = g req w"
      then show ?thesis by (simp add: Some g'(1) runtime_confirm_def bindA_apply)
    qed
  qed
qed

lemma note_kept:
  "keeps_notes (set_vars (\<lambda>v. v\<lparr>rv_declined := rv_declined v \<or> b\<rparr>))"
  "keeps_notes (set_vars (\<lambda>v. v\<lparr>rv_needs_confirmation := True\<rparr>))"
  "keeps_notes (set_vars (\<lambda>v. v\<lparr>rv_active := c\<rparr>))"
  by (auto simp: within_def lasting_def noted_def set_vars_def)

lemma runtime_confirm_keeps_notes:
  "(\<And>g req. confirm = Some g \<Longrightarrow> keeps_notes (g req)) \<Longrightarrow> keeps_notes (runtime_confirm confirm req)"
  unfolding runtime_confirm_def
  by (cases confirm) (auto intro!: lasting.within_bindA note_kept)

section \<open>The tools of an execution\<close>

lemma asks_openly_permission:
  fixes t :: "'a rworld tool"
  assumes "asks_openly t"
  shows "asks_openly (permission_tool t ask mutates)"
  unfolding asks_openly_def
proof (intro conjI allI impI)
  show "tool_within (lasting noted) (permission_tool t ask mutates)"
    using assms by (intro lasting.tool_within_permission) (simp add: asks_openly_def)
  fix args and cancel :: "'a rworld flag_ptr" and g g' :: "confirmation_request \<Rightarrow> ('a rworld, bool) act"
  assume load: "keeps_notes (load_flag cancel)" and g: "\<forall>req. keeps_notes (g req)" and alike: "\<forall>req. until noted (g req) (g' req)"
  have execute: "until noted (t_execute t args (call_context (Some g) cancel)) (t_execute t args (call_context (Some g') cancel))"
    and stays: "keeps_notes (t_execute t args (call_context (Some g) cancel))"
    using assms load g alike by (auto simp: asks_openly_def tool_within_def call_context_def)
  have fields: "tc_cancel_requested (call_context c cancel) = cancel" "tc_confirm (call_context c cancel) = c"
    for c :: "'a rworld confirmation_fn" by (simp_all add: call_context_def)
  show "until noted (t_execute (permission_tool t ask mutates) args (call_context (Some g) cancel))
      (t_execute (permission_tool t ask mutates) args (call_context (Some g') cancel))"
    unfolding permission_tool_def tool.simps permission_execute_def fields option.case
    by (intro until_then until_if until_refl until_bindA execute lasting.within_if lasting.within_ret lasting.within_bindA
        load stays alike [rule_format])
qed

lemma filter_tools_open:
  assumes "filter_tools profile task bs names reg = Some reg'"
    and "\<And>b t. b \<in> set bs \<Longrightarrow> tb_tool b = Some t \<Longrightarrow> asks_openly t"
    and "list_all (\<lambda>p. asks_openly (snd p)) reg"
  shows "list_all (\<lambda>p. asks_openly (snd p)) reg'"
  using assms
proof (induction bs arbitrary: names reg)
  case (Cons b bs)
  from Cons.prems(1) obtain t where t: "tb_tool b = Some t" by (auto split: option.splits)
  let ?p = "permission_tool t (binding_asks profile (tb_operations b)) (binding_mutates (tb_operations b))"
  have "asks_openly ?p" using Cons.prems(2) [of b t] t by (intro asks_openly_permission) simp
  then have "list_all (\<lambda>p. asks_openly (snd p)) (snd (register_tool (Some ?p) reg))"
    using Cons.prems(3) by (intro list_all_register_tool) simp_all
  then show ?case
    using Cons.prems t by (auto simp: Let_def split: if_splits intro: Cons.IH)
qed simp

lemma host_load: "host_keeps_notes env rt callbacks confirm \<Longrightarrow> keeps_notes (load_flag (cancelled_flag env))"
  unfolding host_keeps_notes_def by (rule cancelled_flag_within) blast

lemma execution_tools:
  assumes host: "host_keeps_notes env rt callbacks confirm" and alike: "approves_alike confirm confirm'"
    and "filter_tools profile task (rt_tools rt) [] [] = Some registry"
  shows "tools_within (lasting noted) registry (Some (runtime_confirm confirm)) callbacks (cancelled_flag env)"
    and "until noted (execute_tool registry name args (call_context (Some (runtime_confirm confirm)) (cancelled_flag env)))
      (execute_tool registry name args (call_context (Some (runtime_confirm confirm')) (cancelled_flag env)))"
proof -
  have "list_all (\<lambda>p. asks_openly (snd p)) registry"
    by (rule filter_tools_open [OF assms(3)]) (use host in \<open>auto simp: host_keeps_notes_def\<close>)
  then have open_tools: "asks_openly t" if "map_of registry name = Some t" for name t
    using that by (force simp: list_all_iff dest: map_of_SomeD)
  have load: "keeps_notes (load_flag (cancelled_flag env))"
    by (rule host_load [OF host])
  have conf: "keeps_notes (runtime_confirm confirm req)" for req
    using host by (intro runtime_confirm_keeps_notes) (simp add: host_keeps_notes_def)
  have "keeps_notes (execute_tool registry name args (call_context (Some (runtime_confirm confirm)) (cancelled_flag env)))"
    for name args
    using open_tools load conf
    by (auto simp: execute_tool_def find_tool_def asks_openly_def tool_within_def call_context_def split: option.split)
  then show "tools_within (lasting noted) registry (Some (runtime_confirm confirm)) callbacks (cancelled_flag env)"
    using host load by (auto simp: tools_within_def host_keeps_notes_def)
  show "until noted (execute_tool registry name args (call_context (Some (runtime_confirm confirm)) (cancelled_flag env)))
      (execute_tool registry name args (call_context (Some (runtime_confirm confirm')) (cancelled_flag env)))"
    using open_tools load conf until_runtime_confirm [OF alike]
    by (auto simp: execute_tool_def find_tool_def asks_openly_def split: option.split)
qed

section \<open>The execution\<close>

lemma until_guarded_prompt:
  assumes host: "host_keeps_notes env rt callbacks confirm" and alike: "approves_alike confirm confirm'"
    and "rt_provider rt = Some prov" and "filter_tools profile task (rt_tools rt) [] [] = Some registry"
  shows "until noted (guarded_prompt J env (runtime_session rt prov ctxt registry n confirm) prov ctxt callbacks)
    (guarded_prompt J env (runtime_session rt prov ctxt registry n confirm') prov ctxt callbacks)"
proof -
  let ?s = "runtime_session rt prov ctxt registry n confirm"
  note tools = execution_tools [OF host alike assms(4)]
  have reset: "keeps_notes (p_reset_session prov)"
    and continue: "keeps_notes (p_continue_turn prov k m i rs reg callbacks (cancelled_flag env))" for k m i rs reg
    using host assms(3) by (auto simp: host_keeps_notes_def)
  have finish: "keeps_notes (world_finish prov)"
    unfolding world_finish_def by (intro lasting.within_bindA note_kept reset)
  have prompts: "until noted (world_prompt ?s prov said callbacks (cancelled_flag env))
      (world_prompt (runtime_session rt prov ctxt registry n confirm') prov said callbacks (cancelled_flag env))" for said
    unfolding world_prompt_def run_prompt_def Let_def check_turn_def runtime_session_def session_registry_def
      session.simps option.case agent_config.simps
    by (intro until_then until_if until_refl until_tool_loop tools continue)
  show ?thesis
    unfolding guarded_prompt_def
    by (intro until_guard until_then until_bindA [OF prompts] lasting.within_bindA lasting.within_ret finish until_refl)
qed

lemma until_world_run:
  assumes host: "host_keeps_notes env rt callbacks confirm" and alike: "approves_alike confirm confirm'"
    and "rt_provider rt = Some prov" and "filter_tools profile task (rt_tools rt) [] [] = Some registry"
  shows "until noted (world_run J env (runtime_session rt prov ctxt registry n confirm) prov ctxt callbacks)
    (world_run J env (runtime_session rt prov ctxt registry n confirm') prov ctxt callbacks)"
proof -
  have same: "se_active_model (runtime_session rt prov ctxt registry n confirm') =
      se_active_model (runtime_session rt prov ctxt registry n confirm)"
    "session_registry (runtime_session rt prov ctxt registry n confirm') =
      session_registry (runtime_session rt prov ctxt registry n confirm)"
    by (simp_all add: runtime_session_def session_registry_def)
  have load: "keeps_notes (load_flag (cancelled_flag env))"
    by (rule host_load [OF host])
  show ?thesis
    unfolding world_run_def same
    by (intro until_then until_if until_refl until_bindA [OF until_guarded_prompt [OF assms]] lasting.within_bindA
        lasting.within_if lasting.within_ret lasting.within_readA load)
qed

section \<open>Property\<close>

text \<open>C30: completed means approved. The notes of an execution are its own, and the tools use the handler only
  by calling it. When an execution has the status completed, it would have been the same with any other
  handler that approves, throws and fails where the one given does, whatever that does in place of a denial,
  and with any handler at all if none was given: so no approval was declined, and no handler was missing when
  one was needed. The result has no error, its only artifact is the answer, signed with the id of the
  profile, and the cancellation flag is not set.\<close>

theorem completed_means_approved:
  assumes "runtime_execute J env rt ctxt callbacks confirm (v, h) = (Ret r, (v1, h1))" and "ar_status r = Completed"
    and "host_keeps_notes env rt callbacks confirm" and "approves_alike confirm confirm'"
  shows "runtime_execute J env rt ctxt callbacks confirm' (v, h) = (Ret r, (v1, h1)) \<and> \<not> rv_cancelled v1 \<and>
    ar_error r = None \<and>
    ar_artifacts r = [\<lparr>ca_type = Generic, ca_producer = ap_id (ac_profile ctxt), ca_content = ar_summary r\<rparr>]"
proof -
  let ?m = "\<lambda>confirm. execute_checked J env rt ctxt callbacks confirm"
  note result = completed_result [OF assms(1,2)]
  have idle: "\<not> rv_executing v"
    using assms(1,2) by (auto simp: runtime_execute_def set_vars_def runtime_failure_def)
  obtain q v2 h2 where m: "?m confirm (v\<lparr>rv_executing := True\<rparr>, h) = (q, (v2, h2))"
    by (cases "?m confirm (v\<lparr>rv_executing := True\<rparr>, h)") auto
  have q: "q = Ret r" "v1 = v2\<lparr>rv_executing := False\<rparr>" "h1 = h2"
    using assms(1,2) m by (cases q; auto simp: runtime_execute_idle [OF idle] try_any_def runtime_failure_def)+
  have "?m confirm' (v\<lparr>rv_executing := True\<rparr>, h) = (Ret r, (v2, h2))"
  proof (cases rule: execute_checked_cases [of rt ctxt J env callbacks confirm])
    case (rejected code message)
    with m q assms(2) show ?thesis by (auto simp: runtime_failure_def)
  next
    case (started prov registry)
    have quiet: "\<not> noted (v2, h2)" using result q(2) by (simp add: noted_def)
    have "?m confirm' = world_run J env (runtime_session rt prov ctxt registry (step_budget ctxt) confirm') prov ctxt callbacks"
      using started(1-3) by (cases rule: execute_checked_cases [of rt ctxt J env callbacks confirm']) auto
    moreover have "world_run J env (runtime_session rt prov ctxt registry (step_budget ctxt) confirm) prov ctxt callbacks
        (v\<lparr>rv_executing := True\<rparr>, h) = (Ret r, (v2, h2))"
      using m q(1) started(4) by simp
    ultimately show ?thesis
      using untilD [OF until_world_run [OF assms(3,4) started(2,3)] _ quiet] by simp
  qed
  then show ?thesis
    using result q by (simp add: runtime_execute_idle [OF idle] try_any_def)
qed

text \<open>A host that approves the writing of files and denies the rest: the run that writes a file completes, and
  is the same when the host breaks down in place of each denial.\<close>

definition write_only :: "(count_world, bool) act \<Rightarrow> count_world confirmation_fn" where
  "write_only otherwise = Some (\<lambda>req. if cr_name req = ''write_file'' then ret True else otherwise)"

theorem completed_means_approved_witness:
  "\<exists>r v1. runtime_execute plain_json id (count_runtime [write_call]) (coder_context 3) silent (write_only (Pair Undef))
      (idle_vars, 0, 0) = (Ret r, (v1, 2, 1)) \<and>
    ar_artifacts r = [\<lparr>ca_type = Generic, ca_producer = ''coder'', ca_content = ''done''\<rparr>]"
proof -
  let ?r = "runtime_result coder (api_success ''done'') False idle_vars"
  have "world_run plain_json id (runtime_session (count_runtime [write_call]) (count_provider [write_call]) (coder_context 3)
      [(''write_file'', permission_tool write_tool True True)] 3 (write_only (ret False))) (count_provider [write_call])
      (coder_context 3) silent (idle_vars\<lparr>rv_executing := True\<rparr>, 0, 0) =
    (Ret ?r, (idle_vars\<lparr>rv_executing := True\<rparr>, 2, 1))"
    by (simp add: world_run_def guarded_prompt_def with_session_guard_def world_finish_def bindA_def set_vars_def
        count_provider_def default_capabilities_def idle_vars_def json_ref_def world_prompt_def run_prompt_def
        check_turn_def cancelled_flag_def load_flag_def Let_def runtime_session_def session_registry_def
        count_turn_def write_call_def final_def silent_def tool_loop.simps [where round = 0] tool_loop.simps [where round = 1]
        execute_tool_def find_tool_def permission_tool_def permission_execute_def write_tool_def call_context_def
        runtime_confirm_def write_only_def make_confirmation_request_def int_max_def registry_empty_def runtime_result_def
        coder_context_def api_success_def call_response_def)
  moreover have idle: "\<not> rv_executing idle_vars" by (simp add: idle_vars_def)
  ultimately have run: "runtime_execute plain_json id (count_runtime [write_call]) (coder_context 3) silent
      (write_only (ret False)) (idle_vars, 0, 0) = (Ret ?r, (idle_vars, 2, 1))"
    by (simp add: runtime_execute_idle count_started try_any_def idle_vars_def)
  have completed: "ar_status ?r = Completed" by (simp add: runtime_result_def api_success_def idle_vars_def)
  have host: "host_keeps_notes id (count_runtime [write_call]) silent (write_only (ret False))"
    by (auto simp: host_keeps_notes_def asks_openly_def tool_within_def count_runtime_def count_provider_def count_turn_def
        write_tool_def write_only_def silent_def within_def lasting_def noted_def)
  have "approves_alike (write_only (ret False)) (write_only (Pair Undef))" by (simp add: approves_alike_def write_only_def)
  from completed_means_approved [OF run completed host this] show ?thesis
    by (auto simp: runtime_result_def api_success_def idle_vars_def coder_context_def standard_defs)
qed

end
