(* ===== verification/Spec2Isabelle.thy ===== *)
theory Spec2Isabelle
  imports Gate Workflow Protocol Gemini_Turn Basic_Agent Requests Replay Dialogue Completion Workflow_Dialogue
    Approvals
begin

text \<open>
  Verification development for ARN Core, a C++23 library that runs language models as agents: it keeps
  the conversation with a model provider, runs the tools the model asks for under the control of the
  host, and coordinates a fixed workflow of four agents. All paths below are under \<^verbatim>\<open>src/\<close>; headers are
  under \<^verbatim>\<open>src/include/arn/core/\<close>.

  \<^bold>\<open>The parts and how they interact.\<close> \<^verbatim>\<open>AgentOrchestrator\<close> asks its factory for a runtime per stage;
  \<^verbatim>\<open>AgentRuntime\<close> filters the host's tools by the profile of the agent, wraps them in a permission
  adapter, builds an \<^verbatim>\<open>AgentSession\<close> and prompts it once; the session starts a turn of its
  \<^verbatim>\<open>IModelProvider\<close>, executes the tool calls of the turn through the \<^verbatim>\<open>ToolRegistry\<close> and continues the
  turn with their results; a provider keeps the history in its wire format, sends it with the streaming
  POST and the retry loops of \<^verbatim>\<open>net/http_client\<close>, and reads the answer through the \<^verbatim>\<open>SseDecoder\<close> and a
  parser of stream events. A tool asks for approval through a \<^verbatim>\<open>ConfirmationFn\<close>, which a host may build
  on the \<^verbatim>\<open>ConfirmationGate\<close>. The program \<^verbatim>\<open>examples/basic_agent/main.cpp\<close> runs one session on a terminal.

  \<^bold>\<open>How the code is modelled.\<close> A function that has no effect is a function. Code with effects takes the world
  and returns an outcome and the new world (type \<open>act\<close> of \<open>Prelude\<close>); an outcome is a value, an exception
  (with its text when it is a \<^verbatim>\<open>std::exception\<close>), non-termination, or undefined behaviour. The state of
  an object is a record: it is the first component of the world where the object owns it and other
  code acts on the rest (\<open>on_snd\<close>), and a part of the world reached through a reference
  (\<open>object_ref\<close>) where others hold a pointer to it. Strings are lists of bytes, an ordered map of the
  standard library is the sorted list of its entries, \<^verbatim>\<open>int\<close> is an integer whose overflow is undefined
  behaviour, and the sequence number of the gate is a 64-bit word. Atomic flags another thread may set
  are read through \<open>load_flag\<close>, or after the argument \<open>env\<close>, an arbitrary change of the world by other
  threads.

  \<^bold>\<open>Theories, code and facts.\<close>
  \<^item> \<open>Prelude\<close>: effects, and the contracts on effects the proofs use (\<open>completes\<close>, \<open>raises\<close>, \<open>within\<close> and the
    locale \<open>step_relation\<close>). \<open>Cpp_Lib\<close>: strings and ordered maps of the standard library.
  \<^item> \<open>Json\<close>: JSON values and the interface of \<^verbatim>\<open>nlohmann::json\<close>, a parameter whose documented behaviour is
    the locale \<open>json_laws\<close>; \<open>json_ref\<close> is an instance of it.
  \<^item> \<open>Tools\<close>: \<^verbatim>\<open>tool/\<close> and \<^verbatim>\<open>confirmation_request.hpp\<close>. The locale \<open>catalog\<close> is the contract of a registry
    that keeps the first entry of a name; both registries of the code are instances. \<open>Profiles\<close>:
    \<^verbatim>\<open>agent_permissions\<close>, tasks, profiles, results and \<^verbatim>\<open>agent_registry.cpp\<close>: what the standard agents may do.
  \<^item> \<open>Sse\<close>: \<^verbatim>\<open>net/sse_decoder.hpp\<close>: decoding inverts framing, in any chunking. \<open>Http\<close>:
    \<^verbatim>\<open>net/http_client\<close>: no replay after an event, bounded and terminating retries, delivery of exactly the
    payloads of the body.
  \<^item> \<open>Gate\<close>: \<^verbatim>\<open>confirmation_gate.hpp\<close> as an inductive step relation over threads, one step per critical
    section, so that every interleaving is a run.
  \<^item> \<open>Provider\<close> and \<open>Session\<close>: \<^verbatim>\<open>model_provider\<close> and \<^verbatim>\<open>agent_session.cpp\<close>: one response per call, the bound of
    the rounds, cancellation, termination, and equality with a reference conversation.
  \<^item> \<open>Runtime\<close>: \<^verbatim>\<open>agent_runtime.cpp\<close>: which tools the model can reach, that nothing runs unapproved, budgets,
    exceptions and outcomes. \<open>Approvals\<close>: an execution that completes never depended on a denial or on a
    missing handler. \<open>Orchestrator\<close>: \<^verbatim>\<open>agent_orchestrator.cpp\<close>: order and scope of the stages.
    \<open>Workflow\<close>: the two composed behind \<^verbatim>\<open>IAgentRuntime\<close>. \<open>Completion\<close>: with a willing host a workflow gets
    done, and is the line of four agents of a reference function.
  \<^item> \<open>Provider_Utils\<close>: \<^verbatim>\<open>providers/provider_utils.cpp\<close> and \<^verbatim>\<open>net/model_parser.cpp\<close>. \<open>Objects\<close>,
    \<open>Deepseek_Provider\<close>, \<open>Gemini_Provider\<close>, \<open>Openrouter_Provider\<close>: the providers and their factory, every
    operation. \<open>Fragments\<close>: the abstract reading of a streamed answer (pieces of text, fragments of calls),
    which the parsers refine; \<open>Turns\<close> and \<open>Gemini_Turn\<close>: whole turns, from the bytes of the server to
    the history;
    \<open>Provider_Facts\<close>: trimming, schemas, catalogs and types; \<open>Protocol\<close>: the locale \<open>tool_protocol\<close>, what
    a provider promises of the history, and that a session keeps it.
  \<^item> \<open>Turn_Steps\<close>: the locales \<open>turn_relation\<close> and \<open>world_relation\<close>, the way from a relation that the network
    and the host respect to whole turns of the three providers, past the decoder, the retry loop and the
    parsers. Their instances carry three results: \<open>Protocol\<close> keeps the history of a provider under the
    tools of the host, \<open>Requests\<close> bounds the HTTP requests of a turn and of a workflow, and \<open>Replay\<close> shows that
    no request follows a piece of text the consumer has received.
  \<^item> \<open>Dialogue\<close>: the specification \<open>dialogue\<close> of a prompt as its server sees it, and the locale \<open>wire_laws\<close>, the
    contract of a provider with it; DeepSeek, OpenRouter and Gemini are instances, so that a prompt over
    each implements it. \<open>Unset_Flag\<close>: a cancellation flag that stays unset is as if there were none, for every
    operation that is given one, from the wait of the retry loop to the prompt. \<open>Runtime_Dialogue\<close>: an
    execution of \<^verbatim>\<open>AgentRuntime\<close> over a built-in provider implements the dialogue with its server.
    \<open>Workflow_Dialogue\<close>: a workflow of such runtimes completes with the texts of its servers.
  \<^item> \<open>Lifecycle\<close>: the class \<^verbatim>\<open>AgentSession\<close> around its state (constructor, moves, accessors, overloads), what
    any sequence of its methods leaves of the settings, configuration by type, the moves of the providers,
    and \<^verbatim>\<open>version.hpp\<close>. \<open>Basic_Agent\<close>: \<^verbatim>\<open>examples/basic_agent/main.cpp\<close> with its tools, its demonstration
    provider, its console and \<^verbatim>\<open>main\<close>.
  \<^item> This theory: what holds of a workflow down to the tools and the turns of the models.

  \<^bold>\<open>Loops and bounds.\<close> Loops are structural recursions or functions with a measure: the retry loops on the
  attempts left, the scan of the decoder on the bytes left, the tool loop on the rounds left. The
  round counter and the doubling of the delay are the only signed arithmetic that can overflow; the
  theorems on completion show that they do not, for the bounds they name. The wait between two attempts
  polls a clock and takes fuel: one step per millisecond of the delay and one more, which suffices
  because every sleep of a clock that runs advances it; on a clock that does not, the outcome is
  \<open>Hang\<close>, and the theorem on completion excludes it.

  \<^bold>\<open>Not modelled.\<close> Parameters, since they are not code of the repository: the HTTP client (what it sends and the
  callbacks it makes are, its time-outs and keep-alive settings are not), the JSON library behind its
  laws, the random numbers and the clock, the sort of the standard library (any sort by the key), the
  nonce of the gate, the arithmetic of \<^verbatim>\<open>double\<close> in the example, and host code (tools, callbacks, factories,
  custom providers). The memory model of the atomics is not: a read sees some value, and the mutex of an
  object makes its critical sections steps. Enumerators outside an enumeration other than in permissions,
  and the order in which nlohmann writes the members of an object are left out. Destructors release
  memory only, and what a method of a moved-from session does is undefined behaviour. \<^verbatim>\<open>tests/\<close>, the
  build files and \<^verbatim>\<open>confirmation_handler.hpp\<close>, which only includes another header, hold no code of the
  library.
\<close>

section \<open>Properties that span components\<close>

text \<open>C2: what a workflow can reach. In a workflow of the orchestrator over the standard registry with
  runtimes of the library, whatever the host's tools, models, callbacks and other threads do, a tool
  bound to commands, the network or the history of a repository, or, when the task is read-only, to
  anything but reading, is never executed: with any other behaviour in its place every run of the
  workflow is the same.\<close>

theorem workflow_never_runs_off_limits_tools:
  "orchestrator_execute env (agent_orchestrator J renv (\<lambda>profile. disarm task e q (rt profile)) make_registry)
     task callbacks confirm =
   orchestrator_execute env (agent_orchestrator J renv rt make_registry) task callbacks confirm"
proof -
  have "run_stages env (agent_factory J renv (\<lambda>profile. disarm task e q (rt profile))) task callbacks confirm staged flow =
      run_stages env (agent_factory J renv rt) task callbacks confirm staged flow"
    if "stage_profiles make_registry stages = Inr staged" for staged flow
    by (rule run_stages_agents_cong, rule agent_runtime_disarmed)
      (use that in \<open>auto simp: quick_profiles standard_profiles_def\<close>)
  then show ?thesis
    by (auto simp: orchestrator_execute_def run_workflow_def agent_orchestrator_def split: sum.splits
        intro!: arg_cong [of _ _ "exclusively _"])
qed

text \<open>C24: the cost of a workflow. A workflow takes at most as many turns of the models as the budgets of its
  stages together, each the smaller of the budgets of its profile and of the task, whatever the models
  ask for and however the workflow ends: a counter that only turns raise, each by at most one, grows by
  at most that much.\<close>

theorem workflow_turns_bounded:
  assumes "workflow_within (no_more (counter c)) env callbacks"
    and "runtimes_count c renv rt (rehost_callbacks (oc_runtime callbacks)) (rehost_confirm confirm)"
  shows "c (snd (snd (snd (orchestrator_execute env (agent_orchestrator J renv rt reg) task callbacks confirm (v, r, g)))))
    \<le> c g + workflow_budget task reg"
  using raises_orchestrator_execute [where n = 1, OF assms, of task reg J] unfolding raises_def
  by (auto simp: split_def dest: spec [of _ "(v, r, g)"])

theorem workflow_turns_bounded_witness:
  "snd (snd (snd (orchestrator_execute id (agent_orchestrator plain_json id (\<lambda>_. answering_runtime) make_registry)
     (quick_task\<lparr>ot_constraints := \<lparr>tk_max_steps = Some 3, tk_read_only = True, tk_notes = []\<rparr>\<rparr>) silent_workflow None
     (free_vars, new_runtime_vars, 0)))) \<le> 12"
proof -
  let ?task = "quick_task\<lparr>ot_constraints := \<lparr>tk_max_steps = Some 3, tk_read_only = True, tk_notes = []\<rparr>\<rparr>"
  have "runtimes_count id id (\<lambda>_. answering_runtime) (rehost_callbacks (oc_runtime silent_workflow)) (rehost_confirm None)"
    using answering_counts silent_within(2) by (auto simp: runtimes_cost_def answering_runtime_def)
  from workflow_turns_bounded [OF silent_within(1) this, of plain_json make_registry ?task free_vars new_runtime_vars 0]
  have "snd (snd (snd (orchestrator_execute id (agent_orchestrator plain_json id (\<lambda>_. answering_runtime) make_registry)
      ?task silent_workflow None (free_vars, new_runtime_vars, 0)))) \<le> workflow_budget ?task make_registry" by simp
  also have "workflow_budget ?task make_registry \<le> 12"
    by (simp add: workflow_budget_def stages_def make_registry_eq find_profile_def stage_budget_def)
  finally show ?thesis .
qed

end
